(* ===== verification/Prelude.thy ===== *)
theory Prelude
  imports
    Main
    "HOL-Library.Word"
    "HOL-Library.List_Lexorder"
    "HOL-Library.Monad_Syntax"
begin

text \<open>
  Shared vocabulary of the development: machine words and byte strings, the big-endian
  value of a byte string and how the lexicographic order of keys reads it, and the
  ordered map that stands for \<^verbatim>\<open>std::map\<close>. A failed \<^verbatim>\<open>CHECK\<close> of the source aborts the
  process; the model returns \<open>None\<close> there, and the \<open>do\<close> notation of the option type
  threads it.
\<close>

unbundle bit_operations_syntax

named_theorems om_simps \<open>laws of the ordered map\<close>
named_theorems codec_simps \<open>laws of the key codec\<close>

subsection \<open>Words, bytes and strings\<close>

type_synonym byte = "8 word"
type_synonym bytes = "byte list"
type_synonym u32 = "32 word"
type_synonym u64 = "64 word"

text \<open>A C string literal as the bytes of its characters.\<close>

definition str :: "string \<Rightarrow> bytes" where
  "str s = map of_char s"

text \<open>\<^verbatim>\<open>std::string::substr(pos, n)\<close>; a position past the end throws.\<close>

definition substr :: "nat \<Rightarrow> nat \<Rightarrow> bytes \<Rightarrow> bytes option" where
  "substr pos n s = (if pos \<le> length s then Some (take n (drop pos s)) else None)"

definition substr_from :: "nat \<Rightarrow> bytes \<Rightarrow> bytes option" where
  "substr_from pos s = (if pos \<le> length s then Some (drop pos s) else None)"

text \<open>\<^verbatim>\<open>CHECK(b)\<close>: the process goes on only when the condition holds.\<close>

definition CHECK :: "bool \<Rightarrow> unit option" where
  "CHECK b = (if b then Some () else None)"

lemma CHECK_eq_Some [simp]: "CHECK b = Some u \<longleftrightarrow> b"
  by (simp add: CHECK_def)

lemma CHECK_bind [simp]: "CHECK b \<bind> f = (if b then f () else None)"
  by (simp add: CHECK_def)

text \<open>The computation returns, with a value that satisfies \<open>Q\<close>.\<close>

definition returns :: "'a option \<Rightarrow> ('a \<Rightarrow> bool) \<Rightarrow> bool" where
  "returns m Q \<longleftrightarrow> (\<exists>x. m = Some x \<and> Q x)"

lemma returns_Some [simp]: "returns (Some x) Q \<longleftrightarrow> Q x"
  by (simp add: returns_def)

lemma returns_None [simp]: "\<not> returns None Q"
  by (simp add: returns_def)

lemma returns_mono: "returns m P \<Longrightarrow> (\<And>x. P x \<Longrightarrow> Q x) \<Longrightarrow> returns m Q"
  by (auto simp: returns_def)

lemma returns_bind: "returns m (\<lambda>x. returns (g x) Q) \<Longrightarrow> returns (m \<bind> g) Q"
  by (auto simp: returns_def)

subsection \<open>The big-endian value of a byte string\<close>

fun be_val :: "bytes \<Rightarrow> nat" where
  "be_val [] = 0"
| "be_val (b # bs) = unat b * 256 ^ length bs + be_val bs"

lemma unat_byte_less [simp]: "unat (b :: byte) < 256"
  using unsigned_less [of b, where 'a = nat] by simp

lemma be_val_less: "be_val bs < 256 ^ length bs"
proof (induction bs)
  case (Cons b bs)
  have "unat b * 256 ^ length bs + be_val bs < unat b * 256 ^ length bs + 256 ^ length bs"
    using Cons.IH by simp
  also have "\<dots> = (unat b + 1) * 256 ^ length bs"
    by simp
  also have "\<dots> \<le> 256 * 256 ^ length bs"
    using unat_byte_less [of b] by (intro mult_right_mono) (simp_all add: Suc_leI del: unat_byte_less)
  finally show ?case by simp
qed simp

lemma be_val_append: "be_val (xs @ ys) = be_val xs * 256 ^ length ys + be_val ys"
  by (induction xs) (simp_all add: algebra_simps power_add)

lemma be_val_mono_step:
  assumes "unat a < unat b" and "length xs = length ys"
  shows "be_val (a # xs) < be_val (b # ys)"
proof -
  have "be_val (a # xs) < (unat a + 1) * 256 ^ length xs"
    using be_val_less [of xs] by simp
  also have "\<dots> \<le> unat b * 256 ^ length ys"
    using assms by (metis Suc_eq_plus1 Suc_leI mult_le_mono1)
  finally show ?thesis by simp
qed

text \<open>On strings of one length, the byte order of the store is the order of the values.\<close>

lemma less_iff_be_val:
  assumes "length xs = length ys"
  shows "xs < ys \<longleftrightarrow> be_val xs < be_val ys"
  using assms
proof (induction xs ys rule: list_induct2)
  case (Cons a xs b ys)
  consider "unat a < unat b" | "unat b < unat a" | "a = b"
    using linorder_less_linear [of "unat a" "unat b"] by (auto simp: word_unat_eq_iff)
  then show ?case
  proof cases
    case 1
    then show ?thesis
      using be_val_mono_step [OF 1 Cons.hyps] by (simp add: word_less_nat_alt)
  next
    case 2
    then show ?thesis
      using be_val_mono_step [OF 2 Cons.hyps [symmetric]] by (auto simp: word_less_nat_alt)
  next
    case 3
    then show ?thesis using Cons by simp
  qed
qed simp

lemma eq_iff_be_val:
  assumes "length xs = length ys"
  shows "xs = ys \<longleftrightarrow> be_val xs = be_val ys"
  using less_iff_be_val [OF assms] less_iff_be_val [OF assms [symmetric]]
  by (metis linorder_less_linear less_irrefl)

subsection \<open>The lexicographic order and common prefixes\<close>

lemma less_append_same_length:
  fixes xs ys :: bytes
  assumes "length xs = length ys"
  shows "xs @ us < ys @ vs \<longleftrightarrow> xs < ys \<or> xs = ys \<and> us < vs"
  using assms by (induction xs ys rule: list_induct2) auto

lemma append_less_append [simp]: "(p @ us :: bytes) < p @ vs \<longleftrightarrow> us < vs"
  by (induction p) simp_all

lemma append_le_append [simp]: "(p @ us :: bytes) \<le> p @ vs \<longleftrightarrow> us \<le> vs"
  by (induction p) simp_all

lemma le_append [simp]: "(p :: bytes) \<le> p @ s"
  by (induction p) simp_all

lemma not_append_less [simp]: "\<not> (p @ s :: bytes) < p"
  using le_append [of p s] by (simp add: not_less)

text \<open>
  The half-open interval between a fixed-width prefix and its successor holds exactly the
  strings with that prefix. This is what makes a table range of the store the set of keys
  of one owner.
\<close>

lemma prefix_interval:
  fixes p q k :: bytes
  assumes len: "length q = length p" and suc: "be_val q = be_val p + 1"
    and long: "length p \<le> length k"
  shows "p \<le> k \<and> k < q \<longleftrightarrow> (\<exists>s. k = p @ s)"
proof
  assume "\<exists>s. k = p @ s"
  moreover have "p < q" using len suc by (simp add: less_iff_be_val)
  ultimately show "p \<le> k \<and> k < q"
    using less_append_same_length [OF len [symmetric], of _ "[]"] by auto
next
  assume k: "p \<le> k \<and> k < q"
  let ?t = "take (length p) k" and ?d = "drop (length p) k"
  have split: "k = ?t @ ?d" by simp
  have lt: "length ?t = length p" using long by simp
  have "p \<le> ?t"
    using k less_append_same_length [OF lt, of ?d "[]"] split
    by (metis append_Nil2 not_less)
  then have ge: "be_val p \<le> be_val ?t"
    using lt less_iff_be_val [of ?t p] by (metis not_less)
  have "?t < q"
    using k less_append_same_length [of ?t q ?d "[]"] lt len split
    by (metis append_Nil2 not_less_Nil)
  then have "be_val ?t < be_val q"
    using lt len by (simp add: less_iff_be_val)
  with ge suc have "be_val ?t = be_val p" by simp
  then have "?t = p" using lt by (simp add: eq_iff_be_val)
  then show "\<exists>s. k = p @ s" using split by metis
qed

subsection \<open>Ordered maps\<close>

text \<open>
  \<^verbatim>\<open>std::map\<close> is kept as the list of its entries in iteration order. \<open>om_insert\<close> is
  \<^verbatim>\<open>m[k] = v\<close>, \<open>om_find\<close> is \<^verbatim>\<open>m.find(k)\<close>, \<open>om_upper_bound\<close> the entries an iteration from
  \<^verbatim>\<open>m.upper_bound(k)\<close> visits, and \<open>om_range\<close> the entries with keys in \<open>[lo, hi)\<close>.
\<close>

type_synonym ('k, 'v) omap = "('k \<times> 'v) list"

fun om_insert :: "'k::linorder \<Rightarrow> 'v \<Rightarrow> ('k, 'v) omap \<Rightarrow> ('k, 'v) omap" where
  "om_insert k v [] = [(k, v)]"
| "om_insert k v ((k', v') # m) =
     (if k < k' then (k, v) # (k', v') # m
      else if k = k' then (k, v) # m
      else (k', v') # om_insert k v m)"

fun om_erase :: "'k::linorder \<Rightarrow> ('k, 'v) omap \<Rightarrow> ('k, 'v) omap" where
  "om_erase k [] = []"
| "om_erase k ((k', v') # m) = (if k = k' then m else (k', v') # om_erase k m)"

definition om_find :: "('k, 'v) omap \<Rightarrow> 'k \<rightharpoonup> 'v" where
  "om_find m k = map_of m k"

definition om_upper_bound :: "'k::linorder \<Rightarrow> ('k, 'v) omap \<Rightarrow> ('k, 'v) omap" where
  "om_upper_bound k m = filter (\<lambda>e. k < fst e) m"

definition om_range :: "'k::linorder \<Rightarrow> 'k \<Rightarrow> ('k, 'v) omap \<Rightarrow> ('k, 'v) omap" where
  "om_range lo hi m = filter (\<lambda>e. lo \<le> fst e \<and> fst e < hi) m"

definition om_ok :: "('k::linorder, 'v) omap \<Rightarrow> bool" where
  "om_ok m \<longleftrightarrow> sorted_wrt (<) (map fst m)"

lemma om_ok_Nil [simp]: "om_ok []"
  by (simp add: om_ok_def)

lemma om_ok_Cons: "om_ok ((k, v) # m) \<longleftrightarrow> (\<forall>k' \<in> fst ` set m. k < k') \<and> om_ok m"
  by (simp add: om_ok_def)

lemma fst_set_om_insert: "fst ` set (om_insert k v m) = insert k (fst ` set m)"
  by (induction k v m rule: om_insert.induct) auto

lemma fst_set_om_erase: "om_ok m \<Longrightarrow> fst ` set (om_erase k m) = fst ` set m - {k}"
  by (induction k m rule: om_erase.induct) (auto simp: om_ok_Cons)

lemma om_ok_insert [simp]: "om_ok m \<Longrightarrow> om_ok (om_insert k v m)"
  by (induction k v m rule: om_insert.induct) (auto simp: om_ok_Cons fst_set_om_insert)

lemma om_ok_erase [simp]: "om_ok m \<Longrightarrow> om_ok (om_erase k m)"
  by (induction k m rule: om_erase.induct) (auto simp: om_ok_Cons fst_set_om_erase)

lemma om_ok_filter [simp]: "om_ok m \<Longrightarrow> om_ok (filter P m)"
  by (induction m) (auto simp: om_ok_Cons)

lemma om_ok_distinct: "om_ok m \<Longrightarrow> distinct (map fst m)"
  by (simp add: om_ok_def strict_sorted_iff)

lemma om_find_none: "k \<notin> fst ` set m \<longleftrightarrow> om_find m k = None"
  by (simp add: om_find_def map_of_eq_None_iff)

lemma om_find_insert [om_simps]: "om_find (om_insert k v m) = (om_find m)(k \<mapsto> v)"
  by (induction k v m rule: om_insert.induct) (auto simp: om_find_def fun_eq_iff)

lemma om_find_erase [om_simps]:
  assumes "om_ok m"
  shows "om_find (om_erase k m) = (om_find m)(k := None)"
  using assms
proof (induction k m rule: om_erase.induct)
  case (2 k k' v' m)
  have "k = k' \<Longrightarrow> map_of m k = None"
    using "2.prems" by (auto simp: om_ok_Cons map_of_eq_None_iff)
  with 2 show ?case
    by (auto simp: om_ok_Cons om_find_def fun_eq_iff)
qed (simp add: om_find_def fun_eq_iff)

lemma om_find_mem: "om_ok m \<Longrightarrow> om_find m k = Some v \<longleftrightarrow> (k, v) \<in> set m"
  by (simp add: om_find_def om_ok_distinct)

text \<open>
  The contract of an ordered map. Both the raw container above and the storage built on it
  meet it, so the lemmas on sequences of updates are proved once.
\<close>

locale kv_map =
  fixes find :: "'m \<Rightarrow> 'k \<rightharpoonup> 'v"
    and insert_kv :: "'k \<Rightarrow> 'v \<Rightarrow> 'm \<Rightarrow> 'm"
    and erase_k :: "'k \<Rightarrow> 'm \<Rightarrow> 'm"
    and invar :: "'m \<Rightarrow> bool"
  assumes find_insert: "invar m \<Longrightarrow> find (insert_kv k v m) = (find m)(k \<mapsto> v)"
    and find_erase: "invar m \<Longrightarrow> find (erase_k k m) = (find m)(k := None)"
    and invar_insert: "invar m \<Longrightarrow> invar (insert_kv k v m)"
    and invar_erase: "invar m \<Longrightarrow> invar (erase_k k m)"
begin

lemma invar_erase_all: "invar m \<Longrightarrow> invar (fold erase_k ks m)"
  by (induction ks arbitrary: m) (simp_all add: invar_erase)

lemma find_erase_all:
  "invar m \<Longrightarrow> find (fold erase_k ks m) = (find m) |` (- set ks)"
proof (induction ks arbitrary: m)
  case (Cons k ks)
  then show ?case
    by (auto simp: find_erase invar_erase restrict_map_def fun_eq_iff)
qed (simp add: restrict_map_def fun_eq_iff)

lemma invar_insert_all: "invar m \<Longrightarrow> invar (fold (\<lambda>(k, v). insert_kv k v) kvs m)"
  by (induction kvs arbitrary: m) (auto simp: invar_insert)

lemma find_insert_all:
  "invar m \<Longrightarrow> find (fold (\<lambda>(k, v). insert_kv k v) kvs m) = find m ++ map_of (rev kvs)"
proof (induction kvs arbitrary: m)
  case (Cons kv kvs)
  then show ?case
    by (cases kv) (simp add: find_insert invar_insert map_add_def fun_eq_iff split: option.splits)
qed simp

end

interpretation om: kv_map om_find om_insert om_erase om_ok
  by unfold_locales (simp_all add: om_find_insert om_find_erase)

subsection \<open>Range scans\<close>

text \<open>
  The entries of a finite map with keys in \<open>[lo, hi)\<close>, in key order. Scans of the store are
  specified by it, and the container's \<open>om_range\<close> computes it.
\<close>

definition range_list :: "('k::linorder \<rightharpoonup> 'v) \<Rightarrow> 'k \<Rightarrow> 'k \<Rightarrow> ('k \<times> 'v) list" where
  "range_list f lo hi =
     map (\<lambda>k. (k, the (f k))) (sorted_list_of_set {k \<in> dom f. lo \<le> k \<and> k < hi})"

lemma dom_om_find: "dom (om_find m) = fst ` set m"
  unfolding om_find_def [abs_def] by (rule dom_map_of_conv_image_fst)

lemma om_range_range_list:
  assumes "om_ok m"
  shows "om_range lo hi m = range_list (om_find m) lo hi"
proof -
  let ?r = "om_range lo hi m"
  have srt: "sorted_wrt (<) (map fst ?r)"
    using om_ok_filter [OF assms] by (simp add: om_range_def om_ok_def)
  have "set (map fst ?r) = {k \<in> dom (om_find m). lo \<le> k \<and> k < hi}"
    by (auto simp: dom_om_find om_range_def)
  then have keys: "map fst ?r = sorted_list_of_set {k \<in> dom (om_find m). lo \<le> k \<and> k < hi}"
    using srt by (metis sorted_list_of_set.idem_if_sorted_distinct strict_sorted_iff)
  have "snd e = the (om_find m (fst e))" if "e \<in> set ?r" for e
    using that om_find_mem [OF assms, of "fst e" "snd e"] by (auto simp: om_range_def)
  then have "map (\<lambda>k. (k, the (om_find m k))) (map fst ?r) = ?r"
    by (auto simp: map_idI prod_eq_iff intro!: map_idI)
  then show ?thesis by (simp add: range_list_def keys)
qed

lemma set_range_list:
  "finite (dom f) \<Longrightarrow> set (range_list f lo hi) = {(k, v). f k = Some v \<and> lo \<le> k \<and> k < hi}"
  by (auto simp: range_list_def image_iff)

lemma sorted_range_list: "sorted_wrt (<) (map fst (range_list f lo hi))"
  by (simp add: range_list_def comp_def)

lemma length_range_list:
  "length (range_list f lo hi) = card {k \<in> dom f. lo \<le> k \<and> k < hi}"
  by (simp add: range_list_def)

end
