(* ===== verification/Serial.thy ===== *)
theory Serial
  imports Prelude
begin

text \<open>
  \<^verbatim>\<open>mdsv2/common/serial_helper.cc\<close>: the fixed-width integer encodings that every key of the
  metadata store is built from. Signed and unsigned integers of one width are the same
  words; the signed readings use \<open>sint\<close> and the signed order. The flag of each writer is the
  result of \<^verbatim>\<open>SerialHelper::IsLE()\<close> on the host.

  The locale \<open>fixed_width_codec\<close> states what the key codec relies on (fixed length, the
  reader inverts the writer, byte order is integer order) and derives how such fields behave
  inside longer keys; it is interpreted by \<^verbatim>\<open>WriteInt\<close>, \<^verbatim>\<open>WriteLong\<close>, \<^verbatim>\<open>WriteULong\<close> and
  \<^verbatim>\<open>WriteLongComparable\<close>.
\<close>

subsection \<open>The writers and readers\<close>

definition WriteInt :: "bool \<Rightarrow> u32 \<Rightarrow> bytes" where
  "WriteInt is_le value =
     (if is_le then map (\<lambda>k. ucast (drop_bit k value)) [24, 16, 8, 0]
      else map (\<lambda>k. ucast (drop_bit k value)) [0, 8, 16, 24])"

text \<open>The unrolled loop \<^verbatim>\<open>l <<= 8; l |= (value.at(i) & 0xFF)\<close> of the readers.\<close>

definition read_step :: "u64 \<Rightarrow> byte \<Rightarrow> u64" where
  "read_step l b = push_bit 8 l OR (ucast b AND 0xFF)"

definition ReadInt :: "bytes \<Rightarrow> u32 option" where
  "ReadInt value = do {
     CHECK (length value \<ge> 4);
     Some (ucast (foldl read_step 0 (take 4 value)))
   }"

definition WriteLong :: "bool \<Rightarrow> u64 \<Rightarrow> bytes" where
  "WriteLong is_le value =
     (if is_le then map (\<lambda>k. ucast (drop_bit k value)) [56, 48, 40, 32, 24, 16, 8, 0]
      else map (\<lambda>k. ucast (drop_bit k value)) [0, 8, 16, 24, 32, 40, 48, 56])"

definition ReadLong :: "bytes \<Rightarrow> u64 option" where
  "ReadLong value = do {
     CHECK (length value \<ge> 8);
     Some (foldl read_step 0 (take 8 value))
   }"

definition WriteULong :: "bool \<Rightarrow> u64 \<Rightarrow> bytes" where
  "WriteULong is_le value =
     (if is_le then map (\<lambda>k. ucast (drop_bit k value)) [56, 48, 40, 32, 24, 16, 8, 0]
      else map (\<lambda>k. ucast (drop_bit k value)) [0, 8, 16, 24, 32, 40, 48, 56])"

definition ReadULong :: "bytes \<Rightarrow> u64 option" where
  "ReadULong value = do {
     CHECK (length value \<ge> 8);
     Some (foldl read_step 0 (take 8 value))
   }"

definition WriteLongWithNegation :: "bool \<Rightarrow> u64 \<Rightarrow> bytes option" where
  "WriteLongWithNegation is_le value = do {
     CHECK (0 \<le> sint value);
     let nvalue = NOT value;
     Some (if is_le then map (\<lambda>k. ucast (drop_bit k nvalue)) [56, 48, 40, 32, 24, 16, 8, 0]
           else map (\<lambda>k. ucast (drop_bit k nvalue)) [0, 8, 16, 24, 32, 40, 48, 56])
   }"

definition ReadLongWithNegation :: "bytes \<Rightarrow> u64 option" where
  "ReadLongWithNegation value = map_option NOT (ReadLong value)"

definition WriteLongComparable :: "bool \<Rightarrow> u64 \<Rightarrow> bytes" where
  "WriteLongComparable is_le data =
     (if is_le then ucast (drop_bit 56 data XOR 0x80)
        # map (\<lambda>k. ucast (drop_bit k data)) [48, 40, 32, 24, 16, 8, 0]
      else ucast (data XOR 0x80)
        # map (\<lambda>k. ucast (drop_bit k data)) [8, 16, 24, 32, 40, 48, 56])"

definition ReadLongComparable :: "bool \<Rightarrow> bytes \<Rightarrow> u64 option" where
  "ReadLongComparable is_le value = do {
     CHECK (length value \<ge> 8);
     let l = (ucast (value ! 0) AND 0xFF) XOR 0x80;
     Some (if is_le then foldl read_step l (take 7 (drop 1 value))
           else fold (\<lambda>i l. l OR push_bit (8 * i) (ucast (value ! i) AND 0xFF)) [1 ..< 8] l)
   }"

subsection \<open>Values of the written bytes\<close>

lemma read_step_add: "read_step l b = l * 256 + of_nat (unat b)"
proof -
  have "bit (ucast b AND 0xFF :: u64) n \<longleftrightarrow> bit (ucast b :: u64) n" for n
  proof (cases "n < 8")
    case True
    then have "bit (0xFF :: u64) n"
      by (auto simp: less_Suc_eq numeral_eq_Suc)
    then show ?thesis by (simp add: bit_simps)
  next
    case False
    then show ?thesis using bit_imp_le_length [of b n] by (auto simp: bit_simps)
  qed
  then have m: "(ucast b AND 0xFF :: u64) = ucast b"
    by (simp add: bit_eq_iff)
  have "push_bit 8 l AND (ucast b :: u64) = 0"
    using bit_imp_le_length [of b] by (intro bit_eqI) (fastforce simp: bit_simps)
  then have "push_bit 8 l OR (ucast b :: u64) = push_bit 8 l + ucast b"
    by (simp add: disjunctive_add_eq_or)
  then show ?thesis
    by (simp add: read_step_def m push_bit_eq_mult)
qed

lemma foldl_read_step: "foldl read_step l bs = l * 256 ^ length bs + of_nat (be_val bs)"
  by (induction bs arbitrary: l)
    (simp_all add: read_step_add algebra_simps power_Suc [symmetric] del: power_Suc)

lemma unat_byte_of: "unat (ucast (drop_bit k v) :: byte) = unat v div 2 ^ k mod 256"
  for v :: "'a::len word"
  by (simp only: unsigned_ucast_eq unat_drop_bit_eq take_bit_eq_mod) (simp add: drop_bit_eq_div)

lemma be_val_digits:
  fixes v :: "'a::len word"
  shows "be_val (map (\<lambda>i. ucast (drop_bit (8 * i) v)) (rev [0 ..< n])) = unat v mod 256 ^ n"
proof (induction n)
  case (Suc n)
  have "be_val (map (\<lambda>i. ucast (drop_bit (8 * i) v)) (rev [0 ..< Suc n]))
    = (unat v div 256 ^ n mod 256) * 256 ^ n + unat v mod 256 ^ n"
    using Suc.IH by (simp add: unat_byte_of power_mult)
  also have "\<dots> = unat v mod 256 ^ Suc n"
    by (metis mod_mult2_eq mult.commute power_Suc)
  finally show ?case .
qed simp

lemma be_val_WriteInt [simp]: "be_val (WriteInt True v) = unat v"
proof -
  have "WriteInt True v = map (\<lambda>i. ucast (drop_bit (8 * i) v)) (rev [0 ..< 4])"
    by (simp add: WriteInt_def upt_rec)
  then show ?thesis
    using be_val_digits [of v 4] unsigned_less [of v, where 'a = nat] by simp
qed

lemma be_val_WriteULong [simp]: "be_val (WriteULong True v) = unat v"
proof -
  have "WriteULong True v = map (\<lambda>i. ucast (drop_bit (8 * i) v)) (rev [0 ..< 8])"
    by (simp add: WriteULong_def upt_rec)
  then show ?thesis
    using be_val_digits [of v 8] unsigned_less [of v, where 'a = nat] by simp
qed

lemma WriteLong_eq_WriteULong: "WriteLong = WriteULong"
  by (simp add: WriteLong_def WriteULong_def fun_eq_iff)

lemma ReadLong_eq_ReadULong: "ReadLong = ReadULong"
  by (simp add: ReadLong_def ReadULong_def fun_eq_iff)

lemma length_WriteInt [simp]: "length (WriteInt le v) = 4"
  by (simp add: WriteInt_def)

lemma length_WriteULong [simp]: "length (WriteULong le v) = 8"
  by (simp add: WriteULong_def)

lemma ReadInt_val: "length s \<ge> 4 \<Longrightarrow> ReadInt s = Some (of_nat (be_val (take 4 s)))"
proof -
  assume "length s \<ge> 4"
  moreover have "(ucast (of_nat n :: u64) :: u32) = of_nat n" for n
    by (rule bit_eqI) (auto simp: bit_simps)
  ultimately show ?thesis
    by (simp add: ReadInt_def foldl_read_step)
qed

lemma ReadULong_val: "length s \<ge> 8 \<Longrightarrow> ReadULong s = Some (of_nat (be_val (take 8 s)))"
  by (simp add: ReadULong_def foldl_read_step)

lemma numeral_eq_zero_byte:
  "(32768 :: byte) = 0" "(8388608 :: byte) = 0" "(2147483648 :: byte) = 0"
  "(549755813888 :: byte) = 0" "(140737488355328 :: byte) = 0" "(36028797018963968 :: byte) = 0"
  "(9223372036854775808 :: byte) = 0"
  by simp_all

lemma be_val_WriteLongComparable: 
  "be_val (WriteLongComparable True v) = unat (v XOR 0x8000000000000000)"
proof -
  have "WriteLongComparable True v = WriteULong True (v XOR 0x8000000000000000)"
    unfolding WriteLongComparable_def WriteULong_def
    by (simp add: unsigned_xor_eq)
      (simp add: numeral_eq_zero_byte)
  then show ?thesis by simp
qed

lemma length_WriteLongComparable [simp]: "length (WriteLongComparable le v) = 8"
  by (simp add: WriteLongComparable_def)

lemma flip_top_bit: "v XOR 0x8000000000000000 = v + (0x8000000000000000 :: u64)"
proof -
  define t :: u64 where "t = 2 ^ 63"
  have bt: "bit t n \<longleftrightarrow> n = 63" for n
    unfolding t_def by (simp only: bit_simps) auto
  have "v XOR t = v + t"
  proof (cases "bit v 63")
    case False
    then have "v AND t = 0" by (intro bit_eqI) (auto simp: bit_simps bt)
    then show ?thesis using disjunctive_add_eq_xor [of v t] by simp
  next
    case True
    let ?u = "v XOR t"
    have "?u AND t = 0" using True by (intro bit_eqI) (auto simp: bit_simps bt)
    then have "?u + t = v" using disjunctive_add_eq_xor [of ?u t] by (simp add: xor.assoc)
    then have "v + t = ?u + (t + t)" by (metis add.assoc)
    moreover have "t + t = 0" by (simp add: t_def)
    ultimately show ?thesis by (metis add_0_right)
  qed
  then show ?thesis by (simp add: t_def)
qed

lemma sless_iff_flip: "v <s w \<longleftrightarrow> v XOR 0x8000000000000000 < w XOR (0x8000000000000000 :: u64)"
proof -
  have "sint x = uint (x XOR 0x8000000000000000) - 0x8000000000000000" for x :: u64
  proof -
    have "sint x = signed_take_bit 63 (uint x)"
      by (simp add: signed_take_bit_eq_take_bit_shift sint_uint)
    also have "\<dots> = take_bit 64 (uint x + 2 ^ 63) - 2 ^ 63"
      by (simp add: signed_take_bit_eq_take_bit_shift)
    also have "take_bit 64 (uint x + 2 ^ 63) = uint (x + 0x8000000000000000)"
      by (simp add: uint_word_ariths take_bit_eq_mod)
    finally show ?thesis by (simp add: flip_top_bit)
  qed
  then show ?thesis by (simp add: word_sless_alt word_less_def)
qed

subsection \<open>The contract of a fixed-width field\<close>

locale fixed_width_codec =
  fixes enc :: "'w \<Rightarrow> bytes"
    and dec :: "bytes \<Rightarrow> 'w option"
    and less_w :: "'w \<Rightarrow> 'w \<Rightarrow> bool"
    and width :: nat
  assumes enc_length: "length (enc v) = width"
    and dec_enc: "dec (enc v @ rest) = Some v"
    and enc_less: "enc v < enc w \<longleftrightarrow> less_w v w"
begin

lemma enc_eq_iff: "enc v = enc w \<longleftrightarrow> v = w"
  by (metis dec_enc option.inject)

lemma enc_append_eq_iff: "enc v @ r = enc w @ s \<longleftrightarrow> v = w \<and> r = s"
  using enc_length by (simp add: enc_eq_iff)

lemma enc_append_less_iff: "enc v @ r < enc w @ s \<longleftrightarrow> less_w v w \<or> v = w \<and> r < s"
  using enc_length by (simp add: less_append_same_length enc_less enc_eq_iff)

end

interpretation int_codec: fixed_width_codec "WriteInt True" ReadInt "(<)" 4
  by unfold_locales (simp_all add: ReadInt_val less_iff_be_val word_less_nat_alt)

interpretation ulong_codec: fixed_width_codec "WriteULong True" ReadULong "(<)" 8
  by unfold_locales (simp_all add: ReadULong_val less_iff_be_val word_less_nat_alt)

interpretation long_codec: fixed_width_codec "WriteLong True" ReadLong "(<)" 8
  unfolding WriteLong_eq_WriteULong ReadLong_eq_ReadULong by unfold_locales

lemma ReadLongComparable_Write:
  "ReadLongComparable True (WriteLongComparable True v @ rest) = Some v"
proof -
  define c :: byte where "c = ucast (drop_bit 56 v)"
  define bs :: bytes where "bs = map (\<lambda>k. ucast (drop_bit k v)) [48, 40, 32, 24, 16, 8, 0]"
  have u: "WriteULong True v = c # bs" by (simp add: WriteULong_def c_def bs_def)
  have w: "WriteLongComparable True v = (c XOR 0x80) # bs"
    by (simp add: WriteLongComparable_def c_def bs_def unsigned_xor_eq)
  have len: "length bs = 7" by (simp add: bs_def)
  have "(ucast (c XOR 0x80) AND 0xFF) XOR 0x80 = read_step 0 c"
    by (simp add: read_step_def unsigned_xor_eq bit.conj_xor_distrib2 xor.assoc)
  moreover have "foldl read_step 0 (c # bs) = v"
    using ulong_codec.dec_enc [of v "[]"] by (simp add: ReadULong_def u len)
  ultimately show ?thesis
    by (simp add: ReadLongComparable_def w len)
qed

interpretation cmp_codec:
  fixed_width_codec "WriteLongComparable True" "ReadLongComparable True" "word_sless" 8
  by unfold_locales
    (simp_all add: ReadLongComparable_Write less_iff_be_val be_val_WriteLongComparable
      sless_iff_flip word_less_nat_alt)

end
