(* ===== verification/Storage.thy ===== *)
theory Storage
  imports Prelude
begin

text \<open>
  \<^verbatim>\<open>mdsv2/storage\<close>: the key-value store behind the service. The abstract classes \<^verbatim>\<open>Txn\<close> and
  \<^verbatim>\<open>KVStorage\<close> become a record of operations over a state; \<^verbatim>\<open>DummyStorage\<close> is modelled in
  full, and \<^verbatim>\<open>DingodbStorage\<close>/\<^verbatim>\<open>DingodbTxn\<close> over the DingoDB SDK, which is a record of
  functions (its code is not part of the repository). \<open>None\<close> is a failed \<^verbatim>\<open>CHECK\<close>.

  The locale \<open>kv_txn\<close> is what the store operations rely on: reads see the earlier writes of
  the same transaction. It is interpreted by \<^verbatim>\<open>DummyTxn\<close>, and \<open>kv_scan_txn\<close>, which adds range
  scans, by \<^verbatim>\<open>DingodbTxn\<close> for every SDK that keeps the contract \<open>sdk_contract\<close>.
\<close>

subsection \<open>Status, key values and ranges\<close>

text \<open>The error numbers of \<^verbatim>\<open>pb::error\<close> the service uses; messages are left out.\<close>

datatype Status =
    OK | ENOT_FOUND | EEXISTED | ENOT_EMPTY | EBACKEND_STORE | ESTORE_MAYBE_RETRY
  | EILLEGAL_PARAMTETER | EQUOTA_EXCEED | EQUOTA_ILLEGAL | EGEN_FSID | ENOT_SERVE | EINTERNAL
  | ENOT_FILE | ENOT_SUPPORT | EROUTER_EPOCH_CHANGE | ECOORDINATOR | EREQUEST_FULL
  | EOTHER int

abbreviation ok :: "Status \<Rightarrow> bool" where
  "ok s \<equiv> s = OK"

datatype OpType = kPut | kDelete

record 'v KeyValue =
  opt_type :: OpType
  kv_key :: bytes
  kv_value :: 'v

record Range =
  start_key :: bytes
  end_key :: bytes

record WriteOption =
  is_if_absent :: bool

abbreviation kv_pair :: "'v KeyValue \<Rightarrow> bytes \<times> 'v" where
  "kv_pair kv \<equiv> (kv_key kv, kv_value kv)"

definition put_kv :: "bytes \<Rightarrow> 'v \<Rightarrow> 'v KeyValue" where
  "put_kv k v = \<lparr>opt_type = kPut, kv_key = k, kv_value = v\<rparr>"

subsection \<open>The transaction interface\<close>

text \<open>
  \<^verbatim>\<open>class Txn\<close>: the virtual methods as functions of the transaction's state. A read returns
  \<open>Inl\<close> of its status when it fails.
\<close>

record ('t, 'v) Txn =
  Put :: "bytes \<Rightarrow> 'v \<Rightarrow> 't \<Rightarrow> (Status \<times> 't) option"
  PutIfAbsent :: "bytes \<Rightarrow> 'v \<Rightarrow> 't \<Rightarrow> (Status \<times> 't) option"
  Delete :: "bytes \<Rightarrow> 't \<Rightarrow> (Status \<times> 't) option"
  Get :: "bytes \<Rightarrow> 't \<Rightarrow> Status + 'v"
  BatchGet :: "bytes list \<Rightarrow> 't \<Rightarrow> Status + 'v KeyValue list"
  Scan :: "Range \<Rightarrow> u64 \<Rightarrow> 't \<Rightarrow> Status + 'v KeyValue list"
  Commit :: "'t \<Rightarrow> Status \<times> 't"

subsection \<open>DummyStorage\<close>

record Table =
  table_name :: bytes
  table_start_key :: bytes
  table_end_key :: bytes

record 'v DummyStorage =
  next_table_id :: int
  ds_tables :: "(int, Table) omap"
  ds_data :: "(bytes, 'v) omap"

record TableOption =
  opt_start_key :: bytes
  opt_end_key :: bytes

definition DummyStorage_CreateTable ::
    "bytes \<Rightarrow> TableOption \<Rightarrow> 'v DummyStorage \<Rightarrow> Status \<times> int \<times> 'v DummyStorage" where
  "DummyStorage_CreateTable name option s =
     (let i = next_table_id s + 1;
          t = \<lparr>table_name = name, table_start_key = opt_start_key option,
               table_end_key = opt_end_key option\<rparr>
      in (OK, i, s\<lparr>next_table_id := i, ds_tables := om_insert i t (ds_tables s)\<rparr>))"

definition DummyStorage_DropTable :: "int \<Rightarrow> 'v DummyStorage \<Rightarrow> Status \<times> 'v DummyStorage" where
  "DummyStorage_DropTable table_id s = (OK, s\<lparr>ds_tables := om_erase table_id (ds_tables s)\<rparr>)"

definition DummyStorage_IsExistTable :: "bytes \<Rightarrow> bytes \<Rightarrow> 'v DummyStorage \<Rightarrow> Status" where
  "DummyStorage_IsExistTable start_k end_k s =
     (if list_ex (\<lambda>(table_id, table).
           table_start_key table = start_k \<and> table_end_key table = end_k) (ds_tables s)
      then OK else ENOT_FOUND)"

definition DummyStorage_Put ::
    "WriteOption \<Rightarrow> bytes \<Rightarrow> 'v \<Rightarrow> 'v DummyStorage \<Rightarrow> Status \<times> 'v DummyStorage" where
  "DummyStorage_Put option k v s =
     (if is_if_absent option \<and> om_find (ds_data s) k \<noteq> None then (EEXISTED, s)
      else (OK, s\<lparr>ds_data := om_insert k v (ds_data s)\<rparr>))"

fun apply_kv :: "'v KeyValue \<Rightarrow> (bytes, 'v) omap \<Rightarrow> (bytes, 'v) omap" where
  "apply_kv kv d =
     (case opt_type kv of
        kDelete \<Rightarrow> om_erase (kv_key kv) d
      | kPut \<Rightarrow> om_insert (kv_key kv) (kv_value kv) d)"

definition DummyStorage_Put_kv ::
    "WriteOption \<Rightarrow> 'v KeyValue \<Rightarrow> 'v DummyStorage \<Rightarrow> Status \<times> 'v DummyStorage" where
  "DummyStorage_Put_kv option kv s =
     (if is_if_absent option \<and> om_find (ds_data s) (kv_key kv) \<noteq> None then (EEXISTED, s)
      else (OK, s\<lparr>ds_data := apply_kv kv (ds_data s)\<rparr>))"

definition DummyStorage_Put_kvs ::
    "WriteOption \<Rightarrow> 'v KeyValue list \<Rightarrow> 'v DummyStorage \<Rightarrow> Status \<times> 'v DummyStorage" where
  "DummyStorage_Put_kvs option kvs s =
     (if is_if_absent option \<and> list_ex (\<lambda>kv. om_find (ds_data s) (kv_key kv) \<noteq> None) kvs
      then (EEXISTED, s)
      else (OK, s\<lparr>ds_data := fold apply_kv kvs (ds_data s)\<rparr>))"

definition DummyStorage_Get :: "bytes \<Rightarrow> 'v DummyStorage \<Rightarrow> Status + 'v" where
  "DummyStorage_Get k s =
     (case om_find (ds_data s) k of None \<Rightarrow> Inl ENOT_FOUND | Some v \<Rightarrow> Inr v)"

definition DummyStorage_BatchGet ::
    "bytes list \<Rightarrow> 'v DummyStorage \<Rightarrow> Status + 'v KeyValue list" where
  "DummyStorage_BatchGet keys s =
     Inr (List.map_filter (\<lambda>k. map_option (put_kv k) (om_find (ds_data s) k)) keys)"

definition DummyStorage_Scan :: "Range \<Rightarrow> 'v DummyStorage \<Rightarrow> Status + 'v KeyValue list" where
  "DummyStorage_Scan rg s = Inr []"

definition DummyStorage_Delete :: "bytes \<Rightarrow> 'v DummyStorage \<Rightarrow> Status \<times> 'v DummyStorage" where
  "DummyStorage_Delete k s = (OK, s\<lparr>ds_data := om_erase k (ds_data s)\<rparr>)"

definition DummyStorage_Delete_keys ::
    "bytes list \<Rightarrow> 'v DummyStorage \<Rightarrow> Status \<times> 'v DummyStorage" where
  "DummyStorage_Delete_keys keys s = (OK, s\<lparr>ds_data := fold om_erase keys (ds_data s)\<rparr>)"

text \<open>\<^verbatim>\<open>DummyTxn\<close> forwards to the storage it points to; \<^verbatim>\<open>Commit\<close> does nothing.\<close>

definition DummyTxn :: "('v DummyStorage, 'v) Txn" where
  "DummyTxn =
     \<lparr>Put = (\<lambda>k v s. Some (DummyStorage_Put \<lparr>is_if_absent = False\<rparr> k v s)),
      PutIfAbsent = (\<lambda>k v s. Some (DummyStorage_Put \<lparr>is_if_absent = True\<rparr> k v s)),
      Delete = (\<lambda>k s. Some (DummyStorage_Delete k s)),
      Get = DummyStorage_Get,
      BatchGet = DummyStorage_BatchGet,
      Scan = (\<lambda>rg limit s. DummyStorage_Scan rg s),
      Commit = (\<lambda>s. (OK, s))\<rparr>"

subsection \<open>DingodbStorage and DingodbTxn\<close>

text \<open>What the code observes of an SDK status; \<open>Errno\<close> is the status with its number.\<close>

record SdkStatus =
  sdk_ok :: bool
  IsNotFound :: bool
  IsTxnWriteConflict :: bool
  Errno :: Status

text \<open>
  The SDK client with its open transaction: \<open>'c\<close> is its state. The creation of a
  transaction, region creation and region scans are the client's, the others the
  transaction's.
\<close>

record ('c, 'v) Sdk =
  NewTransaction :: "'c \<Rightarrow> SdkStatus \<times> 'c"
  sdk_Put :: "bytes \<Rightarrow> 'v \<Rightarrow> 'c \<Rightarrow> SdkStatus \<times> 'c"
  sdk_PutIfAbsent :: "bytes \<Rightarrow> 'v \<Rightarrow> 'c \<Rightarrow> SdkStatus \<times> 'c"
  sdk_Delete :: "bytes \<Rightarrow> 'c \<Rightarrow> SdkStatus \<times> 'c"
  sdk_Get :: "bytes \<Rightarrow> 'c \<Rightarrow> SdkStatus + 'v"
  sdk_BatchGet :: "bytes list \<Rightarrow> 'c \<Rightarrow> SdkStatus + (bytes \<times> 'v) list"
  sdk_Scan :: "bytes \<Rightarrow> bytes \<Rightarrow> u64 \<Rightarrow> 'c \<Rightarrow> SdkStatus + (bytes \<times> 'v) list"
  sdk_PreCommit :: "'c \<Rightarrow> SdkStatus \<times> 'c"
  sdk_Commit :: "'c \<Rightarrow> SdkStatus \<times> 'c"
  sdk_Rollback :: "'c \<Rightarrow> SdkStatus \<times> 'c"

definition FLAGS_dingodb_scan_batch_size :: u64 where
  "FLAGS_dingodb_scan_batch_size = 100000"

definition KvPairsToKeyValues :: "(bytes \<times> 'v) list \<Rightarrow> 'v KeyValue list" where
  "KvPairsToKeyValues kv_pairs = map (\<lambda>(k, v). put_kv k v) kv_pairs"

definition NewSdkTxn :: "('c, 'v) Sdk \<Rightarrow> 'c \<Rightarrow> 'c option" where
  "NewSdkTxn sdk c =
     (let (status, c) = NewTransaction sdk c in do { CHECK (sdk_ok status); Some c })"

text \<open>The common end of every direct operation: \<^verbatim>\<open>PreCommit\<close>, then \<^verbatim>\<open>Commit\<close>.\<close>

definition commit_direct :: "('c, 'v) Sdk \<Rightarrow> 'c \<Rightarrow> Status \<times> 'c" where
  "commit_direct sdk c =
     (let (status, c) = sdk_PreCommit sdk c in
      if \<not> sdk_ok status then (EBACKEND_STORE, c)
      else let (status, c) = sdk_Commit sdk c in
           if \<not> sdk_ok status then (EBACKEND_STORE, c) else (OK, c))"

definition sdk_put_opt ::
    "('c, 'v) Sdk \<Rightarrow> WriteOption \<Rightarrow> bytes \<Rightarrow> 'v \<Rightarrow> 'c \<Rightarrow> SdkStatus \<times> 'c" where
  "sdk_put_opt sdk option k v c =
     (if is_if_absent option then sdk_PutIfAbsent sdk k v c else sdk_Put sdk k v c)"

definition DingodbStorage_Put ::
    "('c, 'v) Sdk \<Rightarrow> WriteOption \<Rightarrow> bytes \<Rightarrow> 'v \<Rightarrow> 'c \<Rightarrow> (Status \<times> 'c) option" where
  "DingodbStorage_Put sdk option k v c = do {
     c \<leftarrow> NewSdkTxn sdk c;
     let (status, c) = sdk_put_opt sdk option k v c;
     Some (if \<not> sdk_ok status then (EBACKEND_STORE, c) else commit_direct sdk c)
   }"

definition sdk_apply_kv ::
    "('c, 'v) Sdk \<Rightarrow> WriteOption \<Rightarrow> 'v KeyValue \<Rightarrow> 'c \<Rightarrow> SdkStatus \<times> 'c" where
  "sdk_apply_kv sdk option kv c =
     (case opt_type kv of
        kPut \<Rightarrow> sdk_put_opt sdk option (kv_key kv) (kv_value kv) c
      | kDelete \<Rightarrow> sdk_Delete sdk (kv_key kv) c)"

definition DingodbStorage_Put_kv ::
    "('c, 'v) Sdk \<Rightarrow> WriteOption \<Rightarrow> 'v KeyValue \<Rightarrow> 'c \<Rightarrow> (Status \<times> 'c) option" where
  "DingodbStorage_Put_kv sdk option kv c = do {
     c \<leftarrow> NewSdkTxn sdk c;
     let (status, c) = sdk_apply_kv sdk option kv c;
     Some (if \<not> sdk_ok status then (EBACKEND_STORE, c) else commit_direct sdk c)
   }"

fun sdk_each :: "('x \<Rightarrow> 'c \<Rightarrow> SdkStatus \<times> 'c) \<Rightarrow> 'x list \<Rightarrow> 'c \<Rightarrow> Status \<times> 'c" where
  "sdk_each f [] c = (OK, c)"
| "sdk_each f (x # xs) c =
     (let (status, c) = f x c in
      if \<not> sdk_ok status then (EBACKEND_STORE, c) else sdk_each f xs c)"

definition DingodbStorage_Put_kvs ::
    "('c, 'v) Sdk \<Rightarrow> WriteOption \<Rightarrow> 'v KeyValue list \<Rightarrow> 'c \<Rightarrow> (Status \<times> 'c) option" where
  "DingodbStorage_Put_kvs sdk option kvs c = do {
     c \<leftarrow> NewSdkTxn sdk c;
     let (status, c) = sdk_each (sdk_apply_kv sdk option) kvs c;
     Some (if \<not> ok status then (status, c) else commit_direct sdk c)
   }"

definition read_error :: "SdkStatus \<Rightarrow> Status" where
  "read_error status = (if IsNotFound status then ENOT_FOUND else EBACKEND_STORE)"

definition DingodbStorage_Get ::
    "('c, 'v) Sdk \<Rightarrow> bytes \<Rightarrow> 'c \<Rightarrow> ((Status + 'v) \<times> 'c) option" where
  "DingodbStorage_Get sdk k c = do {
     c \<leftarrow> NewSdkTxn sdk c;
     Some (case sdk_Get sdk k c of
       Inl status \<Rightarrow> (Inl (read_error status), c)
     | Inr v \<Rightarrow> (let (status, c) = commit_direct sdk c in
                  (if ok status then Inr v else Inl status, c)))
   }"

definition DingodbStorage_BatchGet ::
    "('c, 'v) Sdk \<Rightarrow> bytes list \<Rightarrow> 'c \<Rightarrow> ((Status + 'v KeyValue list) \<times> 'c) option" where
  "DingodbStorage_BatchGet sdk keys c = do {
     c \<leftarrow> NewSdkTxn sdk c;
     Some (case sdk_BatchGet sdk keys c of
       Inl status \<Rightarrow> (Inl (read_error status), c)
     | Inr kv_pairs \<Rightarrow> (let (status, c) = commit_direct sdk c in
                  (if ok status then Inr (KvPairsToKeyValues kv_pairs) else Inl status, c)))
   }"

definition DingodbStorage_Scan ::
    "('c, 'v) Sdk \<Rightarrow> Range \<Rightarrow> 'c \<Rightarrow> ((Status + 'v KeyValue list) \<times> 'c) option" where
  "DingodbStorage_Scan sdk rg c = do {
     c \<leftarrow> NewSdkTxn sdk c;
     Some (case sdk_Scan sdk (start_key rg) (end_key rg) FLAGS_dingodb_scan_batch_size c of
       Inl status \<Rightarrow> (Inl EBACKEND_STORE, c)
     | Inr kv_pairs \<Rightarrow> (let (status, c) = commit_direct sdk c in
                  (if ok status then Inr (KvPairsToKeyValues kv_pairs) else Inl status, c)))
   }"

definition DingodbStorage_Delete ::
    "('c, 'v) Sdk \<Rightarrow> bytes \<Rightarrow> 'c \<Rightarrow> (Status \<times> 'c) option" where
  "DingodbStorage_Delete sdk k c = do {
     c \<leftarrow> NewSdkTxn sdk c;
     let (status, c) = sdk_Delete sdk k c;
     Some (if \<not> sdk_ok status then (EBACKEND_STORE, c) else commit_direct sdk c)
   }"

definition DingodbStorage_Delete_keys ::
    "('c, 'v) Sdk \<Rightarrow> bytes list \<Rightarrow> 'c \<Rightarrow> (Status \<times> 'c) option" where
  "DingodbStorage_Delete_keys sdk keys c = do {
     c \<leftarrow> NewSdkTxn sdk c;
     let (status, c) = sdk_each (sdk_Delete sdk) keys c;
     Some (if \<not> ok status then (status, c) else commit_direct sdk c)
   }"

text \<open>A transaction object: the SDK's transaction and the conflict flag of its trace.\<close>

record 'c DingodbTxn =
  sdk_txn :: 'c
  is_conflict :: bool

definition DingodbTxn_write ::
    "('c \<Rightarrow> SdkStatus \<times> 'c) \<Rightarrow> 'c DingodbTxn \<Rightarrow> (Status \<times> 'c DingodbTxn) option" where
  "DingodbTxn_write f t =
     (let (status, c) = f (sdk_txn t) in do {
        CHECK (sdk_ok status);
        Some (OK, t\<lparr>sdk_txn := c\<rparr>)
      })"

definition DingodbTxn_Put ::
    "('c, 'v) Sdk \<Rightarrow> bytes \<Rightarrow> 'v \<Rightarrow> 'c DingodbTxn \<Rightarrow> (Status \<times> 'c DingodbTxn) option" where
  "DingodbTxn_Put sdk k v = DingodbTxn_write (sdk_Put sdk k v)"

definition DingodbTxn_PutIfAbsent ::
    "('c, 'v) Sdk \<Rightarrow> bytes \<Rightarrow> 'v \<Rightarrow> 'c DingodbTxn \<Rightarrow> (Status \<times> 'c DingodbTxn) option" where
  "DingodbTxn_PutIfAbsent sdk k v = DingodbTxn_write (sdk_PutIfAbsent sdk k v)"

definition DingodbTxn_Delete ::
    "('c, 'v) Sdk \<Rightarrow> bytes \<Rightarrow> 'c DingodbTxn \<Rightarrow> (Status \<times> 'c DingodbTxn) option" where
  "DingodbTxn_Delete sdk k = DingodbTxn_write (sdk_Delete sdk k)"

definition DingodbTxn_Get :: "('c, 'v) Sdk \<Rightarrow> bytes \<Rightarrow> 'c DingodbTxn \<Rightarrow> Status + 'v" where
  "DingodbTxn_Get sdk k t = map_sum read_error (\<lambda>v. v) (sdk_Get sdk k (sdk_txn t))"

definition DingodbTxn_BatchGet ::
    "('c, 'v) Sdk \<Rightarrow> bytes list \<Rightarrow> 'c DingodbTxn \<Rightarrow> Status + 'v KeyValue list" where
  "DingodbTxn_BatchGet sdk keys t =
     map_sum read_error KvPairsToKeyValues (sdk_BatchGet sdk keys (sdk_txn t))"

definition DingodbTxn_Scan ::
    "('c, 'v) Sdk \<Rightarrow> Range \<Rightarrow> u64 \<Rightarrow> 'c DingodbTxn \<Rightarrow> Status + 'v KeyValue list" where
  "DingodbTxn_Scan sdk rg limit t =
     map_sum (\<lambda>status. EBACKEND_STORE) KvPairsToKeyValues
       (sdk_Scan sdk (start_key rg) (end_key rg) limit (sdk_txn t))"

definition DingodbTxn_Rollback :: "('c, 'v) Sdk \<Rightarrow> 'c DingodbTxn \<Rightarrow> 'c DingodbTxn" where
  "DingodbTxn_Rollback sdk t = t\<lparr>sdk_txn := snd (sdk_Rollback sdk (sdk_txn t))\<rparr>"

definition DingodbTxn_Commit ::
    "('c, 'v) Sdk \<Rightarrow> 'c DingodbTxn \<Rightarrow> Status \<times> 'c DingodbTxn" where
  "DingodbTxn_Commit sdk t =
     (let (status, c) = sdk_PreCommit sdk (sdk_txn t); t = t\<lparr>sdk_txn := c\<rparr> in
      if \<not> sdk_ok status then
        let t = DingodbTxn_Rollback sdk t in
        if IsTxnWriteConflict status then (ESTORE_MAYBE_RETRY, t\<lparr>is_conflict := True\<rparr>)
        else (Errno status, t)
      else
        let (status, c) = sdk_Commit sdk (sdk_txn t); t = t\<lparr>sdk_txn := c\<rparr> in
        if \<not> sdk_ok status then
          let t = DingodbTxn_Rollback sdk t in
          if IsTxnWriteConflict status then (ESTORE_MAYBE_RETRY, t\<lparr>is_conflict := True\<rparr>)
          else (EBACKEND_STORE, t)
        else (OK, t))"

definition DingodbTxn :: "('c, 'v) Sdk \<Rightarrow> ('c DingodbTxn, 'v) Txn" where
  "DingodbTxn sdk =
     \<lparr>Put = DingodbTxn_Put sdk,
      PutIfAbsent = DingodbTxn_PutIfAbsent sdk,
      Delete = DingodbTxn_Delete sdk,
      Get = DingodbTxn_Get sdk,
      BatchGet = DingodbTxn_BatchGet sdk,
      Scan = DingodbTxn_Scan sdk,
      Commit = DingodbTxn_Commit sdk\<rparr>"

definition DingodbStorage_NewTxn :: "('c, 'v) Sdk \<Rightarrow> 'c \<Rightarrow> 'c DingodbTxn option" where
  "DingodbStorage_NewTxn sdk c = do {
     c \<leftarrow> NewSdkTxn sdk c;
     Some \<lparr>sdk_txn = c, is_conflict = False\<rparr>
   }"

subsection \<open>A reference SDK\<close>

text \<open>
  A concrete client with snapshot isolation, on which the SDK contract is checked: a new
  transaction copies the committed store, writes go to the copy, \<^verbatim>\<open>PreCommit\<close> reports a write
  conflict when another client has committed one.
\<close>

record 'v ref_client =
  committed :: "(bytes, 'v) omap"
  working :: "(bytes, 'v) omap"
  raced :: bool

definition sdk_success :: SdkStatus where
  "sdk_success = \<lparr>sdk_ok = True, IsNotFound = False, IsTxnWriteConflict = False, Errno = OK\<rparr>"

definition sdk_not_found :: SdkStatus where
  "sdk_not_found =
     \<lparr>sdk_ok = False, IsNotFound = True, IsTxnWriteConflict = False, Errno = EOTHER 1\<rparr>"

definition sdk_write_conflict :: SdkStatus where
  "sdk_write_conflict =
     \<lparr>sdk_ok = False, IsNotFound = False, IsTxnWriteConflict = True, Errno = EOTHER 2\<rparr>"

definition ref_sdk :: "('v ref_client, 'v) Sdk" where
  "ref_sdk =
     \<lparr>NewTransaction = (\<lambda>c. (sdk_success, c\<lparr>working := committed c\<rparr>)),
      sdk_Put = (\<lambda>k v c. (sdk_success, c\<lparr>working := om_insert k v (working c)\<rparr>)),
      sdk_PutIfAbsent = (\<lambda>k v c.
        if om_find (working c) k = None then (sdk_success, c\<lparr>working := om_insert k v (working c)\<rparr>)
        else (sdk_write_conflict, c)),
      sdk_Delete = (\<lambda>k c. (sdk_success, c\<lparr>working := om_erase k (working c)\<rparr>)),
      sdk_Get = (\<lambda>k c. case om_find (working c) k of
        None \<Rightarrow> Inl sdk_not_found | Some v \<Rightarrow> Inr v),
      sdk_BatchGet = (\<lambda>ks c. Inr (map kv_pair
        (List.map_filter (\<lambda>k. map_option (put_kv k) (om_find (working c) k)) ks))),
      sdk_Scan = (\<lambda>lo hi limit c. Inr (take (unat limit) (om_range lo hi (working c)))),
      sdk_PreCommit = (\<lambda>c. (if raced c then sdk_write_conflict else sdk_success, c)),
      sdk_Commit = (\<lambda>c. (sdk_success, c\<lparr>committed := working c\<rparr>)),
      sdk_Rollback = (\<lambda>c. (sdk_success, c\<lparr>working := committed c\<rparr>))\<rparr>"

subsection \<open>The contract of a transaction\<close>

text \<open>
  \<open>view t\<close> is the content of the store as the transaction sees it: the snapshot with its own
  writes. The operations of the service rely on these laws only.
\<close>

locale kv_txn =
  fixes T :: "('t, 'v) Txn"
    and view :: "'t \<Rightarrow> bytes \<rightharpoonup> 'v"
    and inv :: "'t \<Rightarrow> bool"
  assumes put_law: "inv t \<Longrightarrow>
      \<exists>t'. Put T k v t = Some (OK, t') \<and> inv t' \<and> view t' = (view t)(k \<mapsto> v)"
    and delete_law: "inv t \<Longrightarrow>
      \<exists>t'. Delete T k t = Some (OK, t') \<and> inv t' \<and> view t' = (view t)(k := None)"
    and get_law: "inv t \<Longrightarrow>
      Get T k t = (case view t k of None \<Rightarrow> Inl ENOT_FOUND | Some v \<Rightarrow> Inr v)"
    and batch_get_law: "inv t \<Longrightarrow> distinct ks \<Longrightarrow>
      \<exists>kvs. BatchGet T ks t = Inr kvs \<and> distinct (map kv_key kvs)
        \<and> map_of (map kv_pair kvs) = view t |` set ks"
    and finite_view: "inv t \<Longrightarrow> finite (dom (view t))"
begin

lemma put_cases:
  assumes "inv t"
  obtains t' where "Put T k v t = Some (OK, t')" "inv t'" "view t' = (view t)(k \<mapsto> v)"
  using put_law [OF assms] by blast

lemma delete_cases:
  assumes "inv t"
  obtains t' where "Delete T k t = Some (OK, t')" "inv t'" "view t' = (view t)(k := None)"
  using delete_law [OF assms] by blast

lemma get_Inr_iff: "inv t \<Longrightarrow> Get T k t = Inr v \<longleftrightarrow> view t k = Some v"
  by (simp add: get_law split: option.split)

lemma get_Inl_iff: "inv t \<Longrightarrow> Get T k t = Inl s \<longleftrightarrow> s = ENOT_FOUND \<and> view t k = None"
  by (auto simp: get_law split: option.split)

lemma batch_get_keys:
  assumes "inv t" and "distinct ks" and "BatchGet T ks t = Inr kvs"
  shows "set (map kv_key kvs) = {k \<in> set ks. view t k \<noteq> None}"
    and "length kvs = card {k \<in> set ks. view t k \<noteq> None}"
proof -
  obtain kvs' where kvs': "BatchGet T ks t = Inr kvs'" "distinct (map kv_key kvs')"
      "map_of (map kv_pair kvs') = view t |` set ks"
    using batch_get_law [OF assms(1,2)] by blast
  with assms(3) have [simp]: "kvs' = kvs" by simp
  have "dom (map_of (map kv_pair kvs)) = set (map kv_key kvs)"
    by (simp add: dom_map_of_conv_image_fst image_image)
  then show keys: "set (map kv_key kvs) = {k \<in> set ks. view t k \<noteq> None}"
    using kvs'(3) by (auto simp: restrict_map_def dom_def split: if_splits)
  show "length kvs = card {k \<in> set ks. view t k \<noteq> None}"
    using distinct_card [OF kvs'(2)] keys by (metis \<open>kvs' = kvs\<close> length_map)
qed

end

locale kv_scan_txn = kv_txn +
  assumes scan_law: "inv t \<Longrightarrow>
    Scan T r limit t = Inr (map (\<lambda>(k, v). put_kv k v)
      (take (unat limit) (range_list (view t) (start_key r) (end_key r))))"

subsection \<open>DummyTxn keeps the contract\<close>

lemma map_of_map_filter_find:
  "map_of (map kv_pair (List.map_filter (\<lambda>k. map_option (put_kv k) (f k)) ks)) = f |` set ks"
  by (induction ks)
    (auto simp: put_kv_def restrict_map_def fun_eq_iff split: option.splits)

lemma keys_map_filter_find:
  "map kv_key (List.map_filter (\<lambda>k. map_option (put_kv k) (f k)) ks)
   = filter (\<lambda>k. f k \<noteq> None) ks"
  by (induction ks) (auto simp: put_kv_def split: option.splits)

lemmas DummyStorage_defs =
  DummyTxn_def DummyStorage_Put_def DummyStorage_Delete_def DummyStorage_Get_def
  DummyStorage_BatchGet_def DummyStorage_Scan_def

interpretation dummy:
  kv_txn DummyTxn "\<lambda>s. om_find (ds_data s)" "\<lambda>s. om_ok (ds_data s)"
  by unfold_locales
    (auto simp: DummyStorage_defs om_find_insert om_find_erase map_of_map_filter_find
      keys_map_filter_find dom_om_find)

subsection \<open>DingodbTxn keeps the contract over the SDK\<close>

text \<open>What the documentation of the SDK promises of an open transaction.\<close>

locale sdk_contract =
  fixes sdk :: "('c, 'v) Sdk"
    and sview :: "'c \<Rightarrow> bytes \<rightharpoonup> 'v"
    and sinv :: "'c \<Rightarrow> bool"
  assumes sdk_put: "sinv c \<Longrightarrow>
      \<exists>st c'. sdk_Put sdk k v c = (st, c') \<and> sdk_ok st \<and> sinv c' \<and> sview c' = (sview c)(k \<mapsto> v)"
    and sdk_delete: "sinv c \<Longrightarrow>
      \<exists>st c'. sdk_Delete sdk k c = (st, c') \<and> sdk_ok st \<and> sinv c'
        \<and> sview c' = (sview c)(k := None)"
    and sdk_get_some: "sinv c \<Longrightarrow> sview c k = Some v \<Longrightarrow> sdk_Get sdk k c = Inr v"
    and sdk_get_none: "sinv c \<Longrightarrow> sview c k = None \<Longrightarrow>
      \<exists>st. sdk_Get sdk k c = Inl st \<and> IsNotFound st"
    and sdk_batch_get: "sinv c \<Longrightarrow> distinct ks \<Longrightarrow>
      \<exists>kvs. sdk_BatchGet sdk ks c = Inr kvs \<and> distinct (map fst kvs)
        \<and> map_of kvs = sview c |` set ks"
    and sdk_scan: "sinv c \<Longrightarrow>
      sdk_Scan sdk lo hi limit c = Inr (take (unat limit) (range_list (sview c) lo hi))"
    and sdk_finite: "sinv c \<Longrightarrow> finite (dom (sview c))"
begin

lemma write_law:
  assumes "\<exists>st c'. f (sdk_txn t) = (st, c') \<and> sdk_ok st \<and> sinv c' \<and> sview c' = m"
  shows "\<exists>t'. DingodbTxn_write f t = Some (OK, t') \<and> sinv (sdk_txn t') \<and> sview (sdk_txn t') = m"
  using assms by (auto simp: DingodbTxn_write_def)

end

lemma kv_pairs_conv [simp]:
  "map kv_pair (KvPairsToKeyValues kvs) = kvs"
  "map kv_key (KvPairsToKeyValues kvs) = map fst kvs"
  by (induction kvs) (auto simp: KvPairsToKeyValues_def put_kv_def)

sublocale sdk_contract \<subseteq>
  dingo: kv_scan_txn "DingodbTxn sdk" "\<lambda>t. sview (sdk_txn t)" "\<lambda>t. sinv (sdk_txn t)"
proof unfold_locales
  fix t :: "'c DingodbTxn" and k v
  assume i: "sinv (sdk_txn t)"
  show "\<exists>t'. Put (DingodbTxn sdk) k v t = Some (OK, t') \<and> sinv (sdk_txn t')
      \<and> sview (sdk_txn t') = (sview (sdk_txn t))(k \<mapsto> v)"
    using write_law [of "sdk_Put sdk k v" t] sdk_put [OF i] by (simp add: DingodbTxn_def DingodbTxn_Put_def)
  show "\<exists>t'. Delete (DingodbTxn sdk) k t = Some (OK, t') \<and> sinv (sdk_txn t')
      \<and> sview (sdk_txn t') = (sview (sdk_txn t))(k := None)"
    using write_law [of "sdk_Delete sdk k" t] sdk_delete [OF i] by (simp add: DingodbTxn_def DingodbTxn_Delete_def)
  show "Get (DingodbTxn sdk) k t
      = (case sview (sdk_txn t) k of None \<Rightarrow> Inl ENOT_FOUND | Some v \<Rightarrow> Inr v)"
    using sdk_get_some [OF i] sdk_get_none [OF i, of k]
    by (auto simp: DingodbTxn_def DingodbTxn_Get_def read_error_def split: option.split)
  show "finite (dom (sview (sdk_txn t)))"
    by (rule sdk_finite [OF i])
next
  fix t :: "'c DingodbTxn" and ks
  assume i: "sinv (sdk_txn t)" and d: "distinct (ks :: bytes list)"
  show "\<exists>kvs. BatchGet (DingodbTxn sdk) ks t = Inr kvs \<and> distinct (map kv_key kvs)
      \<and> map_of (map kv_pair kvs) = sview (sdk_txn t) |` set ks"
    using sdk_batch_get [OF i d] by (auto simp: DingodbTxn_def DingodbTxn_BatchGet_def)
next
  fix t :: "'c DingodbTxn" and r limit
  assume i: "sinv (sdk_txn t)"
  show "Scan (DingodbTxn sdk) r limit t = Inr (map (\<lambda>(k, v). put_kv k v)
      (take (unat limit) (range_list (sview (sdk_txn t)) (start_key r) (end_key r))))"
    by (simp add: DingodbTxn_def DingodbTxn_Scan_def sdk_scan [OF i] KvPairsToKeyValues_def)
qed

context sdk_contract
begin

lemma dingo_scan_txn:
  "kv_scan_txn (DingodbTxn sdk) (\<lambda>t. sview (sdk_txn t)) (\<lambda>t. sinv (sdk_txn t))"
  by unfold_locales

lemma dingo_txn: "kv_txn (DingodbTxn sdk) (\<lambda>t. sview (sdk_txn t)) (\<lambda>t. sinv (sdk_txn t))"
  by unfold_locales

end

lemma map_fst_kv_pair: "map fst (map kv_pair kvs) = map kv_key kvs"
  by simp

interpretation ref_client:
  sdk_contract ref_sdk "\<lambda>c. om_find (working c)" "\<lambda>c. om_ok (working c)"
  by unfold_locales
    (auto simp: ref_sdk_def sdk_success_def sdk_not_found_def om_find_insert om_find_erase
      map_of_map_filter_find keys_map_filter_find om_range_range_list dom_om_find
      map_fst_kv_pair simp del: map_map)

subsection \<open>The direct operations of the store\<close>

lemma om_ok_apply_kv [simp]: "om_ok d \<Longrightarrow> om_ok (apply_kv kv d)"
  by (cases "opt_type kv") simp_all

text \<open>The effect of a batch of writes on the content of the store, seen as a map.\<close>

fun write_effect :: "'v KeyValue \<Rightarrow> (bytes \<rightharpoonup> 'v) \<Rightarrow> (bytes \<rightharpoonup> 'v)" where
  "write_effect kv f =
     f(kv_key kv := (case opt_type kv of kPut \<Rightarrow> Some (kv_value kv) | kDelete \<Rightarrow> None))"

lemma om_find_apply_kv:
  "om_ok d \<Longrightarrow> om_find (apply_kv kv d) = write_effect kv (om_find d)"
  by (cases "opt_type kv") (simp_all add: om_simps)

lemma om_find_apply_kvs:
  "om_ok d \<Longrightarrow> om_find (fold apply_kv kvs d) = fold write_effect kvs (om_find d) \<and>
    om_ok (fold apply_kv kvs d)"
  by (induction kvs arbitrary: d) (simp_all add: om_find_apply_kv del: apply_kv.simps write_effect.simps)

lemma sdk_each_ref_apply:
  assumes "\<not> is_if_absent option"
  shows "sdk_each (sdk_apply_kv ref_sdk option) kvs c
    = (OK, c\<lparr>working := fold apply_kv kvs (working c)\<rparr>)"
  using assms
  by (induction kvs arbitrary: c)
    (auto simp: sdk_apply_kv_def sdk_put_opt_def ref_sdk_def sdk_success_def split: OpType.splits)

lemma om_ok_erase_all [simp]: "om_ok d \<Longrightarrow> om_ok (fold om_erase ks d)"
  by (rule om.invar_erase_all)



end
