(* ===== verification/Meta.thy ===== *)
theory Meta
  imports Codec Storage
begin

text \<open>
  The messages the service stores, as records of the fields it reads or writes, and the value
  half of \<^verbatim>\<open>mdsv2/common/codec.cc\<close>. The messages are generated by protobuf from definitions
  that are not part of the repository: serialization is a parameter \<open>pb\<close>, of which the code
  relies only on \<open>pb_ok\<close> (parsing inverts serializing).
\<close>

subsection \<open>Messages\<close>

datatype FileType = DIRECTORY | SYM_LINK | FILE

record Slice =
  sl_id :: u64
  sl_offset :: u64
  sl_len :: u64

record Chunk =
  ck_index :: u64
  ck_chunk_size :: u64
  ck_block_size :: u64
  ck_version :: u64
  ck_slices :: "Slice list"

record AttrType =
  at_fs_id :: u32
  at_ino :: u64
  at_type :: FileType
  at_length :: u64
  at_uid :: u32
  at_gid :: u32
  at_mode :: u32
  at_nlink :: u32
  at_symlink :: bytes
  at_rdev :: u64
  at_dtime :: u32
  at_ctime :: u64
  at_mtime :: u64
  at_atime :: u64
  at_openmpcount :: u32
  at_version :: u64
  at_parents :: "u64 list"
  at_xattrs :: "(bytes, bytes) omap"
  at_chunks :: "(u64, Chunk) omap"

record DentryType =
  de_fs_id :: u32
  de_ino :: u64
  de_parent :: u64
  de_name :: bytes
  de_type :: FileType
  de_flag :: u32

record MountPoint =
  mp_client_id :: bytes
  mp_hostname :: bytes
  mp_port :: u32
  mp_path :: bytes

text \<open>
  The partition policy of a file system: one server serves all of it, or the buckets of its
  directories' inode numbers are distributed over servers. A message of neither type is a third case.
  Enumerations without a case of their own here are their numbers, and the storage settings of a file
  system (\<^verbatim>\<open>FsExtra\<close>), which the service only copies, are their serialized form.
\<close>

record MonoPartition =
  mono_epoch :: u64
  mono_mds_id :: u64

record HashPartition =
  hash_epoch :: u64
  hash_bucket_num :: u32
  hash_expect_mds_num :: u32
  hash_distributions :: "(u64, u32 list) omap"

datatype PartitionPolicy =
    MONOLITHIC_PARTITION MonoPartition | PARENT_ID_HASH_PARTITION HashPartition | UNKNOWN_PARTITION

datatype FsStatus = NEW | FsStatus int

record FsInfoType =
  fi_fs_id :: u32
  fi_fs_name :: bytes
  fi_chunk_size :: u64
  fi_block_size :: u64
  fi_root_ino :: u64
  fi_partition_policy :: PartitionPolicy
  fi_mount_points :: "MountPoint list"
  fi_last_update_time_ns :: u64
  fi_is_deleted :: bool
  fi_delete_time_s :: u64
  fi_fs_type :: int
  fi_status :: FsStatus
  fi_enable_sum_in_dir :: bool
  fi_owner :: bytes
  fi_capacity :: u64
  fi_recycle_time_hour :: u32
  fi_extra :: bytes
  fi_uuid :: bytes
  fi_create_time_s :: u64

record QuotaEntry =
  q_max_bytes :: u64
  q_max_inodes :: u64
  q_used_bytes :: u64
  q_used_inodes :: u64

record UsageEntry =
  us_bytes :: u64
  us_inodes :: u64

record SliceRange =
  sr_offset :: u64
  sr_len :: u64

record TrashSlice =
  ts_fs_id :: u32
  ts_ino :: u64
  ts_chunk_index :: u64
  ts_slice_id :: u64
  ts_block_size :: u64
  ts_is_partial :: bool
  ts_ranges :: "SliceRange list"

type_synonym TrashSliceList = "TrashSlice list"

datatype MdsState = MDS_State_INIT | MDS_State_NORMAL | MDS_State_ABNORMAL

record MdsEntry =
  mds_id_of :: u64
  mds_host :: bytes
  mds_port :: u32
  mds_state :: MdsState
  mds_last_online_time_ms :: u64

record ClientEntry =
  client_id_of :: bytes
  client_hostname :: bytes
  client_port :: u32
  client_mountpoint :: bytes
  client_last_online_time_ms :: u64

record FileSession =
  fs_session_id :: bytes
  fs_sess_fs_id :: u32
  fs_sess_ino :: u64
  fs_sess_client_id :: bytes
  fs_sess_create_time_s :: u64

text \<open>Messages as protobuf constructs them: every field zero or empty.\<close>

definition default_attr :: AttrType where
  "default_attr =
     \<lparr>at_fs_id = 0, at_ino = 0, at_type = DIRECTORY, at_length = 0, at_uid = 0, at_gid = 0,
      at_mode = 0, at_nlink = 0, at_symlink = [], at_rdev = 0, at_dtime = 0, at_ctime = 0,
      at_mtime = 0, at_atime = 0, at_openmpcount = 0, at_version = 0, at_parents = [],
      at_xattrs = [], at_chunks = []\<rparr>"

definition default_dentry :: DentryType where
  "default_dentry =
     \<lparr>de_fs_id = 0, de_ino = 0, de_parent = 0, de_name = [], de_type = DIRECTORY, de_flag = 0\<rparr>"

definition default_fs_info :: FsInfoType where
  "default_fs_info =
     \<lparr>fi_fs_id = 0, fi_fs_name = [], fi_chunk_size = 0, fi_block_size = 0, fi_root_ino = 0,
      fi_partition_policy = UNKNOWN_PARTITION, fi_mount_points = [], fi_last_update_time_ns = 0,
      fi_is_deleted = False, fi_delete_time_s = 0, fi_fs_type = 0, fi_status = FsStatus 0,
      fi_enable_sum_in_dir = False, fi_owner = [], fi_capacity = 0, fi_recycle_time_hour = 0,
      fi_extra = [], fi_uuid = [], fi_create_time_s = 0\<rparr>"

definition default_quota :: QuotaEntry where
  "default_quota = \<lparr>q_max_bytes = 0, q_max_inodes = 0, q_used_bytes = 0, q_used_inodes = 0\<rparr>"

subsection \<open>Serialization\<close>

text \<open>
  \<open>'v\<close> is the type of serialized values. \<open>value_empty\<close> is \<^verbatim>\<open>std::string::empty\<close> on them, and
  \<open>quota_signed\<close> tells whether the counters of a quota message are signed integers.
\<close>

record 'v pb =
  enc_inode :: "AttrType \<Rightarrow> 'v"
  dec_inode :: "'v \<Rightarrow> AttrType option"
  enc_dentry :: "DentryType \<Rightarrow> 'v"
  dec_dentry :: "'v \<Rightarrow> DentryType option"
  enc_fs :: "FsInfoType \<Rightarrow> 'v"
  dec_fs :: "'v \<Rightarrow> FsInfoType option"
  enc_quota :: "QuotaEntry \<Rightarrow> 'v"
  dec_quota :: "'v \<Rightarrow> QuotaEntry option"
  enc_trash :: "TrashSliceList \<Rightarrow> 'v"
  dec_trash :: "'v \<Rightarrow> TrashSliceList option"
  enc_mds :: "MdsEntry \<Rightarrow> 'v"
  dec_mds :: "'v \<Rightarrow> MdsEntry option"
  enc_client :: "ClientEntry \<Rightarrow> 'v"
  dec_client :: "'v \<Rightarrow> ClientEntry option"
  enc_session :: "FileSession \<Rightarrow> 'v"
  dec_session :: "'v \<Rightarrow> FileSession option"
  value_empty :: "'v \<Rightarrow> bool"
  quota_signed :: bool
  ROLE_MDS :: u32
  ROLE_CLIENT :: u32

definition pb_ok :: "'v pb \<Rightarrow> bool" where
  "pb_ok pb \<longleftrightarrow>
     (\<forall>x. dec_inode pb (enc_inode pb x) = Some x) \<and>
     (\<forall>x. dec_dentry pb (enc_dentry pb x) = Some x) \<and>
     (\<forall>x. dec_fs pb (enc_fs pb x) = Some x) \<and>
     (\<forall>x. dec_quota pb (enc_quota pb x) = Some x) \<and>
     (\<forall>x. dec_trash pb (enc_trash pb x) = Some x) \<and>
     (\<forall>x. dec_mds pb (enc_mds pb x) = Some x) \<and>
     (\<forall>x. dec_client pb (enc_client pb x) = Some x) \<and>
     (\<forall>x. dec_session pb (enc_session pb x) = Some x) \<and>
     (\<forall>v. value_empty pb v \<longrightarrow> dec_quota pb v = Some default_quota)"

definition EncodeInodeValue :: "'v pb \<Rightarrow> AttrType \<Rightarrow> 'v" where
  "EncodeInodeValue pb attr = enc_inode pb attr"

definition DecodeInodeValue :: "'v pb \<Rightarrow> 'v \<Rightarrow> AttrType option" where
  "DecodeInodeValue pb v = dec_inode pb v"

definition EncodeDentryValue :: "'v pb \<Rightarrow> DentryType \<Rightarrow> 'v" where
  "EncodeDentryValue pb dentry = enc_dentry pb dentry"

definition DecodeDentryValue :: "'v pb \<Rightarrow> 'v \<Rightarrow> DentryType option" where
  "DecodeDentryValue pb v = dec_dentry pb v"

definition EncodeFSValue :: "'v pb \<Rightarrow> FsInfoType \<Rightarrow> 'v" where
  "EncodeFSValue pb fs_info = enc_fs pb fs_info"

definition DecodeFSValue :: "'v pb \<Rightarrow> 'v \<Rightarrow> FsInfoType option" where
  "DecodeFSValue pb v = dec_fs pb v"

definition EncodeFsQuotaValue :: "'v pb \<Rightarrow> QuotaEntry \<Rightarrow> 'v" where
  "EncodeFsQuotaValue pb quota = enc_quota pb quota"

definition DecodeFsQuotaValue :: "'v pb \<Rightarrow> 'v \<Rightarrow> QuotaEntry option" where
  "DecodeFsQuotaValue pb v = dec_quota pb v"

definition EncodeDirQuotaValue :: "'v pb \<Rightarrow> QuotaEntry \<Rightarrow> 'v" where
  "EncodeDirQuotaValue pb quota = enc_quota pb quota"

definition DecodeDirQuotaValue :: "'v pb \<Rightarrow> 'v \<Rightarrow> QuotaEntry option" where
  "DecodeDirQuotaValue pb v = dec_quota pb v"

definition EncodeTrashChunkValue :: "'v pb \<Rightarrow> TrashSliceList \<Rightarrow> 'v" where
  "EncodeTrashChunkValue pb slices = enc_trash pb slices"

definition DecodeTrashChunkValue :: "'v pb \<Rightarrow> 'v \<Rightarrow> TrashSliceList option" where
  "DecodeTrashChunkValue pb v = dec_trash pb v"

definition EncodeDelFileValue :: "'v pb \<Rightarrow> AttrType \<Rightarrow> 'v" where
  "EncodeDelFileValue pb attr = enc_inode pb attr"

definition DecodeDelFileValue :: "'v pb \<Rightarrow> 'v \<Rightarrow> AttrType option" where
  "DecodeDelFileValue pb v = dec_inode pb v"

definition EncodeHeartbeatValue_mds :: "'v pb \<Rightarrow> MdsEntry \<Rightarrow> 'v" where
  "EncodeHeartbeatValue_mds pb mds = enc_mds pb mds"

definition EncodeHeartbeatValue_client :: "'v pb \<Rightarrow> ClientEntry \<Rightarrow> 'v" where
  "EncodeHeartbeatValue_client pb client = enc_client pb client"

definition DecodeHeartbeatValue_mds :: "'v pb \<Rightarrow> 'v \<Rightarrow> MdsEntry option" where
  "DecodeHeartbeatValue_mds pb v = dec_mds pb v"

definition DecodeHeartbeatValue_client :: "'v pb \<Rightarrow> 'v \<Rightarrow> ClientEntry option" where
  "DecodeHeartbeatValue_client pb v = dec_client pb v"

definition EncodeFileSessionValue :: "'v pb \<Rightarrow> FileSession \<Rightarrow> 'v" where
  "EncodeFileSessionValue pb file_session = enc_session pb file_session"

definition DecodeFileSessionValue :: "'v pb \<Rightarrow> 'v \<Rightarrow> FileSession option" where
  "DecodeFileSessionValue pb v = dec_session pb v"

text \<open>\<^verbatim>\<open>a > b\<close> on counters of a quota.\<close>

definition q_gt :: "'v pb \<Rightarrow> u64 \<Rightarrow> u64 \<Rightarrow> bool" where
  "q_gt pb a b = (if quota_signed pb then b <s a else b < a)"

subsection \<open>A concrete serializer\<close>

text \<open>Tagged values, on which the hypotheses about serialization are checked.\<close>

datatype val =
    VInode AttrType | VDentry DentryType | VFs FsInfoType | VQuota QuotaEntry
  | VTrash TrashSliceList | VMds MdsEntry | VClient ClientEntry | VSession FileSession

definition val_pb :: "val pb" where
  "val_pb =
     \<lparr>enc_inode = VInode, dec_inode = (\<lambda>v. case v of VInode x \<Rightarrow> Some x | _ \<Rightarrow> None),
      enc_dentry = VDentry, dec_dentry = (\<lambda>v. case v of VDentry x \<Rightarrow> Some x | _ \<Rightarrow> None),
      enc_fs = VFs, dec_fs = (\<lambda>v. case v of VFs x \<Rightarrow> Some x | _ \<Rightarrow> None),
      enc_quota = VQuota, dec_quota = (\<lambda>v. case v of VQuota x \<Rightarrow> Some x | _ \<Rightarrow> None),
      enc_trash = VTrash, dec_trash = (\<lambda>v. case v of VTrash x \<Rightarrow> Some x | _ \<Rightarrow> None),
      enc_mds = VMds, dec_mds = (\<lambda>v. case v of VMds x \<Rightarrow> Some x | _ \<Rightarrow> None),
      enc_client = VClient, dec_client = (\<lambda>v. case v of VClient x \<Rightarrow> Some x | _ \<Rightarrow> None),
      enc_session = VSession, dec_session = (\<lambda>v. case v of VSession x \<Rightarrow> Some x | _ \<Rightarrow> None),
      value_empty = (\<lambda>v. v = VQuota default_quota), quota_signed = True,
      ROLE_MDS = 0, ROLE_CLIENT = 1\<rparr>"

lemma pb_ok_val: "pb_ok val_pb"
  by (simp add: pb_ok_def val_pb_def)

lemmas value_codec_defs =
  EncodeInodeValue_def DecodeInodeValue_def EncodeDentryValue_def DecodeDentryValue_def
  EncodeFSValue_def DecodeFSValue_def EncodeFsQuotaValue_def DecodeFsQuotaValue_def
  EncodeDirQuotaValue_def DecodeDirQuotaValue_def EncodeTrashChunkValue_def
  DecodeTrashChunkValue_def EncodeDelFileValue_def DecodeDelFileValue_def
  EncodeHeartbeatValue_mds_def EncodeHeartbeatValue_client_def DecodeHeartbeatValue_mds_def
  DecodeHeartbeatValue_client_def EncodeFileSessionValue_def DecodeFileSessionValue_def

lemma pb_ok_simps:
  assumes "pb_ok pb"
  shows "DecodeInodeValue pb (EncodeInodeValue pb a) = Some a"
    and "DecodeDentryValue pb (EncodeDentryValue pb d) = Some d"
    and "DecodeFSValue pb (EncodeFSValue pb f) = Some f"
    and "DecodeFsQuotaValue pb (EncodeFsQuotaValue pb q) = Some q"
    and "DecodeDirQuotaValue pb (EncodeDirQuotaValue pb q) = Some q"
    and "DecodeTrashChunkValue pb (EncodeTrashChunkValue pb t) = Some t"
    and "DecodeDelFileValue pb (EncodeDelFileValue pb a) = Some a"
    and "DecodeHeartbeatValue_mds pb (EncodeHeartbeatValue_mds pb m) = Some m"
    and "DecodeHeartbeatValue_client pb (EncodeHeartbeatValue_client pb c) = Some c"
    and "DecodeFileSessionValue pb (EncodeFileSessionValue pb s) = Some s"
    and "value_empty pb v \<Longrightarrow> DecodeDirQuotaValue pb v = Some default_quota"
    and "value_empty pb v \<Longrightarrow> DecodeFsQuotaValue pb v = Some default_quota"
  using assms by (simp_all add: pb_ok_def value_codec_defs)

lemma EncodeInodeValue_inject: "pb_ok pb \<Longrightarrow> EncodeInodeValue pb a = EncodeInodeValue pb b \<longleftrightarrow> a = b"
  by (metis pb_ok_simps(1) option.inject)

lemma EncodeDentryValue_inject:
  "pb_ok pb \<Longrightarrow> EncodeDentryValue pb a = EncodeDentryValue pb b \<longleftrightarrow> a = b"
  by (metis pb_ok_simps(2) option.inject)

end
