(* ===== verification/NamespaceOps.thy ===== *)
theory NamespaceOps
  imports Meta
begin

text \<open>
  The namespace operations of \<^verbatim>\<open>mdsv2/filesystem/store_operation.cc\<close>: create root, mkdir,
  mknod, hard link, symbolic link, attribute and chunk updates, rmdir, unlink and rename, as
  functions of the serializer, the transaction interface and the transaction's state. \<open>None\<close>
  is a process abort (\<^verbatim>\<open>CHECK\<close>, \<^verbatim>\<open>FATAL\<close>), \<open>Inl\<close> the error status of an operation and \<open>Inr\<close>
  its result. \<open>time_ns\<close> is the operation's \<^verbatim>\<open>GetTime()\<close>.
\<close>

subsection \<open>Directory entries in memory\<close>

text \<open>\<^verbatim>\<open>class Dentry\<close> without its weak pointer to the cached inode.\<close>

record Dentry =
  d_name :: bytes
  d_fs_id :: u32
  d_ino :: u64
  d_parent :: u64
  d_type :: FileType
  d_flag :: u32

definition Dentry_of_pb :: "DentryType \<Rightarrow> Dentry" where
  "Dentry_of_pb dentry =
     \<lparr>d_name = de_name dentry, d_fs_id = de_fs_id dentry, d_ino = de_ino dentry,
      d_parent = de_parent dentry, d_type = de_type dentry, d_flag = de_flag dentry\<rparr>"

definition CopyTo :: "Dentry \<Rightarrow> DentryType" where
  "CopyTo dentry =
     \<lparr>de_fs_id = d_fs_id dentry, de_ino = d_ino dentry, de_parent = d_parent dentry,
      de_name = d_name dentry, de_type = d_type dentry, de_flag = d_flag dentry\<rparr>"

subsection \<open>Helpers\<close>

text \<open>A write whose status the caller drops.\<close>

definition tx_put :: "('t, 'v) Txn \<Rightarrow> bytes \<Rightarrow> 'v \<Rightarrow> 't \<Rightarrow> 't option" where
  "tx_put T k v t = map_option snd (Put T k v t)"

definition tx_delete :: "('t, 'v) Txn \<Rightarrow> bytes \<Rightarrow> 't \<Rightarrow> 't option" where
  "tx_delete T k t = map_option snd (Delete T k t)"

definition AddParentIno :: "AttrType \<Rightarrow> u64 \<Rightarrow> AttrType" where
  "AddParentIno attr parent =
     (if parent \<in> set (at_parents attr) then attr
      else attr\<lparr>at_parents := at_parents attr @ [parent]\<rparr>)"

definition DelParentIno :: "AttrType \<Rightarrow> u64 \<Rightarrow> AttrType" where
  "DelParentIno attr parent = attr\<lparr>at_parents := remove1 parent (at_parents attr)\<rparr>"

subsection \<open>Create operations\<close>

definition CreateRootOperation_Run ::
    "'v pb \<Rightarrow> ('t, 'v) Txn \<Rightarrow> Dentry \<Rightarrow> AttrType \<Rightarrow> 't \<Rightarrow> ((Status + unit) \<times> 't) option" where
  "CreateRootOperation_Run pb T dentry attr t = do {
     let fs_id = at_fs_id attr;
     ik \<leftarrow> EncodeInodeKey fs_id (at_ino attr);
     t \<leftarrow> tx_put T ik (EncodeInodeValue pb attr) t;
     dk \<leftarrow> EncodeDentryKey fs_id (d_parent dentry) (d_name dentry);
     t \<leftarrow> tx_put T dk (EncodeDentryValue pb (CopyTo dentry)) t;
     Some (Inr (), t)
   }"

definition MkDirOperation_RunInBatch ::
    "'v pb \<Rightarrow> ('t, 'v) Txn \<Rightarrow> u64 \<Rightarrow> Dentry \<Rightarrow> AttrType \<Rightarrow> AttrType \<Rightarrow> 't
      \<Rightarrow> (Status \<times> AttrType \<times> 't) option" where
  "MkDirOperation_RunInBatch pb T time_ns dentry attr parent_attr t = do {
     let fs_id = at_fs_id parent_attr;
     let parent = at_ino parent_attr;
     dk \<leftarrow> EncodeDentryKey fs_id parent (d_name dentry);
     t \<leftarrow> tx_put T dk (EncodeDentryValue pb (CopyTo dentry)) t;
     ik \<leftarrow> EncodeInodeKey fs_id (d_ino dentry);
     t \<leftarrow> tx_put T ik (EncodeInodeValue pb attr) t;
     Some (OK, parent_attr\<lparr>at_nlink := at_nlink parent_attr + 1,
                            at_mtime := max (at_mtime parent_attr) time_ns,
                            at_ctime := max (at_ctime parent_attr) time_ns\<rparr>, t)
   }"

definition MkNodOperation_RunInBatch ::
    "'v pb \<Rightarrow> ('t, 'v) Txn \<Rightarrow> u64 \<Rightarrow> Dentry \<Rightarrow> AttrType \<Rightarrow> AttrType \<Rightarrow> 't
      \<Rightarrow> (Status \<times> AttrType \<times> 't) option" where
  "MkNodOperation_RunInBatch pb T time_ns dentry attr parent_attr t = do {
     let fs_id = at_fs_id parent_attr;
     let parent = at_ino parent_attr;
     dk \<leftarrow> EncodeDentryKey fs_id parent (d_name dentry);
     t \<leftarrow> tx_put T dk (EncodeDentryValue pb (CopyTo dentry)) t;
     ik \<leftarrow> EncodeInodeKey fs_id (d_ino dentry);
     t \<leftarrow> tx_put T ik (EncodeInodeValue pb attr) t;
     Some (OK, parent_attr\<lparr>at_mtime := max (at_mtime parent_attr) time_ns,
                            at_ctime := max (at_ctime parent_attr) time_ns\<rparr>, t)
   }"

definition SmyLinkOperation_RunInBatch ::
    "'v pb \<Rightarrow> ('t, 'v) Txn \<Rightarrow> u64 \<Rightarrow> Dentry \<Rightarrow> AttrType \<Rightarrow> AttrType \<Rightarrow> 't
      \<Rightarrow> (Status \<times> AttrType \<times> 't) option" where
  "SmyLinkOperation_RunInBatch pb T time_ns dentry attr parent_attr t = do {
     let fs_id = at_fs_id parent_attr;
     let parent = at_ino parent_attr;
     dk \<leftarrow> EncodeDentryKey fs_id parent (d_name dentry);
     t \<leftarrow> tx_put T dk (EncodeDentryValue pb (CopyTo dentry)) t;
     ik \<leftarrow> EncodeInodeKey fs_id (d_ino dentry);
     t \<leftarrow> tx_put T ik (EncodeInodeValue pb attr) t;
     Some (OK, parent_attr\<lparr>at_mtime := max (at_mtime parent_attr) time_ns,
                            at_ctime := max (at_ctime parent_attr) time_ns\<rparr>, t)
   }"

subsection \<open>Updates of one inode\<close>

definition kSetAttrMode :: u32 where "kSetAttrMode = push_bit 0 1"
definition kSetAttrUid :: u32 where "kSetAttrUid = push_bit 1 1"
definition kSetAttrGid :: u32 where "kSetAttrGid = push_bit 2 1"
definition kSetAttrLength :: u32 where "kSetAttrLength = push_bit 3 1"
definition kSetAttrAtime :: u32 where "kSetAttrAtime = push_bit 4 1"
definition kSetAttrMtime :: u32 where "kSetAttrMtime = push_bit 5 1"
definition kSetAttrCtime :: u32 where "kSetAttrCtime = push_bit 6 1"
definition kSetAttrNlink :: u32 where "kSetAttrNlink = push_bit 7 1"

text \<open>One \<^verbatim>\<open>if (to_set_ & flag)\<close> of \<^verbatim>\<open>UpdateAttrOperation\<close>.\<close>

definition set_if :: "u32 \<Rightarrow> u32 \<Rightarrow> (AttrType \<Rightarrow> AttrType) \<Rightarrow> AttrType \<Rightarrow> AttrType" where
  "set_if to_set flag f attr = (if to_set AND flag \<noteq> 0 then f attr else attr)"

definition UpdateAttrOperation_RunInBatch ::
    "u32 \<Rightarrow> AttrType \<Rightarrow> AttrType \<Rightarrow> Status \<times> AttrType" where
  "UpdateAttrOperation_RunInBatch to_set new attr =
     (let attr = set_if to_set kSetAttrMode (at_mode_update (\<lambda>_. at_mode new)) attr;
          attr = set_if to_set kSetAttrUid (at_uid_update (\<lambda>_. at_uid new)) attr;
          attr = set_if to_set kSetAttrGid (at_gid_update (\<lambda>_. at_gid new)) attr;
          attr = set_if to_set kSetAttrLength (at_length_update (\<lambda>_. at_length new)) attr;
          attr = set_if to_set kSetAttrAtime (at_atime_update (\<lambda>x. max x (at_atime new))) attr;
          attr = set_if to_set kSetAttrMtime (at_mtime_update (\<lambda>x. max x (at_mtime new))) attr;
          attr = set_if to_set kSetAttrCtime (at_ctime_update (\<lambda>x. max x (at_ctime new))) attr;
          attr = set_if to_set kSetAttrNlink (at_nlink_update (\<lambda>_. at_nlink new)) attr
      in (OK, attr))"

definition UpdateXAttrOperation_RunInBatch ::
    "u64 \<Rightarrow> (bytes, bytes) omap \<Rightarrow> AttrType \<Rightarrow> Status \<times> AttrType" where
  "UpdateXAttrOperation_RunInBatch time_ns xattrs attr =
     (OK, attr\<lparr>at_xattrs := fold (\<lambda>(k, v). om_insert k v) xattrs (at_xattrs attr),
               at_atime := max (at_atime attr) time_ns,
               at_mtime := max (at_mtime attr) time_ns,
               at_ctime := max (at_ctime attr) time_ns\<rparr>)"

definition grow_length :: "Slice \<Rightarrow> u64 \<Rightarrow> u64" where
  "grow_length sl len =
     (if len < sl_offset sl + sl_len sl then sl_offset sl + sl_len sl else len)"

definition UpdateChunkOperation_RunInBatch ::
    "FsInfoType \<Rightarrow> u64 \<Rightarrow> u64 \<Rightarrow> Slice list \<Rightarrow> AttrType \<Rightarrow> Status \<times> AttrType \<times> u64" where
  "UpdateChunkOperation_RunInBatch fs_info time_ns chunk_index slices inode =
     (let chunk = (case om_find (at_chunks inode) chunk_index of
             None \<Rightarrow> \<lparr>ck_index = chunk_index, ck_chunk_size = fi_chunk_size fs_info,
                     ck_block_size = fi_block_size fs_info, ck_version = 0, ck_slices = slices\<rparr>
           | Some chunk \<Rightarrow> chunk\<lparr>ck_slices := ck_slices chunk @ slices\<rparr>);
          prev_length = at_length inode;
          inode = inode\<lparr>at_chunks := om_insert chunk_index chunk (at_chunks inode),
                        at_length := fold grow_length slices (at_length inode)\<rparr>;
          length_delta = at_length inode - prev_length
      in (OK, inode\<lparr>at_ctime := max (at_ctime inode) time_ns,
                    at_mtime := max (at_mtime inode) time_ns\<rparr>, length_delta))"

subsection \<open>Hard link, rmdir and unlink\<close>

text \<open>The loop that assigns the values of a batch read to the parent's and the child's attr.\<close>

fun load_parent_child ::
    "'v pb \<Rightarrow> bytes \<Rightarrow> bytes \<Rightarrow> 'v KeyValue list \<Rightarrow> AttrType \<times> AttrType
      \<Rightarrow> (AttrType \<times> AttrType) option" where
  "load_parent_child pb parent_key key [] pc = Some pc"
| "load_parent_child pb parent_key key (kv # kvs) (parent_attr, attr) =
     (if kv_key kv = parent_key then do {
        parent_attr \<leftarrow> DecodeInodeValue pb (kv_value kv);
        load_parent_child pb parent_key key kvs (parent_attr, attr)
      } else if kv_key kv = key then do {
        attr \<leftarrow> DecodeInodeValue pb (kv_value kv);
        load_parent_child pb parent_key key kvs (parent_attr, attr)
      } else None)"

text \<open>The result: the parent's attr and the child's.\<close>

definition HardLinkOperation_Run ::
    "'v pb \<Rightarrow> ('t, 'v) Txn \<Rightarrow> u64 \<Rightarrow> Dentry \<Rightarrow> 't
      \<Rightarrow> ((Status + AttrType \<times> AttrType) \<times> 't) option" where
  "HardLinkOperation_Run pb T time_ns dentry t = do {
     let fs_id = d_fs_id dentry;
     let parent = d_parent dentry;
     parent_key \<leftarrow> EncodeInodeKey fs_id parent;
     key \<leftarrow> EncodeInodeKey fs_id (d_ino dentry);
     case BatchGet T [parent_key, key] t of
       Inl status \<Rightarrow> Some (Inl status, t)
     | Inr kvs \<Rightarrow>
         if length kvs \<noteq> 2 then Some (Inl ENOT_FOUND, t)
         else do {
           (parent_attr, attr) \<leftarrow> load_parent_child pb parent_key key kvs (default_attr, default_attr);
           let parent_attr = parent_attr\<lparr>at_mtime := max (at_mtime parent_attr) time_ns,
                                         at_ctime := max (at_ctime parent_attr) time_ns,
                                         at_version := at_version parent_attr + 1\<rparr>;
           let attr = attr\<lparr>at_nlink := at_nlink attr + 1,
                           at_mtime := max (at_mtime attr) time_ns,
                           at_ctime := max (at_ctime attr) time_ns\<rparr>;
           let attr = AddParentIno attr parent;
           let attr = attr\<lparr>at_version := at_version attr + 1\<rparr>;
           t \<leftarrow> tx_put T key (EncodeInodeValue pb attr) t;
           dk \<leftarrow> EncodeDentryKey fs_id parent (d_name dentry);
           t \<leftarrow> tx_put T dk (EncodeDentryValue pb (CopyTo dentry)) t;
           Some (Inr (parent_attr, attr), t)
         }
   }"

definition CheckDirEmpty :: "('t, 'v) Txn \<Rightarrow> u32 \<Rightarrow> u64 \<Rightarrow> 't \<Rightarrow> Status + bool" where
  "CheckDirEmpty T fs_id ino t =
     (let (s, e) = GetDentryTableRange fs_id ino in
      case Scan T \<lparr>start_key = s, end_key = e\<rparr> 2 t of
        Inl status \<Rightarrow> Inl status
      | Inr kvs \<Rightarrow> Inr (length kvs < 2))"

definition RmDirOperation_Run ::
    "'v pb \<Rightarrow> ('t, 'v) Txn \<Rightarrow> u64 \<Rightarrow> Dentry \<Rightarrow> 't \<Rightarrow> ((Status + AttrType) \<times> 't) option" where
  "RmDirOperation_Run pb T time_ns dentry t = do {
     let fs_id = d_fs_id dentry;
     let parent = d_parent dentry;
     case CheckDirEmpty T fs_id (d_ino dentry) t of
       Inl status \<Rightarrow> Some (Inl status, t)
     | Inr is_empty \<Rightarrow>
         if \<not> is_empty then Some (Inl ENOT_EMPTY, t)
         else do {
           parent_key \<leftarrow> EncodeInodeKey fs_id parent;
           case Get T parent_key t of
             Inl status \<Rightarrow> Some (Inl status, t)
           | Inr v \<Rightarrow> do {
               parent_attr \<leftarrow> DecodeInodeValue pb v;
               let parent_attr = parent_attr\<lparr>at_nlink := at_nlink parent_attr - 1,
                                             at_ctime := max (at_ctime parent_attr) time_ns,
                                             at_mtime := max (at_mtime parent_attr) time_ns,
                                             at_version := at_version parent_attr + 1\<rparr>;
               t \<leftarrow> tx_put T parent_key (EncodeInodeValue pb parent_attr) t;
               ik \<leftarrow> EncodeInodeKey fs_id (d_ino dentry);
               t \<leftarrow> tx_delete T ik t;
               dk \<leftarrow> EncodeDentryKey fs_id parent (d_name dentry);
               t \<leftarrow> tx_delete T dk t;
               Some (Inr parent_attr, t)
             }
         }
   }"

text \<open>\<^verbatim>\<open>nlink\<close> is unsigned, so \<^verbatim>\<open>nlink() <= 0\<close> holds at zero only.\<close>

definition UnlinkOperation_Run ::
    "'v pb \<Rightarrow> ('t, 'v) Txn \<Rightarrow> u64 \<Rightarrow> Dentry \<Rightarrow> 't
      \<Rightarrow> ((Status + AttrType \<times> AttrType) \<times> 't) option" where
  "UnlinkOperation_Run pb T time_ns dentry t = do {
     let fs_id = d_fs_id dentry;
     let parent = d_parent dentry;
     parent_key \<leftarrow> EncodeInodeKey fs_id parent;
     key \<leftarrow> EncodeInodeKey fs_id (d_ino dentry);
     case BatchGet T [parent_key, key] t of
       Inl status \<Rightarrow> Some (Inl status, t)
     | Inr kvs \<Rightarrow>
         if length kvs \<noteq> 2 then Some (Inl ENOT_FOUND, t)
         else do {
           (parent_attr, attr) \<leftarrow> load_parent_child pb parent_key key kvs (default_attr, default_attr);
           let parent_attr = parent_attr\<lparr>at_ctime := max (at_ctime parent_attr) time_ns,
                                         at_mtime := max (at_mtime parent_attr) time_ns,
                                         at_version := at_version parent_attr + 1\<rparr>;
           t \<leftarrow> tx_put T parent_key (EncodeInodeValue pb parent_attr) t;
           let attr = attr\<lparr>at_nlink := at_nlink attr - 1,
                           at_ctime := max (at_ctime attr) time_ns,
                           at_version := at_version attr + 1\<rparr>;
           t \<leftarrow> (if at_nlink attr \<le> 0 then do {
                    t \<leftarrow> tx_delete T key t;
                    tx_put T (EncodeDelFileKey fs_id (d_ino dentry)) (EncodeDelFileValue pb attr) t
                  } else tx_put T key (EncodeInodeValue pb attr) t);
           dk \<leftarrow> EncodeDentryKey fs_id parent (d_name dentry);
           t \<leftarrow> tx_delete T dk t;
           Some (Inr (parent_attr, attr), t)
         }
   }"

subsection \<open>Rename\<close>

record RenameResult =
  rr_old_parent_attr :: AttrType
  rr_new_parent_attr :: AttrType
  rr_old_dentry :: DentryType
  rr_prev_new_dentry :: DentryType
  rr_prev_new_attr :: AttrType
  rr_new_dentry :: DentryType
  rr_old_attr :: AttrType
  rr_is_same_parent :: bool
  rr_is_exist_new_dentry :: bool

text \<open>The first loop over the batch read: parents and entries by key.\<close>

record rename_found =
  rf_old_parent_attr :: AttrType
  rf_new_parent_attr :: AttrType
  rf_old_dentry :: DentryType
  rf_prev_new_dentry :: DentryType

fun rename_load ::
    "'v pb \<Rightarrow> bool \<Rightarrow> bytes \<Rightarrow> bytes \<Rightarrow> bytes \<Rightarrow> bytes \<Rightarrow> 'v KeyValue list
      \<Rightarrow> rename_found \<Rightarrow> rename_found option" where
  "rename_load pb is_same_parent old_parent_key old_dentry_key new_parent_key new_dentry_key [] r =
     Some r"
| "rename_load pb is_same_parent old_parent_key old_dentry_key new_parent_key new_dentry_key
       (kv # kvs) r = do {
     r \<leftarrow> (if kv_key kv = old_parent_key then do {
              a \<leftarrow> DecodeInodeValue pb (kv_value kv);
              Some (r\<lparr>rf_old_parent_attr := a,
                      rf_new_parent_attr := (if is_same_parent then a else rf_new_parent_attr r)\<rparr>)
            } else if kv_key kv = old_dentry_key then do {
              d \<leftarrow> DecodeDentryValue pb (kv_value kv);
              Some (r\<lparr>rf_old_dentry := d\<rparr>)
            } else if kv_key kv = new_parent_key then do {
              a \<leftarrow> DecodeInodeValue pb (kv_value kv);
              Some (r\<lparr>rf_new_parent_attr := a\<rparr>)
            } else if kv_key kv = new_dentry_key then do {
              d \<leftarrow> DecodeDentryValue pb (kv_value kv);
              Some (r\<lparr>rf_prev_new_dentry := d\<rparr>)
            } else Some r);
     rename_load pb is_same_parent old_parent_key old_dentry_key new_parent_key new_dentry_key kvs r
   }"

text \<open>The second loop: the renamed inode and the one it replaces.\<close>

fun rename_load_inodes ::
    "'v pb \<Rightarrow> bytes \<Rightarrow> bytes \<Rightarrow> 'v KeyValue list \<Rightarrow> AttrType \<times> AttrType
      \<Rightarrow> (AttrType \<times> AttrType) option" where
  "rename_load_inodes pb old_inode_key prev_new_inode_key [] r = Some r"
| "rename_load_inodes pb old_inode_key prev_new_inode_key (kv # kvs) (old_attr, prev_new_attr) =
     (if kv_key kv = old_inode_key then do {
        a \<leftarrow> DecodeInodeValue pb (kv_value kv);
        rename_load_inodes pb old_inode_key prev_new_inode_key kvs (a, prev_new_attr)
      } else if kv_key kv = prev_new_inode_key then do {
        a \<leftarrow> DecodeInodeValue pb (kv_value kv);
        rename_load_inodes pb old_inode_key prev_new_inode_key kvs (old_attr, a)
      } else rename_load_inodes pb old_inode_key prev_new_inode_key kvs (old_attr, prev_new_attr))"

text \<open>The block that removes the entry the new name pointed to; it yields its new attr.\<close>

definition rename_replace ::
    "'v pb \<Rightarrow> ('t, 'v) Txn \<Rightarrow> u64 \<Rightarrow> u32 \<Rightarrow> DentryType \<Rightarrow> AttrType \<Rightarrow> bytes \<Rightarrow> 't
      \<Rightarrow> ((Status + AttrType) \<times> 't) option" where
  "rename_replace pb T time_ns fs_id prev_new_dentry prev_new_attr prev_new_inode_key t = do {
     CHECK (at_ino prev_new_attr \<noteq> 0);
     if de_type prev_new_dentry = DIRECTORY then
       case CheckDirEmpty T fs_id (de_ino prev_new_dentry) t of
         Inl status \<Rightarrow> Some (Inl status, t)
       | Inr is_empty \<Rightarrow>
           if \<not> is_empty then Some (Inl ENOT_EMPTY, t)
           else do {
             t \<leftarrow> tx_delete T prev_new_inode_key t;
             Some (Inr prev_new_attr, t)
           }
     else do {
       let prev_new_attr = prev_new_attr\<lparr>at_nlink := at_nlink prev_new_attr - 1,
                                         at_ctime := max (at_ctime prev_new_attr) time_ns,
                                         at_mtime := max (at_mtime prev_new_attr) time_ns,
                                         at_version := at_version prev_new_attr + 1\<rparr>;
       t \<leftarrow> (if at_nlink prev_new_attr \<le> 0 then do {
                t \<leftarrow> tx_delete T prev_new_inode_key t;
                tx_put T (EncodeDelFileKey fs_id (at_ino prev_new_attr))
                  (EncodeDelFileValue pb prev_new_attr) t
              } else tx_put T prev_new_inode_key (EncodeInodeValue pb prev_new_attr) t);
       Some (Inr prev_new_attr, t)
     }
   }"

text \<open>The writes at the end of the operation, from the deletion of the old entry on.\<close>

definition rename_commit ::
    "'v pb \<Rightarrow> ('t, 'v) Txn \<Rightarrow> u64 \<Rightarrow> u32 \<Rightarrow> u64 \<Rightarrow> u64 \<Rightarrow> bytes \<Rightarrow> rename_found \<Rightarrow> AttrType
      \<Rightarrow> AttrType \<Rightarrow> bytes \<Rightarrow> bytes \<Rightarrow> bytes \<Rightarrow> bytes \<Rightarrow> bytes \<Rightarrow> 't
      \<Rightarrow> ((Status + RenameResult) \<times> 't) option" where
  "rename_commit pb T time_ns fs_id old_parent new_parent new_name rf old_attr prev_new_attr
       old_parent_key old_dentry_key new_parent_key new_dentry_key old_inode_key t = do {
     let is_same_parent = (old_parent = new_parent);
     let old_dentry = rf_old_dentry rf;
     let is_exist_new_dentry = (de_ino (rf_prev_new_dentry rf) \<noteq> 0);
     t \<leftarrow> tx_delete T old_dentry_key t;
     let new_dentry = default_dentry\<lparr>de_fs_id := fs_id, de_name := new_name,
           de_ino := de_ino old_dentry, de_type := de_type old_dentry, de_parent := new_parent\<rparr>;
     t \<leftarrow> tx_put T new_dentry_key (EncodeDentryValue pb new_dentry) t;
     let old_attr = old_attr\<lparr>at_ctime := max (at_ctime old_attr) time_ns\<rparr>;
     let old_attr = DelParentIno (AddParentIno old_attr new_parent) old_parent;
     let old_attr = old_attr\<lparr>at_version := at_version old_attr + 1\<rparr>;
     t \<leftarrow> tx_put T old_inode_key (EncodeInodeValue pb old_attr) t;
     let old_parent_attr = rf_old_parent_attr rf;
     let old_parent_attr = old_parent_attr\<lparr>at_ctime := max (at_ctime old_parent_attr) time_ns,
           at_mtime := max (at_mtime old_parent_attr) time_ns,
           at_nlink := (if de_type old_dentry = DIRECTORY
                          \<and> (\<not> is_same_parent \<or> is_same_parent \<and> is_exist_new_dentry)
                        then at_nlink old_parent_attr - 1 else at_nlink old_parent_attr),
           at_version := at_version old_parent_attr + 1\<rparr>;
     t \<leftarrow> tx_put T old_parent_key (EncodeInodeValue pb old_parent_attr) t;
     let new_parent_attr = rf_new_parent_attr rf;
     let new_parent_attr =
       (if is_same_parent then new_parent_attr
        else new_parent_attr\<lparr>at_ctime := max (at_ctime new_parent_attr) time_ns,
               at_mtime := max (at_mtime new_parent_attr) time_ns,
               at_nlink := (if de_type new_dentry = DIRECTORY \<and> \<not> is_exist_new_dentry
                            then at_nlink new_parent_attr + 1 else at_nlink new_parent_attr),
               at_version := at_version new_parent_attr + 1\<rparr>);
     t \<leftarrow> (if is_same_parent then Some t
            else tx_put T new_parent_key (EncodeInodeValue pb new_parent_attr) t);
     Some (Inr \<lparr>rr_old_parent_attr = old_parent_attr, rr_new_parent_attr = new_parent_attr,
                rr_old_dentry = old_dentry, rr_prev_new_dentry = rf_prev_new_dentry rf,
                rr_prev_new_attr = prev_new_attr, rr_new_dentry = new_dentry,
                rr_old_attr = old_attr, rr_is_same_parent = is_same_parent,
                rr_is_exist_new_dentry = is_exist_new_dentry\<rparr>, t)
   }"

definition RenameOperation_Run ::
    "'v pb \<Rightarrow> ('t, 'v) Txn \<Rightarrow> u64 \<Rightarrow> u32 \<Rightarrow> u64 \<Rightarrow> bytes \<Rightarrow> u64 \<Rightarrow> bytes \<Rightarrow> 't
      \<Rightarrow> ((Status + RenameResult) \<times> 't) option" where
  "RenameOperation_Run pb T time_ns fs_id old_parent old_name new_parent new_name t = do {
     let is_same_parent = (old_parent = new_parent);
     old_parent_key \<leftarrow> EncodeInodeKey fs_id old_parent;
     old_dentry_key \<leftarrow> EncodeDentryKey fs_id old_parent old_name;
     new_parent_key \<leftarrow> EncodeInodeKey fs_id new_parent;
     new_dentry_key \<leftarrow> EncodeDentryKey fs_id new_parent new_name;
     let keys = [old_parent_key, old_dentry_key, new_dentry_key]
                  @ (if is_same_parent then [] else [new_parent_key]);
     case BatchGet T keys t of
       Inl status \<Rightarrow> Some (Inl status, t)
     | Inr kvs \<Rightarrow>
       if length kvs < 2 then Some (Inl ENOT_FOUND, t)
       else do {
         rf \<leftarrow> rename_load pb is_same_parent old_parent_key old_dentry_key new_parent_key
                 new_dentry_key kvs
                 \<lparr>rf_old_parent_attr = default_attr, rf_new_parent_attr = default_attr,
                  rf_old_dentry = default_dentry, rf_prev_new_dentry = default_dentry\<rparr>;
         CHECK (at_ino (rf_old_parent_attr rf) > 0);
         CHECK (at_ino (rf_new_parent_attr rf) > 0);
         CHECK (de_ino (rf_old_dentry rf) > 0);
         let is_exist_new_dentry = (de_ino (rf_prev_new_dentry rf) \<noteq> 0);
         old_inode_key \<leftarrow> EncodeInodeKey fs_id (de_ino (rf_old_dentry rf));
         prev_new_inode_key \<leftarrow> EncodeInodeKey fs_id (de_ino (rf_prev_new_dentry rf));
         case BatchGet T (old_inode_key # (if is_exist_new_dentry then [prev_new_inode_key] else [])) t of
           Inl status \<Rightarrow> Some (Inl status, t)
         | Inr kvs \<Rightarrow>
           if kvs = [] then Some (Inl ENOT_FOUND, t)
           else do {
             (old_attr, prev_new_attr) \<leftarrow>
               rename_load_inodes pb old_inode_key prev_new_inode_key kvs (default_attr, default_attr);
             (r, t) \<leftarrow> (if is_exist_new_dentry
                then rename_replace pb T time_ns fs_id (rf_prev_new_dentry rf) prev_new_attr
                       prev_new_inode_key t
                else Some (Inr prev_new_attr, t));
             case r of
               Inl status \<Rightarrow> Some (Inl status, t)
             | Inr prev_new_attr \<Rightarrow>
                 rename_commit pb T time_ns fs_id old_parent new_parent new_name rf old_attr
                   prev_new_attr old_parent_key old_dentry_key new_parent_key new_dentry_key
                   old_inode_key t
           }
       }
   }"

subsection \<open>Running the operations\<close>

context kv_txn
begin

lemma tx_put_returns:
  assumes "inv t"
    and "\<And>t'. inv t' \<Longrightarrow> view t' = (view t)(k \<mapsto> v) \<Longrightarrow> returns (g t') Q"
  shows "returns (tx_put T k v t \<bind> g) Q"
  using put_law [OF assms(1), of k v] assms(2) by (auto simp: tx_put_def)

lemma tx_delete_returns:
  assumes "inv t"
    and "\<And>t'. inv t' \<Longrightarrow> view t' = (view t)(k := None) \<Longrightarrow> returns (g t') Q"
  shows "returns (tx_delete T k t \<bind> g) Q"
  using delete_law [OF assms(1), of k] assms(2) by (auto simp: tx_delete_def)

lemma tx_put_returns_last:
  assumes "inv t" and "\<And>t'. inv t' \<Longrightarrow> view t' = (view t)(k \<mapsto> v) \<Longrightarrow> Q t'"
  shows "returns (tx_put T k v t) Q"
  using put_law [OF assms(1), of k v] assms(2) by (auto simp: tx_put_def)

lemmas tx_returns = tx_put_returns tx_delete_returns tx_put_returns_last

end

end
