(* ===== verification/Namespace.thy ===== *)
theory Namespace
  imports NamespaceOps
begin

text \<open>
  What the namespace operations promise: an abstract file system, one operation of it per
  store operation, and the proof that the code implements them (\<open>represents\<close> relates the
  content of the store to the abstract state). The invariant \<open>ns_ok\<close> says that every name leads
  to an inode of its type and that link counts are exact.
\<close>

subsection \<open>The abstract file system\<close>

record ns =
  inodes :: "u64 \<rightharpoonup> AttrType"
  dents :: "u64 \<times> bytes \<rightharpoonup> DentryType"
  delfiles :: "u64 \<rightharpoonup> AttrType"

text \<open>The keys of one filesystem.\<close>

definition inode_key :: "u32 \<Rightarrow> u64 \<Rightarrow> bytes" where
  "inode_key f i = kPrefix @ [key_type kTypeDentryOrInode] @ put_int f @ put_ulong i"

definition dentry_key :: "u32 \<Rightarrow> u64 \<Rightarrow> bytes \<Rightarrow> bytes" where
  "dentry_key f p n = inode_key f p @ n"

text \<open>Every key of the store is one the codec produces.\<close>

definition store_wf :: "(bytes \<rightharpoonup> 'v) \<Rightarrow> bool" where
  "store_wf v \<longleftrightarrow>
     (\<forall>k \<in> dom v. \<exists>role_mds role_client mk. encode_meta_key role_mds role_client mk = Some k)"

definition rep :: "'v pb \<Rightarrow> u32 \<Rightarrow> (bytes \<rightharpoonup> 'v) \<Rightarrow> (u64 \<rightharpoonup> AttrType)
    \<Rightarrow> (u64 \<times> bytes \<rightharpoonup> DentryType) \<Rightarrow> (u64 \<rightharpoonup> AttrType) \<Rightarrow> bool" where
  "rep pb f v I D L \<longleftrightarrow>
     store_wf v \<and>
     (\<forall>i. v (inode_key f i) = map_option (EncodeInodeValue pb) (I i)) \<and>
     (\<forall>p n. n \<noteq> [] \<longrightarrow> v (dentry_key f p n) = map_option (EncodeDentryValue pb) (D (p, n))) \<and>
     (\<forall>i. v (EncodeDelFileKey f i) = map_option (EncodeDelFileValue pb) (L i)) \<and>
     (\<forall>p. D (p, []) = None)"

definition represents :: "'v pb \<Rightarrow> u32 \<Rightarrow> (bytes \<rightharpoonup> 'v) \<Rightarrow> ns \<Rightarrow> bool" where
  "represents pb f v s \<longleftrightarrow> rep pb f v (inodes s) (dents s) (delfiles s)"

subsection \<open>The operations of the abstract file system\<close>

definition touch :: "u64 \<Rightarrow> AttrType \<Rightarrow> AttrType" where
  "touch t a = a\<lparr>at_mtime := max (at_mtime a) t, at_ctime := max (at_ctime a) t\<rparr>"

definition bump :: "AttrType \<Rightarrow> AttrType" where
  "bump a = a\<lparr>at_version := at_version a + 1\<rparr>"

definition spec_create_root :: "Dentry \<Rightarrow> AttrType \<Rightarrow> ns \<Rightarrow> ns" where
  "spec_create_root d a s =
     s\<lparr>inodes := (inodes s)(at_ino a \<mapsto> a),
       dents := (dents s)((d_parent d, d_name d) \<mapsto> CopyTo d)\<rparr>"

definition spec_create :: "u64 \<Rightarrow> Dentry \<Rightarrow> AttrType \<Rightarrow> AttrType \<Rightarrow> ns \<Rightarrow> ns" where
  "spec_create t d a pa s =
     s\<lparr>inodes := (inodes s)(d_ino d \<mapsto> a,
          d_parent d \<mapsto> touch t (pa\<lparr>at_nlink := at_nlink pa + (if d_type d = DIRECTORY then 1 else 0)\<rparr>)),
       dents := (dents s)((d_parent d, d_name d) \<mapsto> CopyTo d)\<rparr>"

definition spec_hard_link :: "u64 \<Rightarrow> Dentry \<Rightarrow> AttrType \<Rightarrow> ns \<Rightarrow> ns" where
  "spec_hard_link t d a s =
     s\<lparr>inodes := (inodes s)(d_ino d \<mapsto>
          bump (AddParentIno (touch t (a\<lparr>at_nlink := at_nlink a + 1\<rparr>)) (d_parent d))),
       dents := (dents s)((d_parent d, d_name d) \<mapsto> CopyTo d)\<rparr>"

definition spec_rmdir :: "u64 \<Rightarrow> Dentry \<Rightarrow> AttrType \<Rightarrow> ns \<Rightarrow> ns" where
  "spec_rmdir t d pa s =
     s\<lparr>inodes := (inodes s)(d_parent d \<mapsto> bump (touch t (pa\<lparr>at_nlink := at_nlink pa - 1\<rparr>)),
                            d_ino d := None),
       dents := (dents s)((d_parent d, d_name d) := None)\<rparr>"

definition unlinked :: "u64 \<Rightarrow> AttrType \<Rightarrow> AttrType" where
  "unlinked t a =
     bump (a\<lparr>at_nlink := at_nlink a - 1, at_ctime := max (at_ctime a) t\<rparr>)"

definition drop_link :: "u64 \<Rightarrow> AttrType \<Rightarrow> ns \<Rightarrow> ns" where
  "drop_link i a s =
     (if at_nlink a = 0
      then s\<lparr>inodes := (inodes s)(i := None), delfiles := (delfiles s)(i \<mapsto> a)\<rparr>
      else s\<lparr>inodes := (inodes s)(i \<mapsto> a)\<rparr>)"

definition spec_unlink :: "u64 \<Rightarrow> Dentry \<Rightarrow> AttrType \<Rightarrow> AttrType \<Rightarrow> ns \<Rightarrow> ns" where
  "spec_unlink t d pa a s =
     (drop_link (d_ino d) (unlinked t a)
        (s\<lparr>inodes := (inodes s)(d_parent d \<mapsto> bump (touch t pa))\<rparr>))
     \<lparr>dents := (dents s)((d_parent d, d_name d) := None)\<rparr>"

text \<open>
  Rename: \<open>d\<close> is the entry moved, \<open>oa\<close> its inode, \<open>opa\<close> and \<open>npa\<close> the inodes of the two
  directories, \<open>e\<close> the entry replaced, if any, with its inode.
\<close>

definition renamed :: "u64 \<Rightarrow> u64 \<Rightarrow> u64 \<Rightarrow> AttrType \<Rightarrow> AttrType" where
  "renamed t op np oa =
     bump (DelParentIno (AddParentIno (oa\<lparr>at_ctime := max (at_ctime oa) t\<rparr>) np) op)"

definition replaced :: "u64 \<Rightarrow> DentryType \<Rightarrow> AttrType \<Rightarrow> AttrType" where
  "replaced t e ea =
     (if de_type e = DIRECTORY then ea else bump (touch t (ea\<lparr>at_nlink := at_nlink ea - 1\<rparr>)))"

definition spec_replace :: "u64 \<Rightarrow> DentryType \<Rightarrow> AttrType \<Rightarrow> ns \<Rightarrow> ns" where
  "spec_replace t e ea s =
     (if de_type e = DIRECTORY then s\<lparr>inodes := (inodes s)(de_ino e := None)\<rparr>
      else drop_link (de_ino e) (replaced t e ea) s)"

definition moved_dentry :: "u32 \<Rightarrow> u64 \<Rightarrow> bytes \<Rightarrow> DentryType \<Rightarrow> DentryType" where
  "moved_dentry f np nn d =
     \<lparr>de_fs_id = f, de_ino = de_ino d, de_parent = np, de_name = nn, de_type = de_type d,
      de_flag = 0\<rparr>"

definition old_parent_after :: "u64 \<Rightarrow> bool \<Rightarrow> bool \<Rightarrow> DentryType \<Rightarrow> AttrType \<Rightarrow> AttrType" where
  "old_parent_after t same ex d opa =
     bump ((touch t opa)\<lparr>at_nlink := at_nlink opa -
       (if de_type d = DIRECTORY \<and> (\<not> same \<or> ex) then 1 else 0)\<rparr>)"

definition new_parent_after :: "u64 \<Rightarrow> bool \<Rightarrow> DentryType \<Rightarrow> AttrType \<Rightarrow> AttrType" where
  "new_parent_after t ex d npa =
     bump ((touch t npa)\<lparr>at_nlink := at_nlink npa +
       (if de_type d = DIRECTORY \<and> \<not> ex then 1 else 0)\<rparr>)"

definition spec_rename ::
    "u64 \<Rightarrow> u32 \<Rightarrow> u64 \<Rightarrow> bytes \<Rightarrow> u64 \<Rightarrow> bytes \<Rightarrow> DentryType \<Rightarrow> AttrType \<Rightarrow> AttrType \<Rightarrow> AttrType
      \<Rightarrow> (DentryType \<times> AttrType) option \<Rightarrow> ns \<Rightarrow> ns" where
  "spec_rename t f op on np nn d oa opa npa eo s =
     (let s1 = (case eo of None \<Rightarrow> s | Some (e, ea) \<Rightarrow> spec_replace t e ea s);
          ins = (inodes s1)(de_ino d \<mapsto> renamed t op np oa,
                  op \<mapsto> old_parent_after t (op = np) (eo \<noteq> None) d opa)
      in s1\<lparr>inodes := (if op = np then ins else ins(np \<mapsto> new_parent_after t (eo \<noteq> None) d npa)),
            dents := (dents s1)((op, on) := None, (np, nn) \<mapsto> moved_dentry f np nn d)\<rparr>)"

text \<open>What the operation answers.\<close>

definition rename_answer ::
    "u64 \<Rightarrow> u32 \<Rightarrow> u64 \<Rightarrow> u64 \<Rightarrow> bytes \<Rightarrow> DentryType \<Rightarrow> AttrType \<Rightarrow> AttrType \<Rightarrow> AttrType
      \<Rightarrow> (DentryType \<times> AttrType) option \<Rightarrow> RenameResult \<Rightarrow> bool" where
  "rename_answer t f op np nn d oa opa npa eo rr \<longleftrightarrow>
     rr_old_attr rr = renamed t op np oa \<and> rr_old_dentry rr = d \<and> rr_new_dentry rr = moved_dentry f np nn d \<and>
     rr_old_parent_attr rr = old_parent_after t (op = np) (eo \<noteq> None) d opa \<and>
     rr_new_parent_attr rr = (if op = np then opa else new_parent_after t (eo \<noteq> None) d npa) \<and>
     rr_is_exist_new_dentry rr = (eo \<noteq> None) \<and>
     (\<forall>e ea. eo = Some (e, ea) \<longrightarrow> rr_prev_new_dentry rr = e \<and> rr_prev_new_attr rr = replaced t e ea)"

definition dir_empty :: "ns \<Rightarrow> u64 \<Rightarrow> bool" where
  "dir_empty s i \<longleftrightarrow> (\<forall>n. dents s (i, n) = None)"

text \<open>The situation of a rename whose two directories and source exist.\<close>

definition rename_pre ::
    "ns \<Rightarrow> u64 \<Rightarrow> bytes \<Rightarrow> u64 \<Rightarrow> bytes \<Rightarrow> DentryType \<Rightarrow> AttrType \<Rightarrow> AttrType \<Rightarrow> AttrType
      \<Rightarrow> (DentryType \<times> AttrType) option \<Rightarrow> bool" where
  "rename_pre s op on np nn d oa opa npa eo \<longleftrightarrow>
     on \<noteq> [] \<and> nn \<noteq> [] \<and> (op, on) \<noteq> (np, nn) \<and>
     inodes s op = Some opa \<and> inodes s np = Some npa \<and> dents s (op, on) = Some d \<and>
     inodes s (de_ino d) = Some oa \<and>
     (case eo of
        None \<Rightarrow> dents s (np, nn) = None
      | Some (e, ea) \<Rightarrow> dents s (np, nn) = Some e \<and> inodes s (de_ino e) = Some ea
          \<and> de_ino e \<noteq> de_ino d \<and> de_ino e \<noteq> - 1) \<and>
     inodes s 0 = None \<and> (\<forall>i a. inodes s i = Some a \<longrightarrow> at_ino a = i)"

subsection \<open>Keys\<close>

lemma attr_commute: "at_mtime_update g (at_ctime_update f a) = at_ctime_update f (at_mtime_update g a)"
  by (cases a) simp

lemmas attr_simps = touch_def bump_def attr_commute Let_def

lemma EncodeInodeKey_eq: "EncodeInodeKey f i = (if f > 0 then Some (inode_key f i) else None)"
  by (simp add: EncodeInodeKey_def inode_key_def)

lemma EncodeDentryKey_eq:
  "EncodeDentryKey f p n = (if f > 0 then Some (dentry_key f p n) else None)"
  by (simp add: EncodeDentryKey_def dentry_key_def inode_key_def)

lemma inode_key_inject [simp]: "inode_key f i = inode_key f j \<longleftrightarrow> i = j"
  by (simp add: inode_key_def field_eq_simps)

lemma length_inode_key [simp]: "length (inode_key f i) = 22"
  by (simp add: inode_key_def)

lemma dentry_key_inject [simp]: "dentry_key f p n = dentry_key f q m \<longleftrightarrow> p = q \<and> n = m"
  by (simp add: dentry_key_def)

lemma inode_key_dentry_key [simp]:
  "inode_key f i = dentry_key f p n \<longleftrightarrow> i = p \<and> n = []"
  "dentry_key f p n = inode_key f i \<longleftrightarrow> i = p \<and> n = []"
proof -
  have "inode_key f i = dentry_key f p n \<longleftrightarrow> dentry_key f i [] = dentry_key f p n"
    by (simp add: dentry_key_def)
  then show a: "inode_key f i = dentry_key f p n \<longleftrightarrow> i = p \<and> n = []" by auto
  show "dentry_key f p n = inode_key f i \<longleftrightarrow> i = p \<and> n = []"
    using a by (metis (no_types))
qed

lemma delfile_key_neq [simp]:
  "EncodeDelFileKey f i \<noteq> inode_key g j" "EncodeDelFileKey f i \<noteq> dentry_key g p n"
  "inode_key g j \<noteq> EncodeDelFileKey f i" "dentry_key g p n \<noteq> EncodeDelFileKey f i"
  by (auto simp: EncodeDelFileKey_def inode_key_def dentry_key_def)

lemma delfile_key_inject [simp]: "EncodeDelFileKey f i = EncodeDelFileKey f j \<longleftrightarrow> i = j"
  by (simp add: EncodeDelFileKey_def field_eq_simps)

lemma store_wf_update:
  "store_wf v \<Longrightarrow> encode_meta_key rm rc mk = Some k \<Longrightarrow> store_wf (v(k \<mapsto> x))"
  by (auto simp: store_wf_def)

lemma store_wf_keys [simp]:
  assumes "store_wf v" and "f > 0"
  shows "store_wf (v(inode_key f i \<mapsto> x))" "store_wf (v(dentry_key f p n \<mapsto> x))"
    "store_wf (v(EncodeDelFileKey f i \<mapsto> x))" 
  using store_wf_update [OF assms(1), of 0 1 "InodeK f i"]
    store_wf_update [OF assms(1), of 0 1 "DentryK f p n"]
    store_wf_update [OF assms(1), of 0 1 "DelFileK f i"] assms(2)
  by (simp_all add: EncodeInodeKey_eq EncodeDentryKey_eq)

lemma store_wf_delete [simp]: "store_wf v \<Longrightarrow> store_wf (v(k := None))"
  by (auto simp: store_wf_def split: if_splits)

subsection \<open>Writes seen on the abstract file system\<close>

lemma rep_put_inode:
  "rep pb f v I D L \<Longrightarrow> f > 0 \<Longrightarrow>
   rep pb f (v(inode_key f i \<mapsto> EncodeInodeValue pb a)) (I(i \<mapsto> a)) D L"
  by (auto simp: rep_def)

lemma rep_del_inode: "rep pb f v I D L \<Longrightarrow> rep pb f (v(inode_key f i := None)) (I(i := None)) D L"
  by (auto simp: rep_def)

lemma rep_put_dentry:
  "rep pb f v I D L \<Longrightarrow> f > 0 \<Longrightarrow> n \<noteq> [] \<Longrightarrow>
   rep pb f (v(dentry_key f p n \<mapsto> EncodeDentryValue pb d)) I (D((p, n) \<mapsto> d)) L"
  by (auto simp: rep_def)

lemma rep_del_dentry:
  "rep pb f v I D L \<Longrightarrow> n \<noteq> [] \<Longrightarrow>
   rep pb f (v(dentry_key f p n := None)) I (D((p, n) := None)) L"
  by (auto simp: rep_def)

lemma rep_put_delfile:
  "rep pb f v I D L \<Longrightarrow> f > 0 \<Longrightarrow>
   rep pb f (v(EncodeDelFileKey f i \<mapsto> EncodeDelFileValue pb a)) I D (L(i \<mapsto> a))"
  by (auto simp: rep_def)

lemmas rep_intros = rep_put_inode rep_del_inode rep_put_dentry rep_del_dentry rep_put_delfile

lemma represents_inodeD:
  "represents pb f v s \<Longrightarrow> v (inode_key f i) = map_option (EncodeInodeValue pb) (inodes s i)"
  by (simp add: represents_def rep_def)

lemma represents_dentryD:
  "represents pb f v s \<Longrightarrow> n \<noteq> [] \<Longrightarrow>
    v (dentry_key f p n) = map_option (EncodeDentryValue pb) (dents s (p, n))"
  by (simp add: represents_def rep_def)

lemma represents_dentry_dom:
  assumes "represents pb f v s"
  shows "dents s (p, n) \<noteq> None \<longleftrightarrow> n \<noteq> [] \<and> v (dentry_key f p n) \<noteq> None"
  using assms by (cases "n = []") (auto simp: represents_def rep_def)

lemma represents_decode:
  assumes "represents pb f v s" and "pb_ok pb"
  shows "v (inode_key f i) = Some x \<Longrightarrow> DecodeInodeValue pb x = inodes s i \<and> inodes s i \<noteq> None"
    and "n \<noteq> [] \<Longrightarrow> v (dentry_key f p n) = Some x \<Longrightarrow>
      DecodeDentryValue pb x = dents s (p, n) \<and> dents s (p, n) \<noteq> None"
  using represents_inodeD [OF assms(1), of i] represents_dentryD [OF assms(1), of n p]
    pb_ok_simps(1,2) [OF assms(2)]
  by auto

lemma inode_value_decodes:
  assumes "represents pb f v s" and "pb_ok pb" and "v k = Some x" and "k = inode_key f i"
  shows "DecodeInodeValue pb x \<noteq> None"
  using represents_decode(1) [OF assms(1,2), of i x] assms(3,4) by simp

lemma dentry_value_decodes:
  assumes "represents pb f v s" and "pb_ok pb" and "n \<noteq> []" and "v k = Some x"
    and "k = dentry_key f p n"
  shows "DecodeDentryValue pb x \<noteq> None"
  using represents_decode(2) [OF assms(1,2), of n p x] assms(3-) by simp

subsection \<open>Loading the values of a batch read\<close>

definition decoded :: "('v \<Rightarrow> 'a option) \<Rightarrow> 'a \<Rightarrow> 'v option \<Rightarrow> 'a" where
  "decoded dec x v = (case v of None \<Rightarrow> x | Some v \<Rightarrow> the (dec v))"

lemma decoded_simps [simp]:
  "decoded dec x None = x" "decoded dec x (Some v) = the (dec v)"
  by (simp_all add: decoded_def)

lemma load_parent_child_eq:
  assumes "distinct (map kv_key kvs)" and "set (map kv_key kvs) \<subseteq> {pk, k}"
    and "\<forall>kv \<in> set kvs. DecodeInodeValue pb (kv_value kv) \<noteq> None"
  shows "load_parent_child pb pk k kvs (pa, a) =
    Some (decoded (DecodeInodeValue pb) pa (map_of (map kv_pair kvs) pk),
          if pk = k then a
          else decoded (DecodeInodeValue pb) a (map_of (map kv_pair kvs) k))"
  using assms
proof (induction kvs arbitrary: pa a)
  case (Cons kv kvs)
  then obtain x where x: "DecodeInodeValue pb (kv_value kv) = Some x" by auto
  have "map_of (map kv_pair kvs) (kv_key kv) = None"
    using Cons.prems(1) by (auto simp: map_of_eq_None_iff)
  with Cons x show ?case by auto
qed simp

lemma rename_load_inodes_eq:
  assumes "distinct (map kv_key kvs)"
    and "\<forall>kv \<in> set kvs. DecodeInodeValue pb (kv_value kv) \<noteq> None"
  shows "rename_load_inodes pb ok_key pk kvs (a, b) =
    Some (decoded (DecodeInodeValue pb) a (map_of (map kv_pair kvs) ok_key),
          if ok_key = pk then b
          else decoded (DecodeInodeValue pb) b (map_of (map kv_pair kvs) pk))"
  using assms
proof (induction kvs arbitrary: a b)
  case (Cons kv kvs)
  then obtain x where x: "DecodeInodeValue pb (kv_value kv) = Some x" by auto
  have "map_of (map kv_pair kvs) (kv_key kv) = None"
    using Cons.prems(1) by (auto simp: map_of_eq_None_iff)
  with Cons x show ?case by auto
qed simp

lemma rename_values_decode:
  assumes "represents pb f v s" and "pb_ok pb" and "on \<noteq> []" and "nn \<noteq> []"
    and vals: "\<And>kv. kv \<in> set kvs \<Longrightarrow> v (kv_key kv) = Some (kv_value kv)"
  shows "\<forall>kv \<in> set kvs.
      (kv_key kv = inode_key f op \<or> kv_key kv = inode_key f np \<longrightarrow> DecodeInodeValue pb (kv_value kv) \<noteq> None)
    \<and> (kv_key kv = dentry_key f op on \<or> kv_key kv = dentry_key f np nn \<longrightarrow> DecodeDentryValue pb (kv_value kv) \<noteq> None)"
proof (intro ballI conjI impI)
  fix kv assume kv: "kv \<in> set kvs"
  show "DecodeInodeValue pb (kv_value kv) \<noteq> None"
    if "kv_key kv = inode_key f op \<or> kv_key kv = inode_key f np"
    using that by (elim disjE) (rule inode_value_decodes [OF assms(1,2) vals [OF kv]], assumption)+
  show "DecodeDentryValue pb (kv_value kv) \<noteq> None"
    if "kv_key kv = dentry_key f op on \<or> kv_key kv = dentry_key f np nn"
    using that assms(3,4) vals [OF kv]
    by (elim disjE) (rule dentry_value_decodes [OF assms(1,2)], assumption+)+
qed

lemma rename_load_eq:
  assumes "distinct (map kv_key kvs)"
    and "\<forall>kv \<in> set kvs. (kv_key kv = opk \<or> kv_key kv = npk \<longrightarrow> DecodeInodeValue pb (kv_value kv) \<noteq> None)
      \<and> (kv_key kv = odk \<or> kv_key kv = ndk \<longrightarrow> DecodeDentryValue pb (kv_value kv) \<noteq> None)"
    and k: "opk \<noteq> odk" "opk \<noteq> ndk" "odk \<noteq> ndk" "npk \<noteq> odk" "npk \<noteq> ndk" "same \<longleftrightarrow> opk = npk"
  shows "rename_load pb same opk odk npk ndk kvs r =
    Some \<lparr>rf_old_parent_attr = decoded (DecodeInodeValue pb) (rf_old_parent_attr r) (map_of (map kv_pair kvs) opk),
      rf_new_parent_attr = decoded (DecodeInodeValue pb) (rf_new_parent_attr r) (map_of (map kv_pair kvs) npk),
      rf_old_dentry = decoded (DecodeDentryValue pb) (rf_old_dentry r) (map_of (map kv_pair kvs) odk),
      rf_prev_new_dentry = decoded (DecodeDentryValue pb) (rf_prev_new_dentry r) (map_of (map kv_pair kvs) ndk)\<rparr>"
  using assms(1,2)
proof (induction kvs arbitrary: r)
  case (Cons kv kvs)
  have none: "map_of (map kv_pair kvs) (kv_key kv) = None"
    using Cons.prems(1) by (auto simp: map_of_eq_None_iff)
  consider "kv_key kv = opk" | "kv_key kv = odk" | "kv_key kv = npk" "kv_key kv \<noteq> opk"
    | "kv_key kv = ndk" | "kv_key kv \<notin> {opk, odk, npk, ndk}" by auto
  then show ?case
    using Cons none k by cases auto
qed simp

context kv_txn
begin

lemma batch_get_obtain:
  assumes "inv t" and "distinct ks"
  obtains kvs where "BatchGet T ks t = Inr kvs" "distinct (map kv_key kvs)"
    "map_of (map kv_pair kvs) = view t |` set ks"
    "set (map kv_key kvs) = {k \<in> set ks. view t k \<noteq> None}"
    "length kvs = card {k \<in> set ks. view t k \<noteq> None}"
    "\<And>kv. kv \<in> set kvs \<Longrightarrow> view t (kv_key kv) = Some (kv_value kv)"
proof -
  obtain kvs where kvs: "BatchGet T ks t = Inr kvs" "distinct (map kv_key kvs)"
      "map_of (map kv_pair kvs) = view t |` set ks"
    using batch_get_law [OF assms] by blast
  have "view t (kv_key kv) = Some (kv_value kv)" if "kv \<in> set kvs" for kv
  proof -
    have "map_of (map kv_pair kvs) (kv_key kv) = Some (kv_value kv)"
      using kvs(2) that by (intro map_of_is_SomeI) (auto simp: comp_def)
    then show ?thesis by (simp add: kvs(3) restrict_map_def split: if_splits)
  qed
  with kvs batch_get_keys [OF assms kvs(1)] show ?thesis using that by blast
qed

lemma batch_get_ex:
  assumes "inv t" and "distinct ks"
  shows "\<exists>kvs. BatchGet T ks t = Inr kvs \<and> distinct (map kv_key kvs)
    \<and> map_of (map kv_pair kvs) = view t |` set ks
    \<and> set (map kv_key kvs) = {k \<in> set ks. view t k \<noteq> None}
    \<and> length kvs = card {k \<in> set ks. view t k \<noteq> None}
    \<and> (\<forall>kv \<in> set kvs. view t (kv_key kv) = Some (kv_value kv))"
  by (rule batch_get_obtain [OF assms]) blast

lemma load_pair:
  assumes "inv t" and "pb_ok pb" and rep: "represents pb f (view t) s" and "p \<noteq> i"
  obtains kvs where "BatchGet T [inode_key f p, inode_key f i] t = Inr kvs"
    "length kvs = 2 \<longleftrightarrow> inodes s p \<noteq> None \<and> inodes s i \<noteq> None"
    "\<And>pa a x y. inodes s p = Some pa \<Longrightarrow> inodes s i = Some a \<Longrightarrow>
      load_parent_child pb (inode_key f p) (inode_key f i) kvs (x, y) = Some (pa, a)"
proof -
  let ?p = "inode_key f p" and ?i = "inode_key f i"
  have d: "distinct [?p, ?i]" using \<open>p \<noteq> i\<close> by simp
  obtain kvs where kvs: "BatchGet T [?p, ?i] t = Inr kvs" "distinct (map kv_key kvs)"
      "map_of (map kv_pair kvs) = view t |` {?p, ?i}"
      "set (map kv_key kvs) = {k \<in> {?p, ?i}. view t k \<noteq> None}"
      "length kvs = card {k \<in> {?p, ?i}. view t k \<noteq> None}"
      "\<And>kv. kv \<in> set kvs \<Longrightarrow> view t (kv_key kv) = Some (kv_value kv)"
    using batch_get_obtain [OF assms(1) d] by auto
  note v = represents_inodeD [OF rep]
  have set_eq: "{k \<in> {?p, ?i}. view t k \<noteq> None}
      = (if inodes s p = None then {} else {?p}) \<union> (if inodes s i = None then {} else {?i})"
    using v by auto
  have "length kvs = 2 \<longleftrightarrow> inodes s p \<noteq> None \<and> inodes s i \<noteq> None"
    unfolding kvs(5) set_eq using \<open>p \<noteq> i\<close> by simp
  moreover have "load_parent_child pb ?p ?i kvs (x, y) = Some (pa, a)"
    if "inodes s p = Some pa" and "inodes s i = Some a" for pa a x y
  proof -
    have "DecodeInodeValue pb (kv_value kv) \<noteq> None" if "kv \<in> set kvs" for kv
    proof -
      have "kv_key kv = ?p \<or> kv_key kv = ?i" using kvs(4) that by auto
      then show ?thesis
        using kvs(6) [OF that] represents_decode(1) [OF rep assms(2)] by metis
    qed
    then show ?thesis
      using load_parent_child_eq [OF kvs(2), of ?p ?i pb x y] kvs(3,4) v that \<open>p \<noteq> i\<close>
        pb_ok_simps(1) [OF assms(2)]
      by (auto simp: restrict_map_def)
  qed
  ultimately show ?thesis using kvs(1) that by blast
qed

lemma hard_link_refines:
  assumes "inv t" and "pb_ok pb" and f: "f > 0" and rep: "represents pb f (view t) s"
    and d: "d_fs_id d = f" "d_parent d \<noteq> d_ino d" "d_name d \<noteq> []"
  shows "returns (HardLinkOperation_Run pb T time_ns d t) (\<lambda>(r, t').
    inv t' \<and>
    (case (inodes s (d_parent d), inodes s (d_ino d)) of
       (Some pa, Some a) \<Rightarrow>
         r = Inr (bump (touch time_ns pa), the (inodes (spec_hard_link time_ns d a s) (d_ino d)))
         \<and> represents pb f (view t') (spec_hard_link time_ns d a s)
     | _ \<Rightarrow> r = Inl ENOT_FOUND \<and> t' = t))"
proof -
  obtain kvs where kvs: "BatchGet T [inode_key f (d_parent d), inode_key f (d_ino d)] t = Inr kvs"
      "length kvs = 2 \<longleftrightarrow> inodes s (d_parent d) \<noteq> None \<and> inodes s (d_ino d) \<noteq> None"
      "\<And>pa a x y. inodes s (d_parent d) = Some pa \<Longrightarrow> inodes s (d_ino d) = Some a \<Longrightarrow>
        load_parent_child pb (inode_key f (d_parent d)) (inode_key f (d_ino d)) kvs (x, y) = Some (pa, a)"
    using load_pair [OF assms(1,2) rep d(2)] by blast
  note [simp] = HardLinkOperation_Run_def EncodeInodeKey_eq EncodeDentryKey_eq f d kvs(1)
  show ?thesis
  proof (cases "inodes s (d_parent d) = None \<or> inodes s (d_ino d) = None")
    case True
    then show ?thesis using kvs(2) assms(1) by (auto split: option.splits)
  next
    case False
    then obtain pa a where pa: "inodes s (d_parent d) = Some pa" and a: "inodes s (d_ino d) = Some a"
      by auto
    show ?thesis
      using pa a kvs(2) kvs(3) [OF pa a] assms(1)
      by (auto intro!: tx_returns rep_intros rep [unfolded represents_def]
          simp: spec_hard_link_def attr_simps represents_def)
  qed
qed

lemma unlink_refines:
  assumes "inv t" and "pb_ok pb" and f: "f > 0" and rep: "represents pb f (view t) s"
    and d: "d_fs_id d = f" "d_parent d \<noteq> d_ino d" "d_name d \<noteq> []"
  shows "returns (UnlinkOperation_Run pb T time_ns d t) (\<lambda>(r, t').
    inv t' \<and>
    (case (inodes s (d_parent d), inodes s (d_ino d)) of
       (Some pa, Some a) \<Rightarrow>
         r = Inr (bump (touch time_ns pa), unlinked time_ns a)
         \<and> represents pb f (view t') (spec_unlink time_ns d pa a s)
     | _ \<Rightarrow> r = Inl ENOT_FOUND \<and> t' = t))"
proof -
  obtain kvs where kvs: "BatchGet T [inode_key f (d_parent d), inode_key f (d_ino d)] t = Inr kvs"
      "length kvs = 2 \<longleftrightarrow> inodes s (d_parent d) \<noteq> None \<and> inodes s (d_ino d) \<noteq> None"
      "\<And>pa a x y. inodes s (d_parent d) = Some pa \<Longrightarrow> inodes s (d_ino d) = Some a \<Longrightarrow>
        load_parent_child pb (inode_key f (d_parent d)) (inode_key f (d_ino d)) kvs (x, y) = Some (pa, a)"
    using load_pair [OF assms(1,2) rep d(2)] by blast
  note [simp] = UnlinkOperation_Run_def EncodeInodeKey_eq EncodeDentryKey_eq f d kvs(1)
  show ?thesis
  proof (cases "inodes s (d_parent d) = None \<or> inodes s (d_ino d) = None")
    case True
    then show ?thesis using kvs(2) assms(1) by (auto split: option.splits)
  next
    case False
    then obtain pa a where pa: "inodes s (d_parent d) = Some pa" and a: "inodes s (d_ino d) = Some a"
      by auto
    show ?thesis
      using pa a kvs(2) kvs(3) [OF pa a] assms(1)
      by (auto intro!: tx_returns rep_intros rep [unfolded represents_def]
          simp: spec_unlink_def drop_link_def unlinked_def attr_simps represents_def)
  qed
qed

lemma create_root_refines:
  assumes "inv t" and "f > 0" and rep: "represents pb f (view t) s"
    and "at_fs_id a = f" and "d_name d \<noteq> []"
  shows "returns (CreateRootOperation_Run pb T d a t) (\<lambda>(r, t').
    inv t' \<and> r = Inr () \<and> represents pb f (view t') (spec_create_root d a s))"
  using assms
  by (auto intro!: tx_returns rep_intros
      simp: CreateRootOperation_Run_def EncodeInodeKey_eq EncodeDentryKey_eq spec_create_root_def
        represents_def Let_def)

text \<open>
  A create operation in a batch leaves the parent's new attributes to the caller: the store and
  the pending attributes together represent the abstract state.
\<close>

lemma rep_create:
  assumes "rep pb f (v(inode_key f p \<mapsto> z)) I D L" and "f > 0" and "n \<noteq> []" and "i \<noteq> p"
  shows "rep pb f (v(dentry_key f p n \<mapsto> EncodeDentryValue pb d,
      inode_key f i \<mapsto> EncodeInodeValue pb a, inode_key f p \<mapsto> EncodeInodeValue pb pa'))
    (I(i \<mapsto> a, p \<mapsto> pa')) (D((p, n) \<mapsto> d)) L"
proof -
  have e: "v(dentry_key f p n \<mapsto> x, inode_key f i \<mapsto> y, inode_key f p \<mapsto> w)
    = (v(inode_key f p \<mapsto> z))(dentry_key f p n \<mapsto> x, inode_key f i \<mapsto> y, inode_key f p \<mapsto> w)"
    for x y w
    using assms(3,4) by (auto simp: fun_eq_iff)
  show ?thesis
    by (subst e) (intro rep_intros assms(1-3))
qed

lemma create_refines:
  fixes time_ns :: u64 and a :: AttrType
  assumes "inv t" and f: "f > 0"
    and pend: "represents pb f ((view t)(inode_key f p \<mapsto> EncodeInodeValue pb pa)) s"
    and pa: "at_fs_id pa = f" "at_ino pa = p" and d: "d_parent d = p" "d_ino d \<noteq> p" "d_name d \<noteq> []"
  defines "post \<equiv> \<lambda>(r, pa', t'). r = OK \<and> inv t' \<and> at_fs_id pa' = f \<and> at_ino pa' = p
        \<and> inodes (spec_create time_ns d a pa s) p = Some pa'
        \<and> represents pb f ((view t')(inode_key f p \<mapsto> EncodeInodeValue pb pa'))
            (spec_create time_ns d a pa s)"
  shows "d_type d = DIRECTORY \<Longrightarrow> returns (MkDirOperation_RunInBatch pb T time_ns d a pa t) post"
    and "d_type d \<noteq> DIRECTORY \<Longrightarrow> returns (MkNodOperation_RunInBatch pb T time_ns d a pa t) post"
    and "d_type d \<noteq> DIRECTORY \<Longrightarrow> returns (SmyLinkOperation_RunInBatch pb T time_ns d a pa t) post"
proof -
  note [simp] = MkDirOperation_RunInBatch_def MkNodOperation_RunInBatch_def
    SmyLinkOperation_RunInBatch_def EncodeInodeKey_eq EncodeDentryKey_eq f pa d spec_create_def
    attr_simps represents_def d(2) [symmetric]
  note r = tx_returns rep_create [OF pend [unfolded represents_def]] \<open>inv t\<close>
  show "d_type d = DIRECTORY \<Longrightarrow> returns (MkDirOperation_RunInBatch pb T time_ns d a pa t) post"
    unfolding post_def by (auto intro!: r)
  show "d_type d \<noteq> DIRECTORY \<Longrightarrow> returns (MkNodOperation_RunInBatch pb T time_ns d a pa t) post"
    unfolding post_def by (auto intro!: r)
  show "d_type d \<noteq> DIRECTORY \<Longrightarrow> returns (SmyLinkOperation_RunInBatch pb T time_ns d a pa t) post"
    unfolding post_def by (auto intro!: r)
qed

end

subsection \<open>Reading a directory\<close>

lemma dentry_range_iff:
  assumes "encode_meta_key rm rc mk = Some k" and "i \<noteq> - 1"
  shows "in_range (GetDentryTableRange f i) k
    \<longleftrightarrow> mk = InodeK f i \<or> (\<exists>name. mk = DentryK f i name)"
  using encode_meta_key_shape [OF assms(1)] assms(2)
  by (cases mk) (auto simp: GetDentryTableRange_def codec_simps)

lemma dentry_range_keys:
  assumes "store_wf v" and "i \<noteq> - 1"
  shows "{k \<in> dom v. in_range (GetDentryTableRange f i) k}
    = {k \<in> dom v. k = inode_key f i \<or> (\<exists>n. n \<noteq> [] \<and> k = dentry_key f i n)}"
proof -
  have "in_range (GetDentryTableRange f i) k
      \<longleftrightarrow> k = inode_key f i \<or> (\<exists>n. n \<noteq> [] \<and> k = dentry_key f i n)" if k: "k \<in> dom v" for k
  proof -
    obtain rm rc mk where mk: "encode_meta_key rm rc mk = Some k"
      using assms(1) k unfolding store_wf_def by blast
    show ?thesis
    proof
      assume "in_range (GetDentryTableRange f i) k"
      then show "k = inode_key f i \<or> (\<exists>n. n \<noteq> [] \<and> k = dentry_key f i n)"
        using dentry_range_iff [OF mk assms(2)] mk
        by (auto simp: EncodeInodeKey_eq EncodeDentryKey_eq dentry_key_def split: if_splits)
    next
      assume "k = inode_key f i \<or> (\<exists>n. n \<noteq> [] \<and> k = dentry_key f i n)"
      then obtain n where "k = kPrefix @ key_type kTypeDentryOrInode # put_int f @ put_ulong i @ n"
        by (auto simp: inode_key_def dentry_key_def)
      then show "in_range (GetDentryTableRange f i) k"
        using assms(2) by (simp add: GetDentryTableRange_def codec_simps)
    qed
  qed
  then show ?thesis by blast
qed

lemma card_dir_keys:
  assumes rep: "represents pb f v s" and fin: "finite (dom v)" and "i \<noteq> - 1"
  shows "card {k \<in> dom v. in_range (GetDentryTableRange f i) k}
    = (if inodes s i = None then 0 else 1) + card {n. dents s (i, n) \<noteq> None}"
proof -
  let ?N = "{n. dents s (i, n) \<noteq> None}"
  have nil: "[] \<notin> ?N" and wf: "store_wf v"
    using rep by (auto simp: represents_def rep_def)
  have eq: "{k \<in> dom v. in_range (GetDentryTableRange f i) k}
      = (if inodes s i = None then {} else {inode_key f i}) \<union> dentry_key f i ` ?N"
    unfolding dentry_range_keys [OF wf \<open>i \<noteq> - 1\<close>]
    using represents_inodeD [OF rep, of i] represents_dentry_dom [OF rep, of i]
    by (auto simp del: not_None_eq simp: dom_def)
  have "dentry_key f i ` ?N \<subseteq> dom v"
    using eq by auto
  then have "finite (dentry_key f i ` ?N)"
    using fin finite_subset by blast
  moreover have "card (dentry_key f i ` ?N) = card ?N"
    by (intro card_image) (auto simp: inj_on_def)
  moreover have "inode_key f i \<notin> dentry_key f i ` ?N"
    using nil by auto
  ultimately show ?thesis
    unfolding eq by (auto simp: card_insert_if)
qed

context kv_scan_txn
begin

lemma CheckDirEmpty_eq:
  assumes "inv t" and rep: "represents pb f (view t) s" and "i \<noteq> - 1" and "inodes s i \<noteq> None"
  shows "CheckDirEmpty T f i t = Inr (dir_empty s i)"
proof -
  let ?N = "{n. dents s (i, n) \<noteq> None}"
  obtain b e where be: "GetDentryTableRange f i = (b, e)" by fastforce
  have card: "card {k \<in> dom (view t). b \<le> k \<and> k < e} = Suc (card ?N)"
    using card_dir_keys [OF rep finite_view [OF assms(1)] assms(3)] assms(4) be
    by (simp add: in_range_def)
  have "inj_on (dentry_key f i) ?N" by (auto simp: inj_on_def)
  moreover have "dentry_key f i ` ?N \<subseteq> dom (view t)"
    using represents_dentry_dom [OF rep, of i] by (auto simp del: not_None_eq simp: dom_def)
  ultimately have "finite ?N"
    using finite_view [OF assms(1)] finite_imageD finite_subset by metis
  then have "card ?N = 0 \<longleftrightarrow> dir_empty s i"
    by (auto simp: dir_empty_def)
  then show ?thesis
    using be card scan_law [OF assms(1)]
    by (auto simp: CheckDirEmpty_def length_range_list)
qed

lemma rmdir_refines:
  assumes "inv t" and "pb_ok pb" and f: "f > 0" and rep: "represents pb f (view t) s"
    and d: "d_fs_id d = f" "d_parent d \<noteq> d_ino d" "d_name d \<noteq> []" "d_ino d \<noteq> - 1"
    and "inodes s (d_ino d) \<noteq> None"
  shows "returns (RmDirOperation_Run pb T time_ns d t) (\<lambda>(r, t').
    inv t' \<and>
    (if \<not> dir_empty s (d_ino d) then r = Inl ENOT_EMPTY \<and> t' = t
     else case inodes s (d_parent d) of
       None \<Rightarrow> r = Inl ENOT_FOUND \<and> t' = t
     | Some pa \<Rightarrow>
         r = Inr (bump (touch time_ns (pa\<lparr>at_nlink := at_nlink pa - 1\<rparr>)))
         \<and> represents pb f (view t') (spec_rmdir time_ns d pa s)))"
proof -
  note [simp] = RmDirOperation_Run_def EncodeInodeKey_eq EncodeDentryKey_eq f d
    CheckDirEmpty_eq [OF assms(1) rep d(4) assms(9)]
    get_law [OF assms(1)] represents_inodeD [OF rep]
  show ?thesis
    using assms(1) pb_ok_simps(1) [OF assms(2)]
    by (auto intro!: tx_returns rep_intros rep [unfolded represents_def]
        simp: spec_rmdir_def attr_simps represents_def split: option.splits)
qed

lemma rename_commit_refines:
  fixes d op np time_ns oa pna
  assumes "inv t" and rep: "represents pb f (view t) s1" and "f > 0" and "on \<noteq> []" and "nn \<noteq> []"
    and rf: "rf_old_dentry rf = d"
  defines "ex \<equiv> de_ino (rf_prev_new_dentry rf) \<noteq> 0"
  defines "opa' \<equiv> old_parent_after time_ns (op = np) ex d (rf_old_parent_attr rf)"
  defines "npa' \<equiv> new_parent_after time_ns ex d (rf_new_parent_attr rf)"
  defines "ins \<equiv> (inodes s1)(de_ino d \<mapsto> renamed time_ns op np oa, op \<mapsto> opa')"
  shows "returns (rename_commit pb T time_ns f op np nn rf oa pna (inode_key f op)
      (dentry_key f op on) (inode_key f np) (dentry_key f np nn) (inode_key f (de_ino d)) t)
    (\<lambda>(r, t'). inv t' \<and>
      r = Inr \<lparr>rr_old_parent_attr = opa',
               rr_new_parent_attr = (if op = np then rf_new_parent_attr rf else npa'),
               rr_old_dentry = d, rr_prev_new_dentry = rf_prev_new_dentry rf,
               rr_prev_new_attr = pna, rr_new_dentry = moved_dentry f np nn d,
               rr_old_attr = renamed time_ns op np oa, rr_is_same_parent = (op = np),
               rr_is_exist_new_dentry = ex\<rparr> \<and>
      represents pb f (view t')
        (s1\<lparr>inodes := (if op = np then ins else ins(np \<mapsto> npa')),
            dents := (dents s1)((op, on) := None, (np, nn) \<mapsto> moved_dentry f np nn d)\<rparr>))"
proof -
  have m: "default_dentry\<lparr>de_fs_id := f, de_name := nn, de_ino := de_ino d, de_type := de_type d,
      de_parent := np\<rparr> = moved_dentry f np nn d"
    by (simp add: default_dentry_def moved_dentry_def)
  have o: "rf_old_parent_attr rf\<lparr>at_ctime := max (at_ctime (rf_old_parent_attr rf)) time_ns,
        at_mtime := max (at_mtime (rf_old_parent_attr rf)) time_ns,
        at_nlink := (if de_type d = DIRECTORY \<and> (\<not> op = np \<or> op = np \<and> ex)
          then at_nlink (rf_old_parent_attr rf) - 1 else at_nlink (rf_old_parent_attr rf)),
        at_version := at_version (rf_old_parent_attr rf) + 1\<rparr> = opa'"
    unfolding opa'_def old_parent_after_def by (simp add: attr_simps)
  have n: "rf_new_parent_attr rf\<lparr>at_ctime := max (at_ctime (rf_new_parent_attr rf)) time_ns,
        at_mtime := max (at_mtime (rf_new_parent_attr rf)) time_ns,
        at_nlink := (if de_type d = DIRECTORY \<and> \<not> ex
          then at_nlink (rf_new_parent_attr rf) + 1 else at_nlink (rf_new_parent_attr rf)),
        at_version := at_version (rf_new_parent_attr rf) + 1\<rparr> = npa'"
    unfolding npa'_def new_parent_after_def by (simp add: attr_simps)
  have r: "(let a = DelParentIno (AddParentIno (oa\<lparr>at_ctime := max (at_ctime oa) time_ns\<rparr>) np) op
      in a\<lparr>at_version := at_version a + 1\<rparr>) = renamed time_ns op np oa"
    by (simp add: renamed_def bump_def Let_def)
  have ty: "de_type (moved_dentry f np nn d) = de_type d" by (simp add: moved_dentry_def)
  show ?thesis
    unfolding rename_commit_def Let_def rf ex_def [symmetric] m ty o n r [unfolded Let_def]
    using assms(1,3,4,5) rep
    by (cases "op = np")
      (auto intro!: tx_returns rep_intros simp: ins_def represents_def)
qed

lemma rename_replace_refines:
  assumes "inv t" and rep: "represents pb f (view t) s" and "f > 0"
    and "inodes s (de_ino e) = Some ea" and "at_ino ea = de_ino e"
    and "de_ino e \<noteq> 0" and "de_ino e \<noteq> - 1"
  shows "returns (rename_replace pb T time_ns f e ea (inode_key f (de_ino e)) t) (\<lambda>(r, t').
    inv t' \<and>
    (if de_type e = DIRECTORY \<and> \<not> dir_empty s (de_ino e) then r = Inl ENOT_EMPTY \<and> t' = t
     else r = Inr (replaced time_ns e ea) \<and> represents pb f (view t') (spec_replace time_ns e ea s)))"
proof -
  have c: "CheckDirEmpty T f (de_ino e) t = Inr (dir_empty s (de_ino e))"
    using CheckDirEmpty_eq [OF assms(1) rep assms(7)] assms(4) by simp
  have r: "ea\<lparr>at_nlink := at_nlink ea - 1, at_ctime := max (at_ctime ea) time_ns,
      at_mtime := max (at_mtime ea) time_ns, at_version := at_version ea + 1\<rparr>
      = bump (touch time_ns (ea\<lparr>at_nlink := at_nlink ea - 1\<rparr>))"
    by (simp add: attr_simps)
  show ?thesis
    using assms(1,3,5,6) rep
    by (cases "de_type e = DIRECTORY")
      (auto intro!: tx_returns rep_intros simp: rename_replace_def c r Let_def represents_def
        spec_replace_def replaced_def drop_link_def bump_def touch_def)
qed

lemma rename_load_found:
  assumes "inv t" and "pb_ok pb" and rep: "represents pb f (view t) s"
    and pre: "rename_pre s op on np nn d oa opa npa eo"
  obtains kvs where
    "BatchGet T ([inode_key f op, dentry_key f op on, dentry_key f np nn]
       @ (if op = np then [] else [inode_key f np])) t = Inr kvs"
    "\<not> length kvs < 2"
    "rename_load pb (op = np) (inode_key f op) (dentry_key f op on) (inode_key f np)
       (dentry_key f np nn) kvs
       \<lparr>rf_old_parent_attr = default_attr, rf_new_parent_attr = default_attr,
        rf_old_dentry = default_dentry, rf_prev_new_dentry = default_dentry\<rparr>
     = Some \<lparr>rf_old_parent_attr = opa, rf_new_parent_attr = npa, rf_old_dentry = d,
             rf_prev_new_dentry = (case eo of None \<Rightarrow> default_dentry | Some (e, ea) \<Rightarrow> e)\<rparr>"
proof -
  let ?ks = "[inode_key f op, dentry_key f op on, dentry_key f np nn]
       @ (if op = np then [] else [inode_key f np])"
  have names: "on \<noteq> []" "nn \<noteq> []" and ne: "(op, on) \<noteq> (np, nn)"
    using pre by (auto simp: rename_pre_def)
  have dist: "distinct ?ks" using names ne by auto
  obtain kvs where kvs: "BatchGet T ?ks t = Inr kvs" "distinct (map kv_key kvs)"
      "map_of (map kv_pair kvs) = view t |` set ?ks"
      "set (map kv_key kvs) = {k \<in> set ?ks. view t k \<noteq> None}"
      "length kvs = card {k \<in> set ?ks. view t k \<noteq> None}"
      "\<And>kv. kv \<in> set kvs \<Longrightarrow> view t (kv_key kv) = Some (kv_value kv)"
    using batch_get_ex [OF assms(1) dist] by blast
  note v = represents_inodeD [OF rep] represents_dentryD [OF rep names(1)]
    represents_dentryD [OF rep names(2)]
  have "{inode_key f op, dentry_key f op on} \<subseteq> {k \<in> set ?ks. view t k \<noteq> None}"
    using pre v by (auto simp: rename_pre_def)
  then have "card {inode_key f op, dentry_key f op on} \<le> length kvs"
    unfolding kvs(5) by (intro card_mono) auto
  then have len: "\<not> length kvs < 2" using names by simp
  have dec: "\<forall>kv \<in> set kvs.
      (kv_key kv = inode_key f op \<or> kv_key kv = inode_key f np \<longrightarrow> DecodeInodeValue pb (kv_value kv) \<noteq> None)
    \<and> (kv_key kv = dentry_key f op on \<or> kv_key kv = dentry_key f np nn \<longrightarrow> DecodeDentryValue pb (kv_value kv) \<noteq> None)"
    by (rule rename_values_decode [OF rep assms(2) names kvs(6)])
  have m: "map_of (map kv_pair kvs) k = view t k" if "k \<in> set ?ks" for k
    using that by (simp add: kvs(3))
  have look: "map_of (map kv_pair kvs) (inode_key f op) = Some (EncodeInodeValue pb opa)"
    "map_of (map kv_pair kvs) (inode_key f np) = Some (EncodeInodeValue pb npa)"
    "map_of (map kv_pair kvs) (dentry_key f op on) = Some (EncodeDentryValue pb d)"
    "map_of (map kv_pair kvs) (dentry_key f np nn)
      = (case eo of None \<Rightarrow> None | Some (e, ea) \<Rightarrow> Some (EncodeDentryValue pb e))"
    using pre by (auto simp: m v rename_pre_def split: option.splits)
  show ?thesis
  proof (rule that [OF kvs(1) len])
    show "rename_load pb (op = np) (inode_key f op) (dentry_key f op on) (inode_key f np)
       (dentry_key f np nn) kvs
       \<lparr>rf_old_parent_attr = default_attr, rf_new_parent_attr = default_attr,
        rf_old_dentry = default_dentry, rf_prev_new_dentry = default_dentry\<rparr>
     = Some \<lparr>rf_old_parent_attr = opa, rf_new_parent_attr = npa, rf_old_dentry = d,
             rf_prev_new_dentry = (case eo of None \<Rightarrow> default_dentry | Some (e, ea) \<Rightarrow> e)\<rparr>"
      by (subst rename_load_eq [OF kvs(2) dec]) (use names ne in \<open>auto simp: look pb_ok_simps(1,2) [OF assms(2)] split: option.splits\<close>)
  qed
qed

lemma rename_missing_source:
  assumes "inv t" and "pb_ok pb" and f: "f > 0" and rep: "represents pb f (view t) s"
    and names: "on \<noteq> []" "nn \<noteq> []" and ne: "(op, on) \<noteq> (np, nn)"
    and "dents s (op, on) = None" and two: "inodes s op \<noteq> None"
      "op \<noteq> np \<and> inodes s np \<noteq> None \<or> dents s (np, nn) \<noteq> None"
  shows "RenameOperation_Run pb T time_ns f op on np nn t = None"
proof -
  let ?ks = "[inode_key f op, dentry_key f op on, dentry_key f np nn]
       @ (if op = np then [] else [inode_key f np])"
  have dist: "distinct ?ks" using names ne by auto
  obtain kvs where kvs: "BatchGet T ?ks t = Inr kvs" "distinct (map kv_key kvs)"
      "map_of (map kv_pair kvs) = view t |` set ?ks"
      "length kvs = card {k \<in> set ?ks. view t k \<noteq> None}"
      "\<And>kv. kv \<in> set kvs \<Longrightarrow> view t (kv_key kv) = Some (kv_value kv)"
    using batch_get_ex [OF assms(1) dist] by blast
  note v = represents_inodeD [OF rep] represents_dentryD [OF rep names(1)]
    represents_dentryD [OF rep names(2)]
  define k2 where "k2 = (if dents s (np, nn) \<noteq> None then dentry_key f np nn else inode_key f np)"
  have "{inode_key f op, k2} \<subseteq> {k \<in> set ?ks. view t k \<noteq> None}" and "inode_key f op \<noteq> k2"
    using two names v by (auto simp: k2_def)
  then have len: "2 \<le> length kvs"
    using card_mono [of "{k \<in> set ?ks. view t k \<noteq> None}" "{inode_key f op, k2}"] kvs(4) by simp
  have none: "map_of (map kv_pair kvs) (dentry_key f op on) = None"
    using v \<open>dents s (op, on) = None\<close> by (simp add: kvs(3) restrict_map_def)
  let ?r0 = "\<lparr>rf_old_parent_attr = default_attr, rf_new_parent_attr = default_attr,
    rf_old_dentry = default_dentry, rf_prev_new_dentry = default_dentry\<rparr>"
  have "\<exists>rf. rename_load pb (op = np) (inode_key f op) (dentry_key f op on)
      (inode_key f np) (dentry_key f np nn) kvs ?r0 = Some rf \<and> rf_old_dentry rf = default_dentry"
    by (subst rename_load_eq [OF kvs(2) rename_values_decode [OF rep assms(2) names kvs(5)]])
      (use names ne none in auto)
  then obtain rf where load: "rename_load pb (op = np) (inode_key f op) (dentry_key f op on)
        (inode_key f np) (dentry_key f np nn) kvs ?r0 = Some rf"
      and "rf_old_dentry rf = default_dentry"
    by blast
  then have z: "de_ino (rf_old_dentry rf) = 0" by (simp add: default_dentry_def)
  have "\<not> length kvs < 2" using len by simp
  then show ?thesis
    unfolding RenameOperation_Run_def using f kvs(1) load
    by (simp add: EncodeInodeKey_eq EncodeDentryKey_eq z CHECK_def)
qed

lemma rename_load_inodes_found:
  assumes "inv t" and "pb_ok pb" and rep: "represents pb f (view t) s"
    and pre: "rename_pre s op on np nn d oa opa npa eo"
  obtains kvs where
    "BatchGet T (inode_key f (de_ino d) #
       (case eo of None \<Rightarrow> [] | Some (e, ea) \<Rightarrow> [inode_key f (de_ino e)])) t = Inr kvs"
    "kvs \<noteq> []"
    "rename_load_inodes pb (inode_key f (de_ino d))
       (inode_key f (case eo of None \<Rightarrow> 0 | Some (e, ea) \<Rightarrow> de_ino e)) kvs (default_attr, default_attr)
     = Some (oa, case eo of None \<Rightarrow> default_attr | Some (e, ea) \<Rightarrow> ea)"
proof -
  let ?ks = "inode_key f (de_ino d) #
       (case eo of None \<Rightarrow> [] | Some (e, ea) \<Rightarrow> [inode_key f (de_ino e)])"
  note v = represents_inodeD [OF rep]
  have dist: "distinct ?ks" using pre by (auto simp: rename_pre_def split: option.splits)
  obtain kvs where kvs: "BatchGet T ?ks t = Inr kvs" "distinct (map kv_key kvs)"
      "map_of (map kv_pair kvs) = view t |` set ?ks"
      "set (map kv_key kvs) = {k \<in> set ?ks. view t k \<noteq> None}"
      "\<And>kv. kv \<in> set kvs \<Longrightarrow> view t (kv_key kv) = Some (kv_value kv)"
    using batch_get_ex [OF assms(1) dist] by blast
  have "inode_key f (de_ino d) \<in> set (map kv_key kvs)"
    unfolding kvs(4) using pre v by (auto simp: rename_pre_def)
  then have ne: "kvs \<noteq> []" by auto
  have "\<exists>i. kv_key kv = inode_key f i" if "kv \<in> set kvs" for kv
  proof -
    have "kv_key kv \<in> set ?ks" using kvs(4) that by auto
    then show ?thesis by (auto split: option.splits)
  qed
  then have dec: "\<forall>kv \<in> set kvs. DecodeInodeValue pb (kv_value kv) \<noteq> None"
    using kvs(5) inode_value_decodes [OF rep assms(2)] by blast
  show ?thesis
  proof (rule that [OF kvs(1) ne])
    show "rename_load_inodes pb (inode_key f (de_ino d))
       (inode_key f (case eo of None \<Rightarrow> 0 | Some (e, ea) \<Rightarrow> de_ino e)) kvs (default_attr, default_attr)
     = Some (oa, case eo of None \<Rightarrow> default_attr | Some (e, ea) \<Rightarrow> ea)"
      using rename_load_inodes_eq [OF kvs(2) dec] pre v pb_ok_simps(1) [OF assms(2)]
      by (auto simp: kvs(3) rename_pre_def restrict_map_def split: option.splits)
  qed
qed

lemma rename_refines:
  assumes "inv t" and "pb_ok pb" and f: "f > 0" and rep: "represents pb f (view t) s"
    and pre: "rename_pre s op on np nn d oa opa npa eo"
  shows "returns (RenameOperation_Run pb T time_ns f op on np nn t) (\<lambda>(r, t').
    inv t' \<and>
    (if \<exists>e ea. eo = Some (e, ea) \<and> de_type e = DIRECTORY \<and> \<not> dir_empty s (de_ino e)
     then r = Inl ENOT_EMPTY \<and> t' = t
     else (\<exists>rr. r = Inr rr \<and> rename_answer time_ns f op np nn d oa opa npa eo rr)
       \<and> represents pb f (view t') (spec_rename time_ns f op on np nn d oa opa npa eo s)))"
proof -
  obtain kvs where kvs: "BatchGet T ([inode_key f op, dentry_key f op on, dentry_key f np nn]
       @ (if op = np then [] else [inode_key f np])) t = Inr kvs" "\<not> length kvs < 2"
    and load: "rename_load pb (op = np) (inode_key f op) (dentry_key f op on) (inode_key f np)
       (dentry_key f np nn) kvs
       \<lparr>rf_old_parent_attr = default_attr, rf_new_parent_attr = default_attr,
        rf_old_dentry = default_dentry, rf_prev_new_dentry = default_dentry\<rparr>
     = Some \<lparr>rf_old_parent_attr = opa, rf_new_parent_attr = npa, rf_old_dentry = d,
             rf_prev_new_dentry = (case eo of None \<Rightarrow> default_dentry | Some (e, ea) \<Rightarrow> e)\<rparr>"
    using rename_load_found [OF assms(1,2) rep pre] by blast
  obtain kvs' where kvs': "BatchGet T (inode_key f (de_ino d) #
       (case eo of None \<Rightarrow> [] | Some (e, ea) \<Rightarrow> [inode_key f (de_ino e)])) t = Inr kvs'"
      "kvs' \<noteq> []"
      "rename_load_inodes pb (inode_key f (de_ino d))
         (inode_key f (case eo of None \<Rightarrow> 0 | Some (e, ea) \<Rightarrow> de_ino e)) kvs'
         (default_attr, default_attr)
       = Some (oa, case eo of None \<Rightarrow> default_attr | Some (e, ea) \<Rightarrow> ea)"
    using rename_load_inodes_found [OF assms(1,2) rep pre] by blast
  have pos: "0 < at_ino opa" "0 < at_ino npa" "0 < de_ino d"
    and names: "on \<noteq> []" "nn \<noteq> []" and same: "op = np \<Longrightarrow> npa = opa"
    using pre by (auto simp: rename_pre_def word_neq_0_conv [symmetric])
  define pe where "pe = (case eo of None \<Rightarrow> default_dentry | Some (e, ea) \<Rightarrow> e)"
  let ?rf = "\<lparr>rf_old_parent_attr = opa, rf_new_parent_attr = npa, rf_old_dentry = d,
             rf_prev_new_dentry = pe\<rparr>"
  define fin where "fin a t = rename_commit pb T time_ns f op np nn ?rf oa a (inode_key f op)
    (dentry_key f op on) (inode_key f np) (dentry_key f np nn)
    (inode_key f (de_ino (rf_old_dentry ?rf))) t" for a t
  have run: "RenameOperation_Run pb T time_ns f op on np nn t =
    (case eo of None \<Rightarrow> fin default_attr t
     | Some (e, ea) \<Rightarrow>
         rename_replace pb T time_ns f e ea (inode_key f (de_ino e)) t \<bind>
           (\<lambda>(r, t). case r of Inl status \<Rightarrow> Some (Inl status, t) | Inr a \<Rightarrow> fin a t))"
  proof -
    have ex: "de_ino pe = (case eo of None \<Rightarrow> 0 | Some (e, ea) \<Rightarrow> de_ino e)"
      by (auto simp: pe_def default_dentry_def split: option.splits)
    note base = RenameOperation_Run_def EncodeInodeKey_eq EncodeDentryKey_eq
    show ?thesis
    proof (cases eo)
      case None
      then show ?thesis
        unfolding fin_def using kvs load [folded pe_def] kvs' pos f ex by (simp add: base)
    next
      case (Some p)
      then obtain e ea where eo: "eo = Some (e, ea)" by (cases p) auto
      have pe: "pe = e" and "de_ino e \<noteq> 0"
        using pre by (auto simp: eo pe_def rename_pre_def)
      then show ?thesis
        unfolding fin_def pe using kvs load kvs' pos f by (simp add: base eo)
    qed
  qed
  have fin: "returns (fin a t1) (\<lambda>(r, t'). inv t' \<and>
      (\<exists>rr. r = Inr rr \<and> rename_answer time_ns f op np nn d oa opa npa eo rr)
       \<and> represents pb f (view t') (spec_rename time_ns f op on np nn d oa opa npa eo s))"
    if "inv t1" and "represents pb f (view t1) (case eo of None \<Rightarrow> s | Some (e, ea) \<Rightarrow> spec_replace time_ns e ea s)"
      and a: "\<And>e ea. eo = Some (e, ea) \<Longrightarrow> a = replaced time_ns e ea"
    for a t1
  proof -
    have ex: "de_ino pe \<noteq> 0 \<longleftrightarrow> eo \<noteq> None"
      using pre by (auto simp: pe_def default_dentry_def rename_pre_def split: option.splits)
    note c = rename_commit_refines [where rf = ?rf and d = d and op = op and np = np
        and time_ns = time_ns and oa = oa and pna = a,
        OF that(1,2) f names rename_found.select_convs(3), unfolded rename_found.select_convs ex]
    show ?thesis
      unfolding fin_def rename_found.select_convs
      by (rule returns_mono [OF c])
        (use a in \<open>auto simp: spec_rename_def rename_answer_def pe_def Let_def same cong: if_cong\<close>)
  qed
  show ?thesis
  proof (cases eo)
    case None
    have "returns (fin default_attr t) (\<lambda>(r, t'). inv t' \<and>
      (\<exists>rr. r = Inr rr \<and> rename_answer time_ns f op np nn d oa opa npa eo rr)
       \<and> represents pb f (view t') (spec_rename time_ns f op on np nn d oa opa npa eo s))"
      by (rule fin [OF assms(1)]) (use rep None in simp_all)
    then show ?thesis
      unfolding run by (simp add: None)
  next
    case (Some p)
    then obtain e ea where eo: "eo = Some (e, ea)" by (cases p) auto
    have e: "inodes s (de_ino e) = Some ea" "at_ino ea = de_ino e" "de_ino e \<noteq> 0" "de_ino e \<noteq> - 1"
      using pre by (auto simp: rename_pre_def eo)
    have fin': "inv t1 \<Longrightarrow> represents pb f (view t1) (spec_replace time_ns e ea s) \<Longrightarrow>
      returns (fin (replaced time_ns e ea) t1) (\<lambda>(r, t'). inv t' \<and>
      (\<exists>rr. r = Inr rr \<and> rename_answer time_ns f op np nn d oa opa npa eo rr)
       \<and> represents pb f (view t') (spec_rename time_ns f op on np nn d oa opa npa eo s))" for t1
      by (rule fin) (simp_all add: eo)
    show ?thesis
      unfolding run eo option.case prod.case
    proof (rule returns_bind, rule returns_mono [OF rename_replace_refines [OF assms(1) rep f e]])
      fix x
      assume x: "case x of (r, t') \<Rightarrow> inv t' \<and>
        (if de_type e = DIRECTORY \<and> \<not> dir_empty s (de_ino e) then r = Inl ENOT_EMPTY \<and> t' = t
         else r = Inr (replaced time_ns e ea) \<and> represents pb f (view t') (spec_replace time_ns e ea s))"
      show "returns (case x of (r, t) \<Rightarrow>
          (case r of Inl status \<Rightarrow> Some (Inl status, t) | Inr a \<Rightarrow> fin a t)) (\<lambda>(r, t').
        inv t' \<and>
        (if \<exists>e' ea'. Some (e, ea) = Some (e', ea') \<and> de_type e' = DIRECTORY \<and> \<not> dir_empty s (de_ino e')
         then r = Inl ENOT_EMPTY \<and> t' = t
         else (\<exists>rr. r = Inr rr \<and> rename_answer time_ns f op np nn d oa opa npa (Some (e, ea)) rr)
           \<and> represents pb f (view t')
               (spec_rename time_ns f op on np nn d oa opa npa (Some (e, ea)) s)))"
        using x fin' [unfolded eo]
        by (cases "de_type e = DIRECTORY \<and> \<not> dir_empty s (de_ino e)") auto
    qed
  qed
qed

end

end
