(* ===== verification/Links.thy ===== *)
theory Links
  imports Namespace
begin

text \<open>
  The invariant of the namespace: every entry leads to an existing inode of its type, every
  directory has exactly one name and a link count of two plus its subdirectories, every file
  has as many links as its count says. Each abstract operation keeps it, and with the
  refinement lemmas each store operation does.
\<close>

subsection \<open>The invariant\<close>

definition links_of :: "(u64 \<times> bytes \<rightharpoonup> DentryType) \<Rightarrow> u64 \<Rightarrow> (u64 \<times> bytes) set" where
  "links_of D i = {k. \<exists>d. D k = Some d \<and> de_ino d = i}"

definition subs_of :: "(u64 \<times> bytes \<rightharpoonup> DentryType) \<Rightarrow> u64 \<Rightarrow> bytes set" where
  "subs_of D i = {n. \<exists>d. D (i, n) = Some d \<and> de_type d = DIRECTORY}"

definition entry_ok :: "u32 \<Rightarrow> (u64 \<rightharpoonup> AttrType) \<Rightarrow> u64 \<Rightarrow> bytes \<Rightarrow> DentryType \<Rightarrow> bool" where
  "entry_ok f I p n d \<longleftrightarrow>
     n \<noteq> [] \<and> de_parent d = p \<and> de_name d = n \<and>
     (\<exists>a. I (de_ino d) = Some a \<and> at_type a = de_type d) \<and>
     (p \<noteq> 0 \<longrightarrow> (\<exists>a. I p = Some a \<and> at_type a = DIRECTORY))"

definition count_ok :: "AttrType \<Rightarrow> nat \<Rightarrow> nat \<Rightarrow> bool" where
  "count_ok a links subs \<longleftrightarrow>
     (if at_type a = DIRECTORY then links = 1 \<and> at_nlink a = of_nat (2 + subs)
      else 0 < links \<and> links < 2 ^ 32 \<and> at_nlink a = of_nat links)"

definition inode_ok :: "u32 \<Rightarrow> (u64 \<times> bytes \<rightharpoonup> DentryType) \<Rightarrow> u64 \<Rightarrow> AttrType \<Rightarrow> bool" where
  "inode_ok f D i a \<longleftrightarrow>
     at_ino a = i \<and> at_fs_id a = f \<and> count_ok a (card (links_of D i)) (card (subs_of D i))"

definition fs_ok :: "u32 \<Rightarrow> (u64 \<rightharpoonup> AttrType) \<Rightarrow> (u64 \<times> bytes \<rightharpoonup> DentryType) \<Rightarrow> bool" where
  "fs_ok f I D \<longleftrightarrow>
     finite (dom D) \<and> I 0 = None \<and>
     (\<forall>p n d. D (p, n) = Some d \<longrightarrow> entry_ok f I p n d) \<and>
     (\<forall>i a. I i = Some a \<longrightarrow> inode_ok f D i a)"

definition ns_ok :: "u32 \<Rightarrow> ns \<Rightarrow> bool" where
  "ns_ok f s \<longleftrightarrow> fs_ok f (inodes s) (dents s)"

subsection \<open>How entries change the counts\<close>

lemma finite_links_of [simp]: "finite (dom D) \<Longrightarrow> finite (links_of D i)"
  by (rule finite_subset [of _ "dom D"]) (auto simp: links_of_def)

lemma finite_subs_of [simp]: "finite (dom D) \<Longrightarrow> finite (subs_of D i)"
  by (rule finite_subset [of _ "snd ` dom D"]) (force simp: subs_of_def image_iff)+

lemma card_links_add:
  assumes "finite (dom D)" and "D k = None"
  shows "card (links_of (D(k \<mapsto> d)) i) = card (links_of D i) + (if de_ino d = i then 1 else 0)"
proof -
  have "links_of (D(k \<mapsto> d)) i = (if de_ino d = i then insert k (links_of D i) else links_of D i)"
    using assms(2) by (auto simp: links_of_def)
  moreover have "k \<notin> links_of D i" using assms(2) by (auto simp: links_of_def)
  ultimately show ?thesis using assms(1) by simp
qed

lemma card_links_del:
  assumes "finite (dom D)" and "D k = Some d"
  shows "card (links_of (D(k := None)) i) = card (links_of D i) - (if de_ino d = i then 1 else 0)"
    and "de_ino d = i \<Longrightarrow> 0 < card (links_of D i)"
proof -
  have e: "links_of (D(k := None)) i = links_of D i - {k}"
    by (auto simp: links_of_def)
  have m: "k \<in> links_of D i \<longleftrightarrow> de_ino d = i" using assms(2) by (auto simp: links_of_def)
  show "card (links_of (D(k := None)) i) = card (links_of D i) - (if de_ino d = i then 1 else 0)"
    unfolding e using m assms(1) by (auto simp: card_Diff_singleton_if)
  show "de_ino d = i \<Longrightarrow> 0 < card (links_of D i)"
    using m assms(1) by (auto simp: card_gt_0_iff)
qed

lemma card_subs_add:
  assumes "finite (dom D)" and "D (p, n) = None"
  shows "card (subs_of (D((p, n) \<mapsto> d)) i)
    = card (subs_of D i) + (if i = p \<and> de_type d = DIRECTORY then 1 else 0)"
proof -
  have "subs_of (D((p, n) \<mapsto> d)) i
      = (if i = p \<and> de_type d = DIRECTORY then insert n (subs_of D i) else subs_of D i)"
    using assms(2) by (auto simp: subs_of_def)
  moreover have "n \<notin> subs_of D p" using assms(2) by (auto simp: subs_of_def)
  ultimately show ?thesis using assms(1) by simp
qed

lemma card_subs_del:
  assumes "finite (dom D)" and "D (p, n) = Some d"
  shows "card (subs_of (D((p, n) := None)) i)
      = card (subs_of D i) - (if i = p \<and> de_type d = DIRECTORY then 1 else 0)"
    and "i = p \<Longrightarrow> de_type d = DIRECTORY \<Longrightarrow> 0 < card (subs_of D i)"
proof -
  have e: "subs_of (D((p, n) := None)) i = (if i = p then subs_of D i - {n} else subs_of D i)"
    by (auto simp: subs_of_def)
  have m: "n \<in> subs_of D p \<longleftrightarrow> de_type d = DIRECTORY" using assms(2) by (auto simp: subs_of_def)
  show "card (subs_of (D((p, n) := None)) i)
      = card (subs_of D i) - (if i = p \<and> de_type d = DIRECTORY then 1 else 0)"
    unfolding e using m assms(1) by (auto simp: card_Diff_singleton_if)
  show "i = p \<Longrightarrow> de_type d = DIRECTORY \<Longrightarrow> 0 < card (subs_of D i)"
    using m assms(1) by (auto simp: card_gt_0_iff)
qed

lemma fs_okD:
  assumes "fs_ok f I D"
  shows "finite (dom D)" and "I 0 = None"
    and "D (p, n) = Some d \<Longrightarrow> entry_ok f I p n d"
    and "I i = Some a \<Longrightarrow> inode_ok f D i a"
  using assms by (auto simp: fs_ok_def)

lemma no_links_unused:
  assumes "fs_ok f I D" and "I i = None"
  shows "card (links_of D i) = 0" and "i \<noteq> 0 \<Longrightarrow> card (subs_of D i) = 0"
proof -
  have "links_of D i = {}"
    using fs_okD(3) [OF assms(1)] assms(2) by (force simp: links_of_def entry_ok_def)
  then show "card (links_of D i) = 0" by simp
  have "i \<noteq> 0 \<Longrightarrow> subs_of D i = {}"
    using fs_okD(3) [OF assms(1)] assms(2) by (force simp: subs_of_def entry_ok_def)
  then show "i \<noteq> 0 \<Longrightarrow> card (subs_of D i) = 0" by simp
qed

lemma entry_ok_mono:
  assumes "entry_ok f I p n d"
    and "\<And>j b. I j = Some b \<Longrightarrow> j = de_ino d \<or> j = p \<Longrightarrow> \<exists>b'. I' j = Some b' \<and> at_type b' = at_type b"
  shows "entry_ok f I' p n d"
  using assms(1) assms(2) [of "de_ino d"] assms(2) [of p] by (fastforce simp: entry_ok_def)

text \<open>The attributes of an inode after an operation that may change its link count.\<close>

definition same_inode :: "AttrType \<Rightarrow> AttrType \<Rightarrow> bool" where
  "same_inode a b \<longleftrightarrow> at_ino a = at_ino b \<and> at_fs_id a = at_fs_id b \<and> at_type a = at_type b"

lemma same_inode_simps [simp]:
  "same_inode (touch t a) b \<longleftrightarrow> same_inode a b"
  "same_inode (bump a) b \<longleftrightarrow> same_inode a b"
  "same_inode (a\<lparr>at_nlink := x\<rparr>) b \<longleftrightarrow> same_inode a b"
  "same_inode (a\<lparr>at_ctime := y\<rparr>) b \<longleftrightarrow> same_inode a b"
  "same_inode (AddParentIno a q) b \<longleftrightarrow> same_inode a b"
  "same_inode (DelParentIno a q) b \<longleftrightarrow> same_inode a b"
  "same_inode a (b\<lparr>at_nlink := x\<rparr>) \<longleftrightarrow> same_inode a b"
  "same_inode a a"
  by (simp_all add: same_inode_def touch_def bump_def AddParentIno_def DelParentIno_def)

lemma at_nlink_simps [simp]:
  "at_nlink (touch t a) = at_nlink a" "at_nlink (bump a) = at_nlink a"
  "at_nlink (AddParentIno a q) = at_nlink a" "at_nlink (DelParentIno a q) = at_nlink a"
  by (simp_all add: touch_def bump_def AddParentIno_def DelParentIno_def)

subsection \<open>Every operation keeps the invariant\<close>

lemma fs_ok_create:
  assumes ok: "fs_ok f I D" and p: "I p = Some pa" "at_type pa = DIRECTORY"
    and free: "D (p, n) = None" "I i = None" and nz: "n \<noteq> []" "i \<noteq> 0"
    and a: "at_ino a = i" "at_fs_id a = f" "at_type a = de_type d"
      "at_nlink a = (if de_type d = DIRECTORY then 2 else 1)"
    and d: "de_ino d = i" "de_parent d = p" "de_name d = n"
    and pa': "same_inode pa' pa"
      "at_nlink pa' = at_nlink pa + (if de_type d = DIRECTORY then 1 else 0)"
  shows "fs_ok f (I(i \<mapsto> a, p \<mapsto> pa')) (D((p, n) \<mapsto> d))"
proof -
  let ?I = "I(i \<mapsto> a, p \<mapsto> pa')" and ?D = "D((p, n) \<mapsto> d)"
  note fin = fs_okD(1) [OF ok]
  have ip: "i \<noteq> p" using p free by auto
  have p0: "p \<noteq> 0" using p fs_okD(2) [OF ok] by auto
  have t: "at_type pa' = DIRECTORY" using pa' p by (simp add: same_inode_def)
  have "entry_ok f ?I q m e" if "?D (q, m) = Some e" for q m e
  proof (cases "(q, m) = (p, n)")
    case True
    then show ?thesis
      using that nz d a ip t by (auto simp: entry_ok_def)
  next
    case False
    then have "entry_ok f I q m e" using that fs_okD(3) [OF ok] by (auto split: if_splits)
    then show ?thesis
      by (rule entry_ok_mono) (use p free t in auto)
  qed
  moreover have "inode_ok f ?D j b" if "?I j = Some b" for j b
  proof -
    note cards = card_links_add [OF fin free(1)] card_subs_add [OF fin free(1)]
      no_links_unused [OF ok free(2)]
    consider "j = p" | "j = i" | "j \<noteq> i" "j \<noteq> p" by blast
    then show ?thesis
    proof cases
      case 1
      then show ?thesis
        using that p t pa' d ip fs_okD(4) [OF ok p(1)]
        by (auto simp: inode_ok_def count_ok_def cards same_inode_def)
    next
      case 2
      then show ?thesis
        using that a d ip nz by (auto simp: inode_ok_def count_ok_def cards)
    next
      case 3
      then show ?thesis
        using that d fs_okD(4) [OF ok, of j b] by (auto simp: inode_ok_def cards)
    qed
  qed
  ultimately show ?thesis
    using fin fs_okD(2) [OF ok] nz p0 by (auto simp: fs_ok_def)
qed

lemma fs_ok_link:
  assumes ok: "fs_ok f I D" and p: "I p = Some pa" "at_type pa = DIRECTORY"
    and free: "D (p, n) = None" and "n \<noteq> []"
    and i: "I i = Some a" "at_type a \<noteq> DIRECTORY" "at_type a = de_type d"
      "card (links_of D i) + 1 < 2 ^ 32"
    and d: "de_ino d = i" "de_parent d = p" "de_name d = n"
    and a': "same_inode a' a" "at_nlink a' = at_nlink a + 1"
  shows "fs_ok f (I(i \<mapsto> a')) (D((p, n) \<mapsto> d))"
proof -
  let ?I = "I(i \<mapsto> a')" and ?D = "D((p, n) \<mapsto> d)"
  note fin = fs_okD(1) [OF ok]
  have ip: "i \<noteq> p" using p i by auto
  have t: "at_type a' = at_type a" using a' by (simp add: same_inode_def)
  have "entry_ok f ?I q m e" if "?D (q, m) = Some e" for q m e
  proof (cases "(q, m) = (p, n)")
    case True
    then show ?thesis using that assms(5) d i t p ip by (auto simp: entry_ok_def)
  next
    case False
    then have "entry_ok f I q m e" using that fs_okD(3) [OF ok] by (auto split: if_splits)
    then show ?thesis by (rule entry_ok_mono) (use i t in auto)
  qed
  moreover have "inode_ok f ?D j b" if "?I j = Some b" for j b
  proof -
    note cards = card_links_add [OF fin free] card_subs_add [OF fin free]
    show ?thesis
    proof (cases "j = i")
      case True
      then show ?thesis
        using that i t a' d fs_okD(4) [OF ok i(1)]
        by (auto simp: inode_ok_def count_ok_def cards same_inode_def)
    next
      case False
      then show ?thesis
        using that i d fs_okD(4) [OF ok, of j b] by (auto simp: inode_ok_def cards)
    qed
  qed
  ultimately show ?thesis
    using fin fs_okD(2) [OF ok] i by (auto simp: fs_ok_def)
qed

lemma of_nat_u32_eq_0: "m < 2 ^ 32 \<Longrightarrow> (of_nat m :: u32) = 0 \<longleftrightarrow> m = 0"
proof -
  assume "m < 2 ^ 32"
  then have "unat (of_nat m :: u32) = m" by (simp add: unsigned_of_nat take_bit_nat_eq_self)
  then show ?thesis using unat_eq_zero [of "of_nat m :: u32"] by linarith
qed

lemma nlink_decrement:
  assumes "0 < n" and "n < 2 ^ 32"
  shows "(of_nat n - 1 :: u32) = of_nat (n - 1)" and "(of_nat n - 1 :: u32) = 0 \<longleftrightarrow> n = 1"
proof -
  show e: "(of_nat n - 1 :: u32) = of_nat (n - 1)" using assms(1) by simp
  have "(of_nat (n - 1) :: u32) = 0 \<longleftrightarrow> n - 1 = 0"
    using assms(2) by (intro of_nat_u32_eq_0) linarith
  then show "(of_nat n - 1 :: u32) = 0 \<longleftrightarrow> n = 1" unfolding e using assms(1) by linarith
qed

lemma single_link:
  assumes "finite (dom D)" and "card (links_of D i) = 1" and "D k = Some d" and "de_ino d = i"
  shows "D k' = Some d' \<Longrightarrow> de_ino d' = i \<Longrightarrow> k' = k"
proof -
  assume "D k' = Some d'" "de_ino d' = i"
  then have "{k, k'} \<subseteq> links_of D i" using assms(3,4) by (auto simp: links_of_def)
  then show "k' = k" using assms(2) by (metis card_1_singletonE insert_subset singletonD)
qed

lemma fs_ok_unlink:
  assumes ok: "fs_ok f I D" and e: "D (p, n) = Some d" "de_ino d = i" "de_type d \<noteq> DIRECTORY"
    and p: "I p = Some pa" "same_inode pa' pa" "at_nlink pa' = at_nlink pa"
    and i: "I i = Some a" "same_inode a' a" "at_nlink a' = at_nlink a - 1"
  shows "fs_ok f (I(p \<mapsto> pa', i := (if at_nlink a' = 0 then None else Some a'))) (D((p, n) := None))"
proof -
  define I' where "I' = I(p \<mapsto> pa', i := (if at_nlink a' = 0 then None else Some a'))"
  define D' where "D' = D((p, n) := None)"
  note fin = fs_okD(1) [OF ok]
  have ent: "entry_ok f I p n d" using fs_okD(3) [OF ok e(1)] .
  have nz: "p \<noteq> 0" "i \<noteq> 0" using p i fs_okD(2) [OF ok] by auto
  have tp: "at_type pa = DIRECTORY" using ent p nz by (auto simp: entry_ok_def)
  have ti: "at_type a \<noteq> DIRECTORY" using ent e i by (auto simp: entry_ok_def)
  have ip: "i \<noteq> p" using tp ti p i by auto
  have cnt: "0 < card (links_of D i)" "card (links_of D i) < 2 ^ 32"
      "at_nlink a = of_nat (card (links_of D i))"
    using fs_okD(4) [OF ok i(1)] ti by (simp_all add: inode_ok_def count_ok_def)
  have z: "at_nlink a' = 0 \<longleftrightarrow> card (links_of D i) = 1"
    using nlink_decrement(2) [OF cnt(1,2)] i(3) cnt(3) by simp
  have I'_eqs: "I' p = Some pa'" "at_nlink a' \<noteq> 0 \<Longrightarrow> I' i = Some a'" "at_nlink a' = 0 \<Longrightarrow> I' i = None"
      "j \<noteq> i \<Longrightarrow> j \<noteq> p \<Longrightarrow> I' j = I j" for j
    using ip by (simp_all add: I'_def)
  have "entry_ok f I' q m g" if g: "D' (q, m) = Some g" for q m g
  proof -
    have qm: "(q, m) \<noteq> (p, n)" and old: "D (q, m) = Some g"
      using g by (auto simp: D'_def split: if_splits)
    have gi: "at_nlink a' \<noteq> 0" if "de_ino g = i"
      using single_link [OF fin _ e(1,2) old that] z qm by blast
    have qi: "q \<noteq> i"
      using fs_okD(3) [OF ok old] i(1) ti nz by (auto simp: entry_ok_def)
    have ty: "at_type pa' = at_type pa" "at_type a' = at_type a"
      using p i by (simp_all add: same_inode_def)
    show ?thesis
    proof (rule entry_ok_mono [OF fs_okD(3) [OF ok old]])
      fix j b assume j: "I j = Some b" "j = de_ino g \<or> j = q"
      consider "j = i" | "j = p" | "j \<noteq> i" "j \<noteq> p" by blast
      then show "\<exists>b'. I' j = Some b' \<and> at_type b' = at_type b"
        by cases (use j gi qi p i ty I'_eqs in auto)
    qed
  qed
  moreover have "inode_ok f D' j b" if "I' j = Some b" for j b
  proof -
    have cl: "card (links_of D' j) = card (links_of D j) - (if i = j then 1 else 0)" for j
      using card_links_del(1) [OF fin e(1)] e(2) by (simp add: D'_def)
    have cs: "card (subs_of D' j) = card (subs_of D j)" for j
      using card_subs_del(1) [OF fin e(1)] e(3) by (simp add: D'_def)
    consider "j = i" | "j = p" | "j \<noteq> i" "j \<noteq> p" by blast
    then show ?thesis
    proof cases
      case 1
      then have b: "b = a'" "at_nlink a' \<noteq> 0"
        using that I'_eqs(2,3) by (cases "at_nlink a' = 0"; simp)+
      have "at_nlink a' = of_nat (card (links_of D i) - 1)"
        using i(3) cnt(3) nlink_decrement(1) [OF cnt(1,2)] by simp
      moreover have "card (links_of D' i) = card (links_of D i) - 1" using cl by simp
      moreover have "0 < card (links_of D i) - 1" using b(2) z cnt(1) by linarith
      moreover have "card (links_of D i) - 1 < 2 ^ 32" using cnt(2) by linarith
      ultimately show ?thesis
        using 1 b i(2) ti fs_okD(4) [OF ok i(1)]
        by (simp only: inode_ok_def count_ok_def same_inode_def if_False simp_thms)
    next
      case 2
      then show ?thesis
        using that p ip tp I'_eqs(1) fs_okD(4) [OF ok p(1)]
        by (simp add: inode_ok_def count_ok_def cl cs same_inode_def)
    next
      case 3
      then show ?thesis
        using that fs_okD(4) [OF ok, of j b] I'_eqs(4) [of j] by (simp add: inode_ok_def cl cs)
    qed
  qed
  moreover have "finite (dom D')" and "I' 0 = None"
    using fin fs_okD(2) [OF ok] nz I'_eqs(4) [of 0] by (auto simp: D'_def)
  ultimately have "fs_ok f I' D'" by (simp add: fs_ok_def)
  then show ?thesis unfolding I'_def D'_def .
qed

lemma fs_ok_rmdir:
  assumes ok: "fs_ok f I D" and e: "D (p, n) = Some d" "de_ino d = i" "de_type d = DIRECTORY"
    and empty: "\<And>m. D (i, m) = None"
    and p: "I p = Some pa" "same_inode pa' pa" "at_nlink pa' = at_nlink pa - 1"
  shows "fs_ok f (I(p \<mapsto> pa', i := None)) (D((p, n) := None))"
proof -
  let ?I = "I(p \<mapsto> pa', i := None)" and ?D = "D((p, n) := None)"
  note fin = fs_okD(1) [OF ok]
  have ent: "entry_ok f I p n d" using fs_okD(3) [OF ok e(1)] .
  then obtain a where a: "I i = Some a" "at_type a = DIRECTORY" using e by (auto simp: entry_ok_def)
  have p0: "p \<noteq> 0" using p fs_okD(2) [OF ok] by auto
  have tp: "at_type pa = DIRECTORY" using ent p p0 by (auto simp: entry_ok_def)
  have ip: "i \<noteq> p" using empty e(1) by auto
  have one: "card (links_of D i) = 1"
    using fs_okD(4) [OF ok a(1)] a(2) by (simp add: inode_ok_def count_ok_def)
  have "entry_ok f ?I q m g" if g: "?D (q, m) = Some g" for q m g
  proof -
    have qm: "(q, m) \<noteq> (p, n)" and old: "D (q, m) = Some g" using g by (auto split: if_splits)
    have gi: "de_ino g \<noteq> i" using single_link [OF fin one e(1,2) old] qm by auto
    have qi: "q \<noteq> i" using old empty by auto
    show ?thesis
    proof (rule entry_ok_mono [OF fs_okD(3) [OF ok old]])
      fix j b assume j: "I j = Some b" "j = de_ino g \<or> j = q"
      then show "\<exists>b'. ?I j = Some b' \<and> at_type b' = at_type b"
        by (cases "j = p") (use gi qi p in \<open>auto simp: same_inode_def\<close>)
    qed
  qed
  moreover have "inode_ok f ?D j b" if "?I j = Some b" for j b
  proof -
    note cards = card_links_del [OF fin e(1)] card_subs_del [OF fin e(1)]
    have ji: "j \<noteq> i" using that by auto
    show ?thesis
    proof (cases "j = p")
      case True
      have "0 < card (subs_of D p)" using cards(4) e(3) by simp
      then show ?thesis
        using True that p e ip tp fs_okD(4) [OF ok p(1)]
        by (auto simp: inode_ok_def count_ok_def cards(1,3) same_inode_def)
    next
      case False
      then show ?thesis
        using ji that e fs_okD(4) [OF ok, of j b] by (auto simp: inode_ok_def cards(1,3))
    qed
  qed
  ultimately show ?thesis
    using fin fs_okD(2) [OF ok] p0 by (auto simp: fs_ok_def)
qed

lemma fs_ok_move:
  assumes ok: "fs_ok f I D" and e: "D (op, on) = Some d" "de_ino d = i"
    and free: "D (np, nn) = None" and nn: "nn \<noteq> []"
    and par: "I op = Some opa" "I np = Some npa" "at_type npa = DIRECTORY"
    and ne: "i \<noteq> op" "i \<noteq> np"
    and d': "de_ino d' = i" "de_type d' = de_type d" "de_parent d' = np" "de_name d' = nn"
    and i: "I i = Some oa" "same_inode oa' oa" "at_nlink oa' = at_nlink oa"
    and op': "same_inode opa' opa" "at_nlink opa' =
      at_nlink opa - (if de_type d = DIRECTORY \<and> op \<noteq> np then 1 else 0)"
    and np': "op \<noteq> np \<Longrightarrow> same_inode npa' npa" "op \<noteq> np \<Longrightarrow> at_nlink npa' =
      at_nlink npa + (if de_type d = DIRECTORY then 1 else 0)"
  shows "fs_ok f (if op = np then I(i \<mapsto> oa', op \<mapsto> opa') else I(i \<mapsto> oa', op \<mapsto> opa', np \<mapsto> npa'))
    (D((op, on) := None, (np, nn) \<mapsto> d'))"
proof -
  define I' where
    "I' = (if op = np then I(i \<mapsto> oa', op \<mapsto> opa') else I(i \<mapsto> oa', op \<mapsto> opa', np \<mapsto> npa'))"
  define D1 where "D1 = D((op, on) := None)"
  define D' where "D' = D1((np, nn) \<mapsto> d')"
  note fin = fs_okD(1) [OF ok]
  have fin1: "finite (dom D1)" and free1: "D1 (np, nn) = None" using fin free by (auto simp: D1_def)
  have ent: "entry_ok f I op on d" using fs_okD(3) [OF ok e(1)] .
  have nz: "op \<noteq> 0" "np \<noteq> 0" "i \<noteq> 0" using par i fs_okD(2) [OF ok] by auto
  have to: "at_type opa = DIRECTORY" and ti: "at_type oa = de_type d"
    using ent par i e nz by (auto simp: entry_ok_def)
  have I'_eqs: "I' i = Some oa'" "I' op = Some opa'" "op \<noteq> np \<Longrightarrow> I' np = Some npa'"
      "j \<noteq> i \<Longrightarrow> j \<noteq> op \<Longrightarrow> j \<noteq> np \<Longrightarrow> I' j = I j" for j
    using ne by (simp_all add: I'_def)
  have same: "same_inode oa' oa" "same_inode opa' opa" "op \<noteq> np \<Longrightarrow> same_inode npa' npa"
    by fact+
  have keep: "\<exists>b'. I' j = Some b' \<and> at_type b' = at_type b" if "I j = Some b" for j b
  proof -
    consider "j = i" | "j = op" | "j = np" "op \<noteq> np" | "j \<noteq> i" "j \<noteq> op" "j \<noteq> np" by blast
    then show ?thesis
      by cases (use that i par I'_eqs same in \<open>auto simp: same_inode_def\<close>)
  qed
  have "entry_ok f I' q m g" if g: "D' (q, m) = Some g" for q m g
  proof (cases "(q, m) = (np, nn)")
    case True
    then have "g = d'" using g by (simp add: D'_def)
    then show ?thesis
      using True nn d' ti keep [OF i(1)] keep [OF par(2)] par(3) by (auto simp: entry_ok_def)
  next
    case False
    then have "D (q, m) = Some g" using g by (auto simp: D'_def D1_def split: if_splits)
    then have "entry_ok f I q m g" by (rule fs_okD(3) [OF ok])
    then show ?thesis by (rule entry_ok_mono) (rule keep)
  qed
  moreover have "inode_ok f D' j b" if "I' j = Some b" for j b
  proof -
    have cl: "card (links_of D' j) = card (links_of D j)" for j
      using card_links_add [OF fin1 free1, of d' j] card_links_del [OF fin e(1), of j, folded D1_def]
        e(2) d'(1)
      by (simp add: D'_def)
    have cs: "card (subs_of D' j) = card (subs_of D j)
        - (if j = op \<and> de_type d = DIRECTORY then 1 else 0)
        + (if j = np \<and> de_type d = DIRECTORY then 1 else 0)" for j
      using card_subs_add [OF fin1 free1, of d' j] card_subs_del(1) [OF fin e(1), of j, folded D1_def]
        d'(2)
      by (simp add: D'_def)
    have pos: "de_type d = DIRECTORY \<Longrightarrow> 0 < card (subs_of D op)"
      using card_subs_del(2) [OF fin e(1)] by simp
    have old: "I j = Some b' \<Longrightarrow> inode_ok f D j b'" for b' using fs_okD(4) [OF ok] .
    consider "j = i" | "j = op" | "j = np" "op \<noteq> np" | "j \<noteq> i" "j \<noteq> op" "j \<noteq> np" by blast
    then show ?thesis
    proof cases
      case 1
      then show ?thesis
        using that i ne old [of oa] I'_eqs(1)
        by (auto simp: inode_ok_def count_ok_def cl cs same_inode_def)
    next
      case 2
      then show ?thesis
        using that par op' to pos old [of opa] I'_eqs(2)
        by (auto simp: inode_ok_def count_ok_def cl cs same_inode_def)
    next
      case 3
      then show ?thesis
        using that par np' old [of npa] I'_eqs(3)
        by (auto simp: inode_ok_def count_ok_def cl cs same_inode_def)
    next
      case 4
      then show ?thesis
        using that old [of b] I'_eqs(4) [of j] by (auto simp: inode_ok_def cl cs)
    qed
  qed
  moreover have "finite (dom D')" and "I' 0 = None"
    using fin1 fs_okD(2) [OF ok] nz I'_eqs(4) [of 0] by (auto simp: D'_def)
  ultimately have "fs_ok f I' D'" by (simp add: fs_ok_def)
  then show ?thesis unfolding I'_def D'_def D1_def .
qed

subsection \<open>The operations of the abstract file system\<close>

lemma CopyTo_simps [simp]:
  "de_ino (CopyTo d) = d_ino d" "de_type (CopyTo d) = d_type d" "de_parent (CopyTo d) = d_parent d"
  "de_name (CopyTo d) = d_name d" "de_fs_id (CopyTo d) = d_fs_id d"
  by (simp_all add: CopyTo_def)

text \<open>A new inode with its first name.\<close>

definition create_guard :: "u32 \<Rightarrow> Dentry \<Rightarrow> AttrType \<Rightarrow> AttrType \<Rightarrow> ns \<Rightarrow> bool" where
  "create_guard f d a pa s \<longleftrightarrow>
     inodes s (d_parent d) = Some pa \<and> at_type pa = DIRECTORY \<and>
     dents s (d_parent d, d_name d) = None \<and> inodes s (d_ino d) = None \<and>
     d_name d \<noteq> [] \<and> d_ino d \<noteq> 0 \<and> d_fs_id d = f \<and>
     at_ino a = d_ino d \<and> at_fs_id a = f \<and> at_type a = d_type d \<and>
     at_nlink a = (if d_type d = DIRECTORY then 2 else 1)"

lemma ns_ok_create:
  assumes "ns_ok f s" and "create_guard f d a pa s"
  shows "ns_ok f (spec_create t d a pa s)"
  using assms unfolding ns_ok_def create_guard_def
  by (auto simp: spec_create_def intro!: fs_ok_create)

definition root_attr_ok :: "u32 \<Rightarrow> Dentry \<Rightarrow> AttrType \<Rightarrow> bool" where
  "root_attr_ok f d a \<longleftrightarrow>
     d_parent d = 0 \<and> d_ino d = 1 \<and> d_name d \<noteq> [] \<and> d_type d = DIRECTORY \<and> d_fs_id d = f \<and>
     at_ino a = 1 \<and> at_fs_id a = f \<and> at_type a = DIRECTORY \<and> at_nlink a = 2"

definition ns_empty :: ns where
  "ns_empty = \<lparr>inodes = Map.empty, dents = Map.empty, delfiles = Map.empty\<rparr>"

lemma ns_ok_root:
  assumes "root_attr_ok f d a"
  shows "ns_ok f (spec_create_root d a ns_empty)"
proof -
  have l: "links_of [(0, d_name d) \<mapsto> CopyTo d] 1 = {(0, d_name d)}"
    and s: "subs_of [(0, d_name d) \<mapsto> CopyTo d] 1 = {}"
    using assms by (auto simp: links_of_def subs_of_def root_attr_ok_def split: if_splits)
  show ?thesis
    using assms
    by (auto simp: ns_ok_def fs_ok_def spec_create_root_def ns_empty_def root_attr_ok_def
        entry_ok_def inode_ok_def count_ok_def l s)
qed

definition link_guard :: "u32 \<Rightarrow> Dentry \<Rightarrow> AttrType \<Rightarrow> AttrType \<Rightarrow> ns \<Rightarrow> bool" where
  "link_guard f d a pa s \<longleftrightarrow>
     inodes s (d_parent d) = Some pa \<and> at_type pa = DIRECTORY \<and>
     dents s (d_parent d, d_name d) = None \<and> d_name d \<noteq> [] \<and> d_fs_id d = f \<and>
     inodes s (d_ino d) = Some a \<and> at_type a \<noteq> DIRECTORY \<and> d_type d = at_type a \<and>
     card (links_of (dents s) (d_ino d)) + 1 < 2 ^ 32"

lemma ns_ok_hard_link:
  assumes "ns_ok f s" and "link_guard f d a pa s"
  shows "ns_ok f (spec_hard_link t d a s)"
  using assms unfolding ns_ok_def link_guard_def
  by (auto simp: spec_hard_link_def intro!: fs_ok_link [where pa = pa and a = a])

definition unlink_guard :: "u32 \<Rightarrow> Dentry \<Rightarrow> AttrType \<Rightarrow> AttrType \<Rightarrow> ns \<Rightarrow> bool" where
  "unlink_guard f d a pa s \<longleftrightarrow>
     inodes s (d_parent d) = Some pa \<and> inodes s (d_ino d) = Some a \<and>
     dents s (d_parent d, d_name d) = Some (CopyTo d) \<and> d_type d \<noteq> DIRECTORY \<and> d_fs_id d = f"

lemma ns_ok_unlink:
  assumes ok: "ns_ok f s" and g: "unlink_guard f d a pa s"
  shows "ns_ok f (spec_unlink t d pa a s)"
proof -
  have "fs_ok f ((inodes s)(d_parent d \<mapsto> bump (touch t pa),
      d_ino d := (if at_nlink (unlinked t a) = 0 then None else Some (unlinked t a))))
    ((dents s)((d_parent d, d_name d) := None))"
    using g ok unfolding ns_ok_def unlink_guard_def
    by (intro fs_ok_unlink [where d = "CopyTo d" and pa = pa and a = a]) (auto simp: unlinked_def)
  then show ?thesis
    by (auto simp: ns_ok_def spec_unlink_def drop_link_def)
qed

definition rmdir_guard :: "u32 \<Rightarrow> Dentry \<Rightarrow> AttrType \<Rightarrow> ns \<Rightarrow> bool" where
  "rmdir_guard f d pa s \<longleftrightarrow>
     inodes s (d_parent d) = Some pa \<and> dents s (d_parent d, d_name d) = Some (CopyTo d) \<and>
     d_type d = DIRECTORY \<and> d_fs_id d = f \<and> dir_empty s (d_ino d)"

lemma ns_ok_rmdir:
  assumes "ns_ok f s" and "rmdir_guard f d pa s"
  shows "ns_ok f (spec_rmdir t d pa s)"
  using assms unfolding ns_ok_def rmdir_guard_def dir_empty_def
  by (auto simp: spec_rmdir_def intro!: fs_ok_rmdir [where d = "CopyTo d" and pa = pa])

text \<open>
  A rename is safe for the counts when the target, if there is one, is of the same kind (and
  empty if a directory), and a directory is not moved into itself.
\<close>

definition rename_guard ::
    "ns \<Rightarrow> u64 \<Rightarrow> bytes \<Rightarrow> u64 \<Rightarrow> bytes \<Rightarrow> DentryType \<Rightarrow> AttrType \<Rightarrow> AttrType \<Rightarrow> AttrType
      \<Rightarrow> (DentryType \<times> AttrType) option \<Rightarrow> bool" where
  "rename_guard s op on np nn d oa opa npa eo \<longleftrightarrow>
     rename_pre s op on np nn d oa opa npa eo \<and> at_type npa = DIRECTORY \<and>
     de_ino d \<noteq> op \<and> de_ino d \<noteq> np \<and>
     (case eo of None \<Rightarrow> True
      | Some (e, ea) \<Rightarrow> (de_type d = DIRECTORY \<longleftrightarrow> de_type e = DIRECTORY)
          \<and> (de_type e = DIRECTORY \<longrightarrow> dir_empty s (de_ino e)))"

lemma renamed_simps [simp]:
  "same_inode (renamed t op np oa) b \<longleftrightarrow> same_inode oa b" "at_nlink (renamed t op np oa) = at_nlink oa"
  by (simp_all add: renamed_def)

lemma parent_after_simps [simp]:
  "same_inode (old_parent_after t same ex d a) b \<longleftrightarrow> same_inode a b"
  "same_inode (new_parent_after t ex d a) b \<longleftrightarrow> same_inode a b"
  "at_nlink (old_parent_after t same ex d a) =
     at_nlink a - (if de_type d = DIRECTORY \<and> (\<not> same \<or> ex) then 1 else 0)"
  "at_nlink (new_parent_after t ex d a) =
     at_nlink a + (if de_type d = DIRECTORY \<and> \<not> ex then 1 else 0)"
  by (simp_all add: old_parent_after_def new_parent_after_def)

lemma moved_dentry_simps [simp]:
  "de_ino (moved_dentry f np nn d) = de_ino d" "de_type (moved_dentry f np nn d) = de_type d"
  "de_parent (moved_dentry f np nn d) = np" "de_name (moved_dentry f np nn d) = nn"
  by (simp_all add: moved_dentry_def)

lemma ns_ok_rename_plain:
  assumes "ns_ok f s" and "rename_guard s op on np nn d oa opa npa None"
  shows "ns_ok f (spec_rename t f op on np nn d oa opa npa None s)"
proof -
  have "fs_ok f (if op = np
      then (inodes s)(de_ino d \<mapsto> renamed t op np oa, op \<mapsto> old_parent_after t (op = np) False d opa)
      else (inodes s)(de_ino d \<mapsto> renamed t op np oa, op \<mapsto> old_parent_after t (op = np) False d opa,
        np \<mapsto> new_parent_after t False d npa))
    ((dents s)((op, on) := None, (np, nn) \<mapsto> moved_dentry f np nn d))"
    using assms unfolding ns_ok_def rename_guard_def rename_pre_def
    by (intro fs_ok_move [where d = d and opa = opa and npa = npa and oa = oa]) auto
  then show ?thesis by (auto simp: ns_ok_def spec_rename_def Let_def split: if_splits)
qed

lemma replace_fs_ok:
  fixes t :: u64
  assumes ok: "ns_ok f s" and g: "rename_guard s op on np nn d oa opa npa (Some (e, ea))"
  defines "x \<equiv> (if de_type e = DIRECTORY \<or> at_nlink (replaced t e ea) = 0 then None
                else Some (replaced t e ea))"
  defines "npa1 \<equiv> npa\<lparr>at_nlink := at_nlink npa - (if de_type e = DIRECTORY then 1 else 0)\<rparr>"
  shows "fs_ok f ((inodes s)(np \<mapsto> npa1, de_ino e := x)) ((dents s)((np, nn) := None))"
proof (cases "de_type e = DIRECTORY")
  case True
  then show ?thesis
    using ok g unfolding ns_ok_def rename_guard_def rename_pre_def dir_empty_def x_def npa1_def
    by (auto intro!: fs_ok_rmdir [where d = e and pa = npa])
next
  case False
  have n: "npa1 = npa" using False by (simp add: npa1_def)
  have "fs_ok f ((inodes s)(np \<mapsto> npa1,
      de_ino e := (if at_nlink (replaced t e ea) = 0 then None else Some (replaced t e ea))))
    ((dents s)((np, nn) := None))"
    using ok g False unfolding ns_ok_def rename_guard_def rename_pre_def n
    by (intro fs_ok_unlink [where d = e and pa = npa and a = ea]) (auto simp: replaced_def)
  then show ?thesis using False by (simp add: x_def)
qed

lemma ns_ok_rename:
  assumes ok: "ns_ok f s" and g: "rename_guard s op on np nn d oa opa npa eo"
  shows "ns_ok f (spec_rename t f op on np nn d oa opa npa eo s)"
proof (cases eo)
  case None
  then show ?thesis using ns_ok_rename_plain assms by simp
next
  case (Some q)
  then obtain e ea where eo: "eo = Some (e, ea)" by (cases q) auto
  note g = g [unfolded eo]
  define x where "x = (if de_type e = DIRECTORY \<or> at_nlink (replaced t e ea) = 0 then None
                else Some (replaced t e ea))"
  define npa1 where
    "npa1 = npa\<lparr>at_nlink := at_nlink npa - (if de_type e = DIRECTORY then 1 else 0)\<rparr>"
  define I1 where "I1 = (inodes s)(np \<mapsto> npa1, de_ino e := x)"
  define D1 where "D1 = (dents s)((np, nn) := None)"
  have fs1: "fs_ok f I1 D1"
    unfolding I1_def D1_def x_def npa1_def by (rule replace_fs_ok [OF ok g])
  have pre: "rename_pre s op on np nn d oa opa npa (Some (e, ea))"
    and kind: "de_type d = DIRECTORY \<longleftrightarrow> de_type e = DIRECTORY" "at_type npa = DIRECTORY"
      "de_ino d \<noteq> op" "de_ino d \<noteq> np"
    using g by (auto simp: rename_guard_def)
  have dirs: "at_type opa = DIRECTORY" "op \<noteq> 0"
    using ok pre fs_okD(3) [of f "inodes s" "dents s" op on d]
    by (auto simp: ns_ok_def rename_pre_def entry_ok_def fs_okD(2))
  have ne: "de_ino e \<noteq> op" "de_ino e \<noteq> np"
  proof -
    have "at_type ea = de_type e"
      using ok pre fs_okD(3) [of f "inodes s" "dents s" np nn e]
      by (auto simp: ns_ok_def rename_pre_def entry_ok_def)
    then show "de_ino e \<noteq> op" "de_ino e \<noteq> np"
      using g pre dirs kind by (auto simp: rename_guard_def rename_pre_def dir_empty_def)
  qed
  have look: "D1 (op, on) = Some d" "D1 (np, nn) = None" "nn \<noteq> []"
      "I1 op = Some (if op = np then npa1 else opa)" "I1 np = Some npa1" "I1 (de_ino d) = Some oa"
    using pre ne kind by (auto simp: D1_def I1_def rename_pre_def)
  have same: "op = np \<Longrightarrow> npa = opa" using pre by (auto simp: rename_pre_def)
  have "fs_ok f (if op = np
      then I1(de_ino d \<mapsto> renamed t op np oa, op \<mapsto> old_parent_after t (op = np) True d opa)
      else I1(de_ino d \<mapsto> renamed t op np oa, op \<mapsto> old_parent_after t (op = np) True d opa,
        np \<mapsto> new_parent_after t True d npa))
    (D1((op, on) := None, (np, nn) \<mapsto> moved_dentry f np nn d))"
    by (rule fs_ok_move [OF fs1 look(1) refl look(2-5)])
      (use look kind same in \<open>auto simp: npa1_def\<close>)
  moreover have "inodes (spec_replace t e ea s) = (inodes s)(de_ino e := x)"
    by (simp add: spec_replace_def drop_link_def x_def)
  moreover have "dents (spec_replace t e ea s) = dents s"
    by (simp add: spec_replace_def drop_link_def)
  ultimately show ?thesis
    using ne pre by (auto simp: ns_ok_def spec_rename_def eo Let_def I1_def D1_def rename_pre_def
        fun_upd_twist split: if_splits)
qed

lemma ns_ok_update:
  assumes ok: "ns_ok f s" and i: "inodes s i = Some a" "same_inode a' a" "at_nlink a' = at_nlink a"
  shows "ns_ok f (s\<lparr>inodes := (inodes s)(i \<mapsto> a')\<rparr>)"
proof -
  have ok': "fs_ok f (inodes s) (dents s)" using ok by (simp add: ns_ok_def)
  have t: "at_type a' = at_type a" using i(2) by (simp add: same_inode_def)
  have "entry_ok f ((inodes s)(i \<mapsto> a')) p n d" if "dents s (p, n) = Some d" for p n d
    by (rule entry_ok_mono [OF fs_okD(3) [OF ok' that]]) (use i t in auto)
  moreover have "inode_ok f (dents s) i a'"
    using fs_okD(4) [OF ok' i(1)] i(2,3)
    by (simp add: inode_ok_def count_ok_def same_inode_def split: if_splits)
  then have "inode_ok f (dents s) j b" if "((inodes s)(i \<mapsto> a')) j = Some b" for j b
    using that fs_okD(4) [OF ok', of j b] by (simp split: if_splits)
  moreover have "i \<noteq> 0" using fs_okD(2) [OF ok'] i by auto
  ultimately show ?thesis
    using fs_okD(1,2) [OF ok'] by (simp add: ns_ok_def fs_ok_def)
qed

subsection \<open>Reachable file systems\<close>

text \<open>
  The file systems that the operations build from a fresh root. \<open>update\<close> covers attribute,
  extended attribute and chunk updates and the version that a batch adds.
\<close>

inductive ns_reach :: "u32 \<Rightarrow> ns \<Rightarrow> bool" for f where
  root: "root_attr_ok f d a \<Longrightarrow> ns_reach f (spec_create_root d a ns_empty)"
| create: "ns_reach f s \<Longrightarrow> create_guard f d a pa s \<Longrightarrow> ns_reach f (spec_create t d a pa s)"
| hard_link: "ns_reach f s \<Longrightarrow> link_guard f d a pa s \<Longrightarrow> ns_reach f (spec_hard_link t d a s)"
| unlink: "ns_reach f s \<Longrightarrow> unlink_guard f d a pa s \<Longrightarrow> ns_reach f (spec_unlink t d pa a s)"
| rmdir: "ns_reach f s \<Longrightarrow> rmdir_guard f d pa s \<Longrightarrow> ns_reach f (spec_rmdir t d pa s)"
| rename: "ns_reach f s \<Longrightarrow> rename_guard s op on np nn d oa opa npa eo \<Longrightarrow>
    ns_reach f (spec_rename t f op on np nn d oa opa npa eo s)"
| update: "ns_reach f s \<Longrightarrow> inodes s i = Some a \<Longrightarrow> same_inode a' a \<Longrightarrow> at_nlink a' = at_nlink a \<Longrightarrow>
    ns_reach f (s\<lparr>inodes := (inodes s)(i \<mapsto> a')\<rparr>)"

lemma ns_reach_ok: "ns_reach f s \<Longrightarrow> ns_ok f s"
  by (induction rule: ns_reach.induct)
    (simp_all add: ns_ok_root ns_ok_create ns_ok_hard_link ns_ok_unlink ns_ok_rmdir ns_ok_rename
      ns_ok_update)

lemma ns_ok_counts:
  assumes "ns_ok f s" and "inodes s i = Some a"
  shows "at_type a \<noteq> DIRECTORY \<Longrightarrow> unat (at_nlink a) = card (links_of (dents s) i)"
    and "at_type a \<noteq> DIRECTORY \<Longrightarrow> 0 < card (links_of (dents s) i)"
    and "at_type a = DIRECTORY \<Longrightarrow> card (links_of (dents s) i) = 1"
    and "at_type a = DIRECTORY \<Longrightarrow> at_nlink a = of_nat (2 + card (subs_of (dents s) i))"
  using fs_okD(4) [of f "inodes s" "dents s" i a] assms
  by (simp_all add: ns_ok_def inode_ok_def count_ok_def unsigned_of_nat take_bit_nat_eq_self
      split: if_splits)

lemma ns_ok_names:
  assumes "ns_ok f s" and "dents s (p, n) = Some d"
  shows "\<exists>a. inodes s (de_ino d) = Some a \<and> at_type a = de_type d"
    and "p \<noteq> 0 \<Longrightarrow> \<exists>a. inodes s p = Some a \<and> at_type a = DIRECTORY"
    and "de_parent d = p" and "de_name d = n" and "n \<noteq> []"
  using fs_okD(3) [of f "inodes s" "dents s" p n d] assms by (auto simp: ns_ok_def entry_ok_def)

end
