(* ===== verification/Example.thy ===== *)
theory Example
  imports Links
begin

text \<open>
  A small file system on which the properties are applied: a root directory, a file with the two
  names \<open>a\<close> and \<open>c\<close> and a directory \<open>b\<close> with an empty directory \<open>e\<close>, all built with the operations of the abstract
  file system, and a transaction of the reference client that stores it.
\<close>

definition ex_root :: Dentry where
  "ex_root = \<lparr>d_name = [47], d_fs_id = 1, d_ino = 1, d_parent = 0, d_type = DIRECTORY, d_flag = 0\<rparr>"

definition ex_entry :: "u64 \<Rightarrow> byte \<Rightarrow> u64 \<Rightarrow> FileType \<Rightarrow> Dentry" where
  "ex_entry p n i ty = \<lparr>d_name = [n], d_fs_id = 1, d_ino = i, d_parent = p, d_type = ty, d_flag = 0\<rparr>"

definition ex_attr :: "u64 \<Rightarrow> FileType \<Rightarrow> u32 \<Rightarrow> AttrType" where
  "ex_attr i ty n = default_attr\<lparr>at_fs_id := 1, at_ino := i, at_type := ty, at_nlink := n\<rparr>"

definition ex_a :: Dentry where "ex_a = ex_entry 1 97 2 FILE"
definition ex_b :: Dentry where "ex_b = ex_entry 1 98 3 DIRECTORY"
definition ex_c :: Dentry where "ex_c = ex_entry 1 99 2 FILE"
definition ex_e :: Dentry where "ex_e = ex_entry 3 101 4 DIRECTORY"

text \<open>The inode of the file once it has its second name.\<close>

definition ex_file :: AttrType where
  "ex_file = (ex_attr 2 FILE 2)\<lparr>at_version := 1, at_parents := [1]\<rparr>"

definition ex_ns :: ns where
  "ex_ns =
     \<lparr>inodes = [1 \<mapsto> ex_attr 1 DIRECTORY 3, 2 \<mapsto> ex_file, 3 \<mapsto> ex_attr 3 DIRECTORY 3,
                4 \<mapsto> ex_attr 4 DIRECTORY 2],
      dents = [(0, [47]) \<mapsto> CopyTo ex_root, (1, [97]) \<mapsto> CopyTo ex_a, (1, [98]) \<mapsto> CopyTo ex_b,
               (1, [99]) \<mapsto> CopyTo ex_c, (3, [101]) \<mapsto> CopyTo ex_e],
      delfiles = Map.empty\<rparr>"

definition ex_store :: "(bytes, val) omap" where
  "ex_store =
     om_insert (dentry_key 1 3 [101]) (EncodeDentryValue val_pb (CopyTo ex_e))
     (om_insert (dentry_key 1 1 [99]) (EncodeDentryValue val_pb (CopyTo ex_c))
     (om_insert (dentry_key 1 1 [98]) (EncodeDentryValue val_pb (CopyTo ex_b))
     (om_insert (dentry_key 1 1 [97]) (EncodeDentryValue val_pb (CopyTo ex_a))
     (om_insert (dentry_key 1 0 [47]) (EncodeDentryValue val_pb (CopyTo ex_root))
     (om_insert (inode_key 1 4) (EncodeInodeValue val_pb (ex_attr 4 DIRECTORY 2))
     (om_insert (inode_key 1 3) (EncodeInodeValue val_pb (ex_attr 3 DIRECTORY 3))
     (om_insert (inode_key 1 2) (EncodeInodeValue val_pb ex_file)
     (om_insert (inode_key 1 1) (EncodeInodeValue val_pb (ex_attr 1 DIRECTORY 3)) []))))))))"

definition ex_txn :: "val ref_client DingodbTxn" where
  "ex_txn = \<lparr>sdk_txn = \<lparr>committed = ex_store, working = ex_store, raced = False\<rparr>, is_conflict = False\<rparr>"

text \<open>The view and the invariant of the reference client.\<close>

definition ref_view :: "'v ref_client \<Rightarrow> bytes \<rightharpoonup> 'v" where
  "ref_view c = om_find (working c)"

definition ref_inv :: "'v ref_client \<Rightarrow> bool" where
  "ref_inv c \<longleftrightarrow> om_ok (working c)"

lemma ref_contract: "sdk_contract ref_sdk ref_view ref_inv"
  using ref_client.sdk_contract_axioms unfolding ref_view_def [abs_def] ref_inv_def [abs_def] .

lemmas ex_defs = ex_root_def ex_entry_def ex_attr_def ex_a_def ex_b_def ex_c_def ex_e_def ex_file_def
  default_attr_def

lemma ex_represents: "represents val_pb 1 (ref_view (sdk_txn ex_txn)) ex_ns"
proof -
  have "rep val_pb 1 (om_find ([] :: (bytes, val) omap)) Map.empty Map.empty Map.empty"
    by (simp add: rep_def store_wf_def om_find_def [abs_def])
  then show ?thesis
    unfolding represents_def ref_view_def ex_txn_def ex_store_def ex_ns_def
    by (simp only: DingodbTxn.simps ref_client.simps ns.simps om_find_insert)
      (intro rep_intros; simp)
qed

lemma ex_inv: "ref_inv (sdk_txn ex_txn)"
  unfolding ref_inv_def ex_txn_def ex_store_def DingodbTxn.simps ref_client.simps
  by (intro om_ok_insert om_ok_Nil)

lemma ex_reach: "ns_reach 1 ex_ns"
proof -
  let ?r = "ex_attr 1 DIRECTORY 2"
  let ?s0 = "spec_create_root ex_root ?r ns_empty"
  let ?s1 = "spec_create 0 ex_a (ex_attr 2 FILE 1) ?r ?s0"
  let ?s2 = "spec_create 0 ex_b (ex_attr 3 DIRECTORY 2) ?r ?s1"
  let ?s3 = "spec_create 0 ex_e (ex_attr 4 DIRECTORY 2) (ex_attr 3 DIRECTORY 2) ?s2"
  note [simp] = ex_defs spec_create_root_def spec_create_def ns_empty_def touch_def
  have 0: "ns_reach 1 ?s0" by (rule ns_reach.root) (simp add: root_attr_ok_def)
  have 1: "ns_reach 1 ?s1" by (rule ns_reach.create [OF 0]) (simp add: create_guard_def)
  have 2: "ns_reach 1 ?s2" by (rule ns_reach.create [OF 1]) (simp add: create_guard_def)
  have 3: "ns_reach 1 ?s3" by (rule ns_reach.create [OF 2]) (simp add: create_guard_def)
  have l: "links_of (dents ?s3) 2 = {(1, [97])}"
    by (auto simp: links_of_def split: if_splits)
  have "ns_reach 1 (spec_hard_link 0 ex_c (ex_attr 2 FILE 1) ?s3)"
    by (rule ns_reach.hard_link [OF 3, where pa = "ex_attr 1 DIRECTORY 3"])
      (use l in \<open>simp add: link_guard_def\<close>)
  moreover have "spec_hard_link 0 ex_c (ex_attr 2 FILE 1) ?s3 = ex_ns"
    by (simp add: spec_hard_link_def ex_ns_def bump_def AddParentIno_def fun_eq_iff)
  ultimately show ?thesis by (simp only:)
qed

lemma ex_ns_simps [simp]:
  "inodes ex_ns 1 = Some (ex_attr 1 DIRECTORY 3)" "inodes ex_ns 2 = Some ex_file"
  "inodes ex_ns 3 = Some (ex_attr 3 DIRECTORY 3)" "inodes ex_ns 4 = Some (ex_attr 4 DIRECTORY 2)"
  "inodes ex_ns 0 = None"
  "dents ex_ns (1, [97]) = Some (CopyTo ex_a)" "dents ex_ns (1, [98]) = Some (CopyTo ex_b)"
  "dents ex_ns (1, [99]) = Some (CopyTo ex_c)" "dents ex_ns (3, [101]) = Some (CopyTo ex_e)"
  "dents ex_ns (1, [100]) = None" "dents ex_ns (4, [100]) = None"
  by (simp_all add: ex_ns_def)

lemma ex_inodes_ino: "inodes ex_ns i = Some a \<Longrightarrow> at_ino a = i"
  by (auto simp: ex_ns_def ex_defs split: if_splits)

lemma ex_links: "links_of (dents ex_ns) 2 = {(1, [97]), (1, [99])}"
  by (auto simp: links_of_def ex_ns_def ex_defs split: if_splits)

lemma ex_dir_empty: "dir_empty ex_ns 4" "\<not> dir_empty ex_ns 3"
  by (auto simp: dir_empty_def ex_ns_def)

end
