(* ===== verification/FsOps.thy ===== *)
theory FsOps
  imports Example "HOL-Library.Multiset"
begin

text \<open>
  The operations of \<^verbatim>\<open>mdsv2/filesystem/store_operation.cc\<close> outside the namespace: mounting and
  deleting a file system, the quotas of file systems and directories, and the heartbeat records
  of servers and clients. The last sections relate them to the store: mount points by client,
  usage that is added exactly once, scans that read everything or do not end.
\<close>

subsection \<open>File systems\<close>

definition IsExistMountPoint :: "FsInfoType \<Rightarrow> MountPoint \<Rightarrow> bool" where
  "IsExistMountPoint fs_info mountpoint =
     list_ex (\<lambda>mp. mp_client_id mp = mp_client_id mountpoint) (fi_mount_points fs_info)"

definition MountFsOperation_Run ::
    "'v pb \<Rightarrow> ('t, 'v) Txn \<Rightarrow> u64 \<Rightarrow> bytes \<Rightarrow> MountPoint \<Rightarrow> 't \<Rightarrow> ((Status + unit) \<times> 't) option" where
  "MountFsOperation_Run pb T time_ns fs_name mount_point t = do {
     key \<leftarrow> EncodeFSKey fs_name;
     case Get T key t of
       Inl status \<Rightarrow> Some (Inl ENOT_FOUND, t)
     | Inr v \<Rightarrow> do {
         fs_info \<leftarrow> DecodeFSValue pb v;
         if IsExistMountPoint fs_info mount_point then Some (Inl EEXISTED, t)
         else do {
           let fs_info = fs_info\<lparr>fi_mount_points := fi_mount_points fs_info @ [mount_point],
                                 fi_last_update_time_ns := time_ns\<rparr>;
           t \<leftarrow> tx_put T key (EncodeFSValue pb fs_info) t;
           Some (Inr (), t)
         }
       }
   }"

text \<open>
  \<^verbatim>\<open>RemoveMountPoint\<close>: the first mount point of the client is swapped with the last one, which
  is then removed.
\<close>

definition swap_remove :: "nat \<Rightarrow> 'a list \<Rightarrow> 'a list" where
  "swap_remove i xs = butlast (xs[i := last xs, length xs - 1 := xs ! i])"

fun RemoveMountPoint_from :: "nat \<Rightarrow> MountPoint list \<Rightarrow> bytes \<Rightarrow> MountPoint list" where
  "RemoveMountPoint_from 0 mps client_id = mps"
| "RemoveMountPoint_from (Suc k) mps client_id =
     (let i = length mps - Suc k in
      if mp_client_id (mps ! i) = client_id then swap_remove i mps
      else RemoveMountPoint_from k mps client_id)"

definition RemoveMountPoint :: "FsInfoType \<Rightarrow> MountPoint \<Rightarrow> FsInfoType" where
  "RemoveMountPoint fs_info mountpoint =
     fs_info\<lparr>fi_mount_points :=
       RemoveMountPoint_from (length (fi_mount_points fs_info)) (fi_mount_points fs_info)
         (mp_client_id mountpoint)\<rparr>"

definition UmountFsOperation_Run ::
    "'v pb \<Rightarrow> ('t, 'v) Txn \<Rightarrow> u64 \<Rightarrow> bytes \<Rightarrow> MountPoint \<Rightarrow> 't \<Rightarrow> ((Status + unit) \<times> 't) option" where
  "UmountFsOperation_Run pb T time_ns fs_name mount_point t = do {
     key \<leftarrow> EncodeFSKey fs_name;
     case Get T key t of
       Inl status \<Rightarrow> Some (Inl ENOT_FOUND, t)
     | Inr v \<Rightarrow> do {
         fs_info \<leftarrow> DecodeFSValue pb v;
         let fs_info = (RemoveMountPoint fs_info mount_point)\<lparr>fi_last_update_time_ns := time_ns\<rparr>;
         t \<leftarrow> tx_put T key (EncodeFSValue pb fs_info) t;
         Some (Inr (), t)
       }
   }"

text \<open>\<open>now_s\<close> is \<^verbatim>\<open>Helper::Timestamp()\<close>.\<close>

definition DeleteFsOperation_Run ::
    "'v pb \<Rightarrow> ('t, 'v) Txn \<Rightarrow> u64 \<Rightarrow> bytes \<Rightarrow> bool \<Rightarrow> 't
      \<Rightarrow> ((Status + FsInfoType) \<times> 't) option" where
  "DeleteFsOperation_Run pb T now_s fs_name is_force t = do {
     fs_key \<leftarrow> EncodeFSKey fs_name;
     case Get T fs_key t of
       Inl status \<Rightarrow> Some (Inl status, t)
     | Inr v \<Rightarrow> do {
         fs_info \<leftarrow> DecodeFSValue pb v;
         if \<not> is_force \<and> length (fi_mount_points fs_info) > 0 then Some (Inl EEXISTED, t)
         else do {
           t \<leftarrow> tx_delete T fs_key t;
           Some (Inr (fs_info\<lparr>fi_is_deleted := True, fi_delete_time_s := now_s\<rparr>), t)
         }
       }
   }"

subsection \<open>Quotas\<close>

text \<open>
  A read whose missing key counts as an empty value: the message then keeps its default.
\<close>

definition read_quota ::
    "'v pb \<Rightarrow> ('v \<Rightarrow> QuotaEntry option) \<Rightarrow> Status + 'v \<Rightarrow> (Status + QuotaEntry) option" where
  "read_quota pb decode r =
     (case r of
        Inl status \<Rightarrow> Some (if status \<noteq> ENOT_FOUND then Inl status else Inr default_quota)
      | Inr v \<Rightarrow> if value_empty pb v then Some (Inr default_quota)
                 else map_option Inr (decode v))"

definition SetFsQuotaOperation_Run ::
    "'v pb \<Rightarrow> ('t, 'v) Txn \<Rightarrow> u32 \<Rightarrow> QuotaEntry \<Rightarrow> 't \<Rightarrow> ((Status + unit) \<times> 't) option" where
  "SetFsQuotaOperation_Run pb T fs_id quota t = do {
     key \<leftarrow> EncodeFsQuotaKey fs_id;
     r \<leftarrow> read_quota pb (DecodeFsQuotaValue pb) (Get T key t);
     case r of
       Inl status \<Rightarrow> Some (Inl status, t)
     | Inr fs_quota \<Rightarrow> do {
         let fs_quota = fs_quota\<lparr>
           q_max_bytes := (if q_gt pb (q_max_bytes quota) 0 then q_max_bytes quota else - 1),
           q_max_inodes := (if q_gt pb (q_max_inodes quota) 0 then q_max_inodes quota else - 1)\<rparr>;
         let fs_quota = (if q_gt pb (q_used_inodes quota) 0 \<and> q_used_inodes fs_quota = 0
                         then fs_quota\<lparr>q_used_inodes := q_used_inodes quota\<rparr> else fs_quota);
         t \<leftarrow> tx_put T key (EncodeFsQuotaValue pb fs_quota) t;
         Some (Inr (), t)
       }
   }"

definition GetFsQuotaOperation_Run ::
    "'v pb \<Rightarrow> ('t, 'v) Txn \<Rightarrow> u32 \<Rightarrow> 't \<Rightarrow> ((Status + QuotaEntry) \<times> 't) option" where
  "GetFsQuotaOperation_Run pb T fs_id t = do {
     key \<leftarrow> EncodeFsQuotaKey fs_id;
     case Get T key t of
       Inl status \<Rightarrow> Some (Inl status, t)
     | Inr v \<Rightarrow> do { quota \<leftarrow> DecodeFsQuotaValue pb v; Some (Inr quota, t) }
   }"

definition add_usage :: "UsageEntry \<Rightarrow> QuotaEntry \<Rightarrow> QuotaEntry" where
  "add_usage usage quota =
     quota\<lparr>q_used_bytes := q_used_bytes quota + us_bytes usage,
           q_used_inodes := q_used_inodes quota + us_inodes usage\<rparr>"

definition FlushFsUsageOperation_Run ::
    "'v pb \<Rightarrow> ('t, 'v) Txn \<Rightarrow> u32 \<Rightarrow> UsageEntry \<Rightarrow> 't \<Rightarrow> ((Status + QuotaEntry) \<times> 't) option" where
  "FlushFsUsageOperation_Run pb T fs_id usage t = do {
     key \<leftarrow> EncodeFsQuotaKey fs_id;
     case Get T key t of
       Inl status \<Rightarrow> Some (Inl status, t)
     | Inr v \<Rightarrow> do {
         fs_quota \<leftarrow> DecodeFsQuotaValue pb v;
         let fs_quota = add_usage usage fs_quota;
         t \<leftarrow> tx_put T key (EncodeFsQuotaValue pb fs_quota) t;
         Some (Inr fs_quota, t)
       }
   }"

definition DeleteFsQuotaOperation_Run ::
    "('t, 'v) Txn \<Rightarrow> u32 \<Rightarrow> 't \<Rightarrow> ((Status + unit) \<times> 't) option" where
  "DeleteFsQuotaOperation_Run T fs_id t = do {
     key \<leftarrow> EncodeFsQuotaKey fs_id;
     t \<leftarrow> tx_delete T key t;
     Some (Inr (), t)
   }"

definition SetDirQuotaOperation_Run ::
    "'v pb \<Rightarrow> ('t, 'v) Txn \<Rightarrow> u32 \<Rightarrow> u64 \<Rightarrow> QuotaEntry \<Rightarrow> 't \<Rightarrow> ((Status + unit) \<times> 't) option" where
  "SetDirQuotaOperation_Run pb T fs_id ino quota t = do {
     key \<leftarrow> EncodeDirQuotaKey fs_id ino;
     r \<leftarrow> read_quota pb (DecodeDirQuotaValue pb) (Get T key t);
     case r of
       Inl status \<Rightarrow> Some (Inl status, t)
     | Inr dir_quota \<Rightarrow> do {
         let dir_quota = dir_quota\<lparr>q_max_bytes := q_max_bytes quota,
                                   q_max_inodes := q_max_inodes quota\<rparr>;
         t \<leftarrow> tx_put T key (EncodeDirQuotaValue pb dir_quota) t;
         Some (Inr (), t)
       }
   }"

definition GetDirQuotaOperation_Run ::
    "'v pb \<Rightarrow> ('t, 'v) Txn \<Rightarrow> u32 \<Rightarrow> u64 \<Rightarrow> 't \<Rightarrow> ((Status + QuotaEntry) \<times> 't) option" where
  "GetDirQuotaOperation_Run pb T fs_id ino t = do {
     key \<leftarrow> EncodeDirQuotaKey fs_id ino;
     case Get T key t of
       Inl status \<Rightarrow> Some (Inl status, t)
     | Inr v \<Rightarrow>
         if value_empty pb v then Some (Inr default_quota, t)
         else do { dir_quota \<leftarrow> DecodeDirQuotaValue pb v; Some (Inr dir_quota, t) }
   }"

definition DeleteDirQuotaOperation_Run ::
    "('t, 'v) Txn \<Rightarrow> u32 \<Rightarrow> u64 \<Rightarrow> 't \<Rightarrow> ((Status + unit) \<times> 't) option" where
  "DeleteDirQuotaOperation_Run T fs_id ino t = do {
     key \<leftarrow> EncodeDirQuotaKey fs_id ino;
     t \<leftarrow> tx_delete T key t;
     Some (Inr (), t)
   }"

definition FLAGS_fs_scan_batch_size :: nat where
  "FLAGS_fs_scan_batch_size = 10000"

fun load_quotas ::
    "'v pb \<Rightarrow> 'v KeyValue list \<Rightarrow> (u64, QuotaEntry) omap \<Rightarrow> (u64, QuotaEntry) omap option" where
  "load_quotas pb [] quotas = Some quotas"
| "load_quotas pb (kv # kvs) quotas =
     (if length (kv_key kv) \<noteq> DirQuotaKeyLength then load_quotas pb kvs quotas
      else do {
        (fs_id, ino) \<leftarrow> DecodeDirQuotaKey (kv_key kv);
        quota \<leftarrow> DecodeDirQuotaValue pb (kv_value kv);
        load_quotas pb kvs (om_insert ino quota quotas)
      })"

definition LoadDirQuotasOperation_Run ::
    "'v pb \<Rightarrow> ('t, 'v) Txn \<Rightarrow> u32 \<Rightarrow> 't \<Rightarrow> ((Status + (u64, QuotaEntry) omap) \<times> 't) option" where
  "LoadDirQuotasOperation_Run pb T fs_id t =
     (let (s, e) = GetDirQuotaRange fs_id in
      case Scan T \<lparr>start_key = s, end_key = e\<rparr> (of_nat FLAGS_fs_scan_batch_size) t of
        Inl status \<Rightarrow> Some (Inl status, t)
      | Inr kvs \<Rightarrow> do { quotas \<leftarrow> load_quotas pb kvs []; Some (Inr quotas, t) })"

fun flush_usages ::
    "'v pb \<Rightarrow> ('t, 'v) Txn \<Rightarrow> (u64, UsageEntry) omap \<Rightarrow> 'v KeyValue list \<Rightarrow> (u64, QuotaEntry) omap
      \<Rightarrow> 't \<Rightarrow> ((u64, QuotaEntry) omap \<times> 't) option" where
  "flush_usages pb T usages [] quotas t = Some (quotas, t)"
| "flush_usages pb T usages (kv # kvs) quotas t = do {
     (fs_id, ino) \<leftarrow> DecodeDirQuotaKey (kv_key kv);
     quota \<leftarrow> DecodeDirQuotaValue pb (kv_value kv);
     case om_find usages ino of
       None \<Rightarrow> flush_usages pb T usages kvs quotas t
     | Some usage \<Rightarrow> do {
         let quota = add_usage usage quota;
         t \<leftarrow> tx_put T (kv_key kv) (EncodeDirQuotaValue pb quota) t;
         flush_usages pb T usages kvs (om_insert ino quota quotas) t
       }
   }"

definition FlushDirUsagesOperation_Run ::
    "'v pb \<Rightarrow> ('t, 'v) Txn \<Rightarrow> u32 \<Rightarrow> (u64, UsageEntry) omap \<Rightarrow> 't
      \<Rightarrow> ((Status + (u64, QuotaEntry) omap) \<times> 't) option" where
  "FlushDirUsagesOperation_Run pb T fs_id usages t = do {
     keys \<leftarrow> those (map (\<lambda>(ino, usage). EncodeDirQuotaKey fs_id ino) usages);
     case BatchGet T keys t of
       Inl status \<Rightarrow> Some (Inl status, t)
     | Inr kvs \<Rightarrow> do {
         (quotas, t) \<leftarrow> flush_usages pb T usages kvs [] t;
         Some (Inr quotas, t)
       }
   }"

subsection \<open>Heartbeat records\<close>

definition UpsertMdsOperation_Run ::
    "'v pb \<Rightarrow> ('t, 'v) Txn \<Rightarrow> MdsEntry \<Rightarrow> 't \<Rightarrow> ((Status + unit) \<times> 't) option" where
  "UpsertMdsOperation_Run pb T mds t = do {
     t \<leftarrow> tx_put T (EncodeHeartbeatKey_mds (ROLE_MDS pb) (mds_id_of mds))
            (EncodeHeartbeatValue_mds pb mds) t;
     Some (Inr (), t)
   }"

definition DeleteMdsOperation_Run ::
    "'v pb \<Rightarrow> ('t, 'v) Txn \<Rightarrow> u64 \<Rightarrow> 't \<Rightarrow> ((Status + unit) \<times> 't) option" where
  "DeleteMdsOperation_Run pb T mds_id t = do {
     t \<leftarrow> tx_delete T (EncodeHeartbeatKey_mds (ROLE_MDS pb) mds_id) t;
     Some (Inr (), t)
   }"

definition UpsertClientOperation_Run ::
    "'v pb \<Rightarrow> ('t, 'v) Txn \<Rightarrow> ClientEntry \<Rightarrow> 't \<Rightarrow> ((Status + unit) \<times> 't) option" where
  "UpsertClientOperation_Run pb T client t = do {
     t \<leftarrow> tx_put T (EncodeHeartbeatKey_client (ROLE_CLIENT pb) (client_id_of client))
            (EncodeHeartbeatValue_client pb client) t;
     Some (Inr (), t)
   }"

definition DeleteClientOperation_Run ::
    "'v pb \<Rightarrow> ('t, 'v) Txn \<Rightarrow> bytes \<Rightarrow> 't \<Rightarrow> ((Status + unit) \<times> 't) option" where
  "DeleteClientOperation_Run pb T client_id t = do {
     t \<leftarrow> tx_delete T (EncodeHeartbeatKey_client (ROLE_CLIENT pb) client_id) t;
     Some (Inr (), t)
   }"

text \<open>
  The body of a scan: the values of the keys the filter accepts. The loop around it scans the
  same range again while a scan fills the batch, so it is a partial function.
\<close>

fun collect :: "(bytes \<Rightarrow> bool option) \<Rightarrow> ('v \<Rightarrow> 'a option) \<Rightarrow> 'v KeyValue list \<Rightarrow> 'a list option" where
  "collect accept decode [] = Some []"
| "collect accept decode (kv # kvs) = do {
     a \<leftarrow> accept (kv_key kv);
     if a then do {
       x \<leftarrow> decode (kv_value kv);
       xs \<leftarrow> collect accept decode kvs;
       Some (x # xs)
     } else collect accept decode kvs
   }"

partial_function (option) scan_all ::
    "(unit \<Rightarrow> Status + 'v KeyValue list) \<Rightarrow> nat \<Rightarrow> ('v KeyValue list \<Rightarrow> 'a list option) \<Rightarrow> 'a list
      \<Rightarrow> (Status + 'a list) option" where
  "scan_all scan batch body acc =
     (case scan () of
        Inl status \<Rightarrow> Some (Inl status)
      | Inr kvs \<Rightarrow> do {
          xs \<leftarrow> body kvs;
          if length kvs \<ge> batch then scan_all scan batch body (acc @ xs)
          else Some (Inr (acc @ xs))
        })"

definition ScanMdsOperation_Run ::
    "'v pb \<Rightarrow> ('t, 'v) Txn \<Rightarrow> 't \<Rightarrow> ((Status + MdsEntry list) \<times> 't) option" where
  "ScanMdsOperation_Run pb T t = do {
     let (s, e) = GetHeartbeatMdsRange (ROLE_MDS pb);
     r \<leftarrow> scan_all
            (\<lambda>_. Scan T \<lparr>start_key = s, end_key = e\<rparr> (of_nat FLAGS_fs_scan_batch_size) t)
            FLAGS_fs_scan_batch_size
            (collect (IsMdsHeartbeatKey (ROLE_MDS pb)) (DecodeHeartbeatValue_mds pb)) [];
     Some (r, t)
   }"

definition ScanClientOperation_Run ::
    "'v pb \<Rightarrow> ('t, 'v) Txn \<Rightarrow> 't \<Rightarrow> ((Status + ClientEntry list) \<times> 't) option" where
  "ScanClientOperation_Run pb T t = do {
     let (s, e) = GetHeartbeatClientRange (ROLE_CLIENT pb);
     r \<leftarrow> scan_all
            (\<lambda>_. Scan T \<lparr>start_key = s, end_key = e\<rparr> (of_nat FLAGS_fs_scan_batch_size) t)
            FLAGS_fs_scan_batch_size
            (collect (IsClientHeartbeatKey (ROLE_CLIENT pb)) (DecodeHeartbeatValue_client pb)) [];
     Some (r, t)
   }"

subsection \<open>Mount points\<close>

lemma filter_distinct_key:
  "distinct (map g (ys @ x # zs)) \<Longrightarrow> filter (\<lambda>m. g m \<noteq> g x) (ys @ x # zs) = ys @ zs"
  by (auto intro!: arg_cong2 [where f = append] filter_True) (metis image_eqI)+

lemma mset_swap_remove:
  assumes "i < length xs"
  shows "mset (swap_remove i xs) = mset xs - {#xs ! i#}"
proof -
  let ?n = "length xs - 1"
  have "xs \<noteq> []" using assms by auto
  then have n: "?n < length xs" and last: "last xs = xs ! ?n"
    by (simp_all add: last_conv_nth)
  let ?ys = "xs[i := xs ! ?n, ?n := xs ! i]"
  have "mset ?ys = mset xs" by (rule mset_swap [OF n assms])
  moreover have ne: "?ys \<noteq> []" using n by auto
  moreover have "last ?ys = xs ! i" using last_conv_nth [OF ne] n by simp
  ultimately have "mset xs = mset (butlast ?ys) + {#xs ! i#}"
    by (metis append_butlast_last_id mset_append mset_single_iff)
  then show ?thesis by (simp add: swap_remove_def last)
qed

lemma mset_RemoveMountPoint_from:
  assumes "distinct (map mp_client_id mps)" and "k \<le> length mps"
    and "\<And>j. j < length mps - k \<Longrightarrow> mp_client_id (mps ! j) \<noteq> c"
  shows "mset (RemoveMountPoint_from k mps c) = {# m \<in># mset mps. mp_client_id m \<noteq> c #}"
  using assms(2,3)
proof (induction k)
  case 0
  then have "\<forall>m \<in> set mps. mp_client_id m \<noteq> c" by (metis diff_zero in_set_conv_nth)
  then have "filter (\<lambda>m. mp_client_id m \<noteq> c) mps = mps" by (simp add: filter_id_conv)
  then show ?case by (simp flip: mset_filter)
next
  case (Suc k)
  let ?i = "length mps - Suc k"
  have i: "?i < length mps" using Suc.prems(1) by simp
  show ?case
  proof (cases "mp_client_id (mps ! ?i) = c")
    case True
    define ys zs where "ys = take ?i mps" and "zs = drop (Suc ?i) mps"
    have mps: "mps = ys @ mps ! ?i # zs"
      unfolding ys_def zs_def by (rule id_take_nth_drop [OF i])
    then have "distinct (map mp_client_id (ys @ mps ! ?i # zs))" using assms(1) by metis
    then have "filter (\<lambda>m. mp_client_id m \<noteq> c) (ys @ mps ! ?i # zs) = ys @ zs"
      unfolding True [symmetric] by (rule filter_distinct_key)
    then have "filter (\<lambda>m. mp_client_id m \<noteq> c) mps = ys @ zs" using mps by metis
    moreover have "mset mps - {#mps ! ?i#} = mset (ys @ zs)"
      by (subst (1) mps) simp
    ultimately show ?thesis
      using mset_swap_remove [OF i] True by (simp add: Let_def flip: mset_filter)
  next
    case False
    moreover have "mp_client_id (mps ! j) \<noteq> c" if "j < length mps - k" for j
      using Suc.prems that False by (cases "j = ?i") (auto simp: less_Suc_eq)
    ultimately show ?thesis using Suc.IH Suc.prems(1) by (simp add: Let_def)
  qed
qed

definition fs_key :: "bytes \<Rightarrow> bytes" where
  "fs_key name = kPrefix @ [key_type kTypeFS] @ name"

definition mounts_ok :: "FsInfoType \<Rightarrow> bool" where
  "mounts_ok fi \<longleftrightarrow> distinct (map mp_client_id (fi_mount_points fi))"

lemma RemoveMountPoint_mset:
  "mounts_ok fi \<Longrightarrow> mset (fi_mount_points (RemoveMountPoint fi mp))
     = {# m \<in># mset (fi_mount_points fi). mp_client_id m \<noteq> mp_client_id mp #}"
  unfolding mounts_ok_def RemoveMountPoint_def by (simp add: mset_RemoveMountPoint_from)

lemma mounts_ok_Remove: "mounts_ok fi \<Longrightarrow> mounts_ok (RemoveMountPoint fi mp)"
proof -
  assume ok: "mounts_ok fi"
  let ?g = "\<lambda>m. mp_client_id m \<noteq> mp_client_id mp"
  have "mset (map mp_client_id (fi_mount_points (RemoveMountPoint fi mp)))
      = mset (map mp_client_id (filter ?g (fi_mount_points fi)))"
    by (simp add: RemoveMountPoint_mset [OF ok])
  moreover have "distinct (map mp_client_id (filter ?g (fi_mount_points fi)))"
    using ok by (simp add: mounts_ok_def distinct_map_filter)
  ultimately show ?thesis unfolding mounts_ok_def using mset_eq_imp_distinct_iff by blast
qed

context kv_txn
begin

lemma mount_fs:
  assumes "inv t" and "pb_ok pb" and "name \<noteq> []"
    and "view t (fs_key name) = Some (EncodeFSValue pb fi)"
  shows "returns (MountFsOperation_Run pb T time name mp t) (\<lambda>(r, t').
    if IsExistMountPoint fi mp then r = Inl EEXISTED \<and> t' = t
    else r = Inr () \<and> inv t' \<and> view t' = (view t)(fs_key name \<mapsto> EncodeFSValue pb
      (fi\<lparr>fi_mount_points := fi_mount_points fi @ [mp], fi_last_update_time_ns := time\<rparr>)))"
  using assms
  by (auto simp: MountFsOperation_Run_def EncodeFSKey_def fs_key_def get_law pb_ok_simps Let_def
      intro!: tx_returns)

lemma umount_fs:
  assumes "inv t" and "pb_ok pb" and "name \<noteq> []"
    and "view t (fs_key name) = Some (EncodeFSValue pb fi)"
  shows "returns (UmountFsOperation_Run pb T time name mp t) (\<lambda>(r, t').
    r = Inr () \<and> inv t' \<and> view t' = (view t)(fs_key name \<mapsto> EncodeFSValue pb
      ((RemoveMountPoint fi mp)\<lparr>fi_last_update_time_ns := time\<rparr>)))"
  using assms
  by (auto simp: UmountFsOperation_Run_def EncodeFSKey_def fs_key_def get_law pb_ok_simps Let_def
      intro!: tx_returns)

lemma delete_fs:
  assumes "inv t" and "pb_ok pb" and "name \<noteq> []"
    and "view t (fs_key name) = Some (EncodeFSValue pb fi)"
  shows "returns (DeleteFsOperation_Run pb T now name force t) (\<lambda>(r, t').
    if \<not> force \<and> fi_mount_points fi \<noteq> [] then r = Inl EEXISTED \<and> t' = t
    else r = Inr (fi\<lparr>fi_is_deleted := True, fi_delete_time_s := now\<rparr>) \<and> inv t'
      \<and> view t' = (view t)(fs_key name := None))"
  using assms
  by (auto simp: DeleteFsOperation_Run_def EncodeFSKey_def fs_key_def get_law pb_ok_simps Let_def
      intro!: tx_returns)

end

subsection \<open>Usage\<close>

definition dquota_key :: "u32 \<Rightarrow> u64 \<Rightarrow> bytes" where
  "dquota_key f i = kPrefix @ [key_type kTypeQuota] @ put_int f @ put_ulong i"

lemma EncodeDirQuotaKey_eq:
  "f > 0 \<Longrightarrow> EncodeDirQuotaKey f i = Some (dquota_key f i)"
  by (simp add: EncodeDirQuotaKey_def dquota_key_def)

lemma dquota_key_inject [simp]: "dquota_key f i = dquota_key f j \<longleftrightarrow> i = j"
  by (simp add: dquota_key_def field_eq_simps)

lemma DecodeDirQuotaKey_key [simp]: "DecodeDirQuotaKey (dquota_key f i) = Some (f, i)"
  by (simp add: DecodeDirQuotaKey_def dquota_key_def codec_simps)

text \<open>The quota of a directory after its pending usage, if any, is added.\<close>

definition flushed :: "(u64, UsageEntry) omap \<Rightarrow> (u64 \<rightharpoonup> QuotaEntry) \<Rightarrow> u64 \<rightharpoonup> QuotaEntry" where
  "flushed usages Q i =
     (case om_find usages i of None \<Rightarrow> Q i | Some u \<Rightarrow> map_option (add_usage u) (Q i))"

lemma those_map_Some: "those (map (\<lambda>x. Some (g x)) xs) = Some (map g xs)"
  by (induction xs) auto

context kv_txn
begin

lemma flush_usages_returns:
  assumes "inv t" and "pb_ok pb" and "distinct (map kv_key kvs)"
    and "\<And>kv. kv \<in> set kvs \<Longrightarrow>
      \<exists>i q. kv_key kv = dquota_key f i \<and> kv_value kv = EncodeDirQuotaValue pb q \<and> Q i = Some q"
  shows "returns (flush_usages pb T usages kvs acc t) (\<lambda>(acc', t'). inv t'
    \<and> view t' = (\<lambda>k. if \<exists>i. k = dquota_key f i \<and> k \<in> kv_key ` set kvs \<and> om_find usages i \<noteq> None
        then Some (EncodeDirQuotaValue pb (the (flushed usages Q (THE i. k = dquota_key f i))))
        else view t k)
    \<and> om_find acc' = (\<lambda>i. if dquota_key f i \<in> kv_key ` set kvs \<and> om_find usages i \<noteq> None
        then flushed usages Q i else om_find acc i))"
  using assms(1,3,4)
proof (induction kvs arbitrary: acc t)
  case Nil
  then show ?case by simp
next
  case (Cons kv kvs)
  obtain i q where kv: "kv_key kv = dquota_key f i" "kv_value kv = EncodeDirQuotaValue pb q"
      "Q i = Some q"
    using Cons.prems(3) [of kv] by auto
  note [simp] = kv pb_ok_simps(5) [OF assms(2)]
  have IH: "returns (flush_usages pb T usages kvs acc' t')
      (\<lambda>(acc'', t''). inv t'' \<and> view t'' = (\<lambda>k. if \<exists>i. k = dquota_key f i \<and>
            k \<in> kv_key ` set kvs \<and> om_find usages i \<noteq> None
          then Some (EncodeDirQuotaValue pb (the (flushed usages Q (THE i. k = dquota_key f i))))
          else view t' k)
        \<and> om_find acc'' = (\<lambda>i. if dquota_key f i \<in> kv_key ` set kvs \<and> om_find usages i \<noteq> None
          then flushed usages Q i else om_find acc' i))" if "inv t'" for acc' t'
    using Cons.IH [OF that] Cons.prems(2,3) by simp
  have fresh: "dquota_key f i \<notin> kv_key ` set kvs" using Cons.prems(2) kv(1) by auto
  show ?case
  proof (cases "om_find usages i")
    case None
    have *: "dquota_key f j \<in> kv_key ` set (kv # kvs) \<and> om_find usages j \<noteq> None
        \<longleftrightarrow> dquota_key f j \<in> kv_key ` set kvs \<and> om_find usages j \<noteq> None" for j
      using None by auto
    have **: "(\<exists>j. k = dquota_key f j \<and> k \<in> kv_key ` set (kv # kvs) \<and> om_find usages j \<noteq> None)
        \<longleftrightarrow> (\<exists>j. k = dquota_key f j \<and> k \<in> kv_key ` set kvs \<and> om_find usages j \<noteq> None)" for k
      using * by blast
    show ?thesis unfolding * ** using IH [OF Cons.prems(1), of acc] None by simp
  next
    case (Some u)
    show ?thesis
      using Some
      by (auto simp: Let_def intro!: tx_returns Cons.prems(1) returns_mono [OF IH])
        (auto simp: fun_eq_iff om_find_insert flushed_def fresh)
  qed
qed

lemma flush_dir_usages:
  assumes "inv t" and "pb_ok pb" and "f > 0" and "om_ok usages"
    and Q: "\<And>i. view t (dquota_key f i) = map_option (EncodeDirQuotaValue pb) (Q i)"
  shows "returns (FlushDirUsagesOperation_Run pb T f usages t) (\<lambda>(r, t'). inv t'
    \<and> (\<exists>quotas. r = Inr quotas
        \<and> (\<forall>i. om_find quotas i = (if om_find usages i = None then None else flushed usages Q i)))
    \<and> (\<forall>i. view t' (dquota_key f i) = map_option (EncodeDirQuotaValue pb) (flushed usages Q i))
    \<and> (\<forall>k. (\<forall>i. k \<noteq> dquota_key f i) \<longrightarrow> view t' k = view t k))"
proof -
  let ?ks = "map (\<lambda>(i, u). dquota_key f i) usages"
  have ks: "those (map (\<lambda>(i, u). EncodeDirQuotaKey f i) usages) = Some ?ks"
    using those_map_Some [of "\<lambda>(i, u). dquota_key f i" usages]
    by (simp add: EncodeDirQuotaKey_eq [OF assms(3)] case_prod_unfold)
  have d: "distinct ?ks"
    using om_ok_distinct [OF assms(4)]
    by (auto simp: distinct_map inj_on_def case_prod_unfold)
  have in_ks: "dquota_key f i \<in> set ?ks \<longleftrightarrow> om_find usages i \<noteq> None" for i
    by (force simp: om_find_def map_of_eq_None_iff)
  obtain kvs where kvs: "BatchGet T ?ks t = Inr kvs" "distinct (map kv_key kvs)"
      "map_of (map kv_pair kvs) = view t |` set ?ks"
    using batch_get_law [OF assms(1) d] by blast
  have mem: "view t (kv_key kv) = Some (kv_value kv) \<and> kv_key kv \<in> set ?ks" if "kv \<in> set kvs" for kv
  proof -
    have "map_of (map kv_pair kvs) (kv_key kv) = Some (kv_value kv)"
      using that kvs(2) by (simp add: comp_def image_iff) metis
    then show ?thesis by (simp add: kvs(3) restrict_map_def split: if_splits)
  qed
  have keys: "dquota_key f i \<in> kv_key ` set kvs \<longleftrightarrow> om_find usages i \<noteq> None \<and> Q i \<noteq> None" for i
    using batch_get_keys(1) [OF assms(1) d kvs(1)] in_ks [of i] Q [of i] by auto
  have vals: "\<exists>i q. kv_key kv = dquota_key f i \<and> kv_value kv = EncodeDirQuotaValue pb q \<and> Q i = Some q"
    if "kv \<in> set kvs" for kv
    using mem [OF that] Q by (auto simp: Q)
  obtain quotas t' where run: "flush_usages pb T usages kvs [] t = Some (quotas, t')" and "inv t'"
    and v: "view t' = (\<lambda>k. if \<exists>i. k = dquota_key f i \<and> k \<in> kv_key ` set kvs \<and> om_find usages i \<noteq> None
        then Some (EncodeDirQuotaValue pb (the (flushed usages Q (THE i. k = dquota_key f i))))
        else view t k)"
    and q: "om_find quotas = (\<lambda>i. if dquota_key f i \<in> kv_key ` set kvs \<and> om_find usages i \<noteq> None
        then flushed usages Q i else om_find [] i)"
    using flush_usages_returns [OF assms(1,2) kvs(2) vals, of usages "[]"]
    unfolding returns_def by blast
  have "om_find quotas i = (if om_find usages i = None then None else flushed usages Q i)" for i
    unfolding q keys by (simp add: om_find_def [of "[]"] flushed_def split: option.split)
  moreover have "view t' (dquota_key f i) = map_option (EncodeDirQuotaValue pb) (flushed usages Q i)" for i
    unfolding v using keys [of i] Q [of i] by (auto simp: flushed_def split: option.splits)
  moreover have "view t' k = view t k" if "\<forall>i. k \<noteq> dquota_key f i" for k
    unfolding v using that by auto
  ultimately show ?thesis
    unfolding FlushDirUsagesOperation_Run_def ks using \<open>inv t'\<close> by (simp add: kvs(1) run)
qed

end

subsection \<open>Scans\<close>

text \<open>A scan that fills the batch is repeated unchanged for ever.\<close>

lemma scan_all_full:
  assumes "scan () = Inr kvs" and "batch \<le> length kvs"
  shows "scan_all scan batch body acc = None"
proof -
  have "s () = Inr kvs \<longrightarrow> n \<le> length kvs \<longrightarrow> False" if "scan_all s n body acc = Some r" for s n acc r
    by (rule scan_all.raw_induct [OF _ that])
      (auto simp: bind_eq_Some_conv split: sum.splits if_splits)
  then show ?thesis using assms by (cases "scan_all scan batch body acc") auto
qed

lemma scan_all_short:
  "scan () = Inr kvs \<Longrightarrow> length kvs < batch \<Longrightarrow> body kvs = Some xs \<Longrightarrow>
     scan_all scan batch body acc = Some (Inr (acc @ xs))"
  by (subst scan_all.simps) simp

lemma collect_all:
  assumes "\<And>kv. kv \<in> set kvs \<Longrightarrow> accept (kv_key kv) = Some True \<and> decode (kv_value kv) = Some (g kv)"
  shows "collect accept decode kvs = Some (map g kvs)"
  using assms by (induction kvs) auto

text \<open>The heartbeat records of the servers, by id.\<close>

definition mds_records :: "'v pb \<Rightarrow> (bytes \<rightharpoonup> 'v) \<Rightarrow> (u64 \<rightharpoonup> MdsEntry) \<Rightarrow> bool" where
  "mds_records pb v E \<longleftrightarrow>
     ROLE_MDS pb \<noteq> - 1 \<and>
     (\<forall>i. v (EncodeHeartbeatKey_mds (ROLE_MDS pb) i) = map_option (EncodeHeartbeatValue_mds pb) (E i)) \<and>
     (\<forall>k. v k \<noteq> None \<and> in_range (GetHeartbeatMdsRange (ROLE_MDS pb)) k \<longrightarrow>
        (\<exists>i. k = EncodeHeartbeatKey_mds (ROLE_MDS pb) i))"

lemma hb_key_inject [simp]:
  "EncodeHeartbeatKey_mds r i = EncodeHeartbeatKey_mds r j \<longleftrightarrow> i = j"
  by (simp add: EncodeHeartbeatKey_mds_def field_eq_simps long_codec.enc_eq_iff)

lemma hb_key_in_range:
  "r \<noteq> - 1 \<Longrightarrow> in_range (GetHeartbeatMdsRange r) (EncodeHeartbeatKey_mds r i)"
  by (simp add: GetHeartbeatMdsRange_def EncodeHeartbeatKey_mds_def codec_simps)

lemma hb_key_is_mds: "IsMdsHeartbeatKey r (EncodeHeartbeatKey_mds r i) = Some True"
  by (simp add: IsMdsHeartbeatKey_def EncodeHeartbeatKey_mds_def codec_simps)

context kv_scan_txn
begin

lemma scan_mds_range:
  assumes "inv t" and E: "mds_records pb (view t) E"
    and r: "GetHeartbeatMdsRange (ROLE_MDS pb) = (lo, hi)"
  shows "set (range_list (view t) lo hi)
      = (\<lambda>i. (EncodeHeartbeatKey_mds (ROLE_MDS pb) i, EncodeHeartbeatValue_mds pb (the (E i)))) ` dom E"
    and "length (range_list (view t) lo hi) = card (dom E)"
proof -
  let ?k = "EncodeHeartbeatKey_mds (ROLE_MDS pb)"
  have v: "view t (?k i) = map_option (EncodeHeartbeatValue_mds pb) (E i)" for i
    using E by (simp add: mds_records_def)
  have "\<exists>i. k = ?k i" if "view t k \<noteq> None" "lo \<le> k" "k < hi" for k
    using E that by (auto simp: mds_records_def in_range_def r)
  moreover have "lo \<le> ?k i" "?k i < hi" for i
    using E hb_key_in_range [of "ROLE_MDS pb" i] by (auto simp: mds_records_def in_range_def r)
  ultimately have keys: "{k \<in> dom (view t). lo \<le> k \<and> k < hi} = ?k ` dom E"
    using v by (fastforce simp: dom_def)
  then show "length (range_list (view t) lo hi) = card (dom E)"
    by (simp add: length_range_list card_image inj_on_def)
  have "{(k, v). view t k = Some v \<and> lo \<le> k \<and> k < hi}
      = (\<lambda>k. (k, the (view t k))) ` {k \<in> dom (view t). lo \<le> k \<and> k < hi}"
    by (auto simp: image_iff)
  then show "set (range_list (view t) lo hi)
      = (\<lambda>i. (?k i, EncodeHeartbeatValue_mds pb (the (E i)))) ` dom E"
    using E unfolding set_range_list [OF finite_view [OF assms(1)]] keys mds_records_def
    by (auto simp: image_image)
qed

lemma scan_mds:
  assumes "inv t" and "pb_ok pb" and E: "mds_records pb (view t) E"
  shows "card (dom E) < FLAGS_fs_scan_batch_size \<Longrightarrow>
      \<exists>xs. ScanMdsOperation_Run pb T t = Some (Inr xs, t) \<and> set xs = ran E \<and> length xs = card (dom E)"
    and "FLAGS_fs_scan_batch_size \<le> card (dom E) \<Longrightarrow> ScanMdsOperation_Run pb T t = None"
proof -
  obtain lo hi where r: "GetHeartbeatMdsRange (ROLE_MDS pb) = (lo, hi)" by fastforce
  let ?n = "FLAGS_fs_scan_batch_size"
  let ?kvs = "map (\<lambda>(k, v). put_kv k v) (take ?n (range_list (view t) lo hi))"
  have "unat (of_nat ?n :: u64) = ?n" by (simp add: FLAGS_fs_scan_batch_size_def)
  then have scan: "Scan T \<lparr>start_key = lo, end_key = hi\<rparr> (of_nat ?n) t = Inr ?kvs"
    by (simp add: scan_law [OF assms(1)])
  note rl = scan_mds_range [OF assms(1) E r]
  { assume n: "card (dom E) < ?n"
    let ?g = "\<lambda>kv. the (DecodeHeartbeatValue_mds pb (kv_value kv))"
    have kvs: "?kvs = map (\<lambda>(k, v). put_kv k v) (range_list (view t) lo hi)" using n rl(2) by simp
    have "collect (IsMdsHeartbeatKey (ROLE_MDS pb)) (DecodeHeartbeatValue_mds pb) ?kvs
        = Some (map ?g ?kvs)"
      unfolding kvs
      by (rule collect_all)
        (use rl(1) in \<open>auto simp: put_kv_def hb_key_is_mds pb_ok_simps(8) [OF assms(2)]\<close>)
    moreover have "set (map ?g ?kvs) = ran E"
    proof -
      have "set (map ?g ?kvs) = (\<lambda>i. the (E i)) ` dom E"
        unfolding kvs using rl(1) by (simp add: image_image case_prod_unfold put_kv_def pb_ok_simps(8) [OF assms(2)])
      then show ?thesis by (force simp: ran_def dom_def image_iff)
    qed
    ultimately show "\<exists>xs. ScanMdsOperation_Run pb T t = Some (Inr xs, t) \<and> set xs = ran E
        \<and> length xs = card (dom E)"
      unfolding ScanMdsOperation_Run_def r
      using scan_all_short [of "\<lambda>_. Scan T \<lparr>start_key = lo, end_key = hi\<rparr> (of_nat ?n) t" ?kvs ?n
          "collect (IsMdsHeartbeatKey (ROLE_MDS pb)) (DecodeHeartbeatValue_mds pb)" "map ?g ?kvs" "[]"]
        scan n rl(2) by simp }
  { assume "?n \<le> card (dom E)"
    then show "ScanMdsOperation_Run pb T t = None"
      unfolding ScanMdsOperation_Run_def r
      using scan_all_full [of "\<lambda>_. Scan T \<lparr>start_key = lo, end_key = hi\<rparr> (of_nat ?n) t" ?kvs ?n
          "collect (IsMdsHeartbeatKey (ROLE_MDS pb)) (DecodeHeartbeatValue_mds pb)" "[]"]
        scan rl(2) by simp }
qed

end

end
