(* ===== verification/NsProps.thy ===== *)
theory NsProps
  imports Example
begin

text \<open>
  What the namespace operations guarantee on the production transaction
  (\<^verbatim>\<open>dingodb::Transaction\<close> over any client that satisfies \<^term>\<open>sdk_contract\<close>): each runs to an
  answer, has the effect of the operation of the abstract file system and keeps its link counts.
\<close>

text \<open>The open transaction reads as the file system \<open>s\<close>, whose link counts are right.\<close>

definition stored ::
    "('c \<Rightarrow> bytes \<rightharpoonup> 'v) \<Rightarrow> ('c \<Rightarrow> bool) \<Rightarrow> 'v pb \<Rightarrow> u32 \<Rightarrow> 'c DingodbTxn \<Rightarrow> ns \<Rightarrow> bool" where
  "stored sview sinv pb f t s \<longleftrightarrow>
     f > 0 \<and> sinv (sdk_txn t) \<and> represents pb f (sview (sdk_txn t)) s \<and> ns_ok f s"

lemma storedD:
  assumes "stored sview sinv pb f t s"
  shows "f > 0" "sinv (sdk_txn t)" "represents pb f (sview (sdk_txn t)) s" "ns_ok f s"
  using assms by (simp_all add: stored_def)

lemma link_guardD:
  assumes "link_guard f d a pa s"
  shows "d_fs_id d = f" "d_parent d \<noteq> d_ino d" "d_name d \<noteq> []"
    "inodes s (d_parent d) = Some pa" "inodes s (d_ino d) = Some a"
  using assms by (auto simp: link_guard_def)

lemma unlink_guardD:
  assumes "unlink_guard f d a pa s" and "ns_ok f s"
  shows "d_fs_id d = f" "d_parent d \<noteq> d_ino d" "d_name d \<noteq> []"
    "inodes s (d_parent d) = Some pa" "inodes s (d_ino d) = Some a" "at_type a \<noteq> DIRECTORY"
proof -
  have g: "inodes s (d_parent d) = Some pa" "inodes s (d_ino d) = Some a"
    "dents s (d_parent d, d_name d) = Some (CopyTo d)" "d_type d \<noteq> DIRECTORY" "d_fs_id d = f"
    using assms(1) by (auto simp: unlink_guard_def)
  have "d_parent d \<noteq> 0" using assms(2) g(1) by (auto simp: ns_ok_def fs_ok_def)
  with ns_ok_names [OF assms(2) g(3)] g
  show "d_fs_id d = f" "d_parent d \<noteq> d_ino d" "d_name d \<noteq> []"
    "inodes s (d_parent d) = Some pa" "inodes s (d_ino d) = Some a" "at_type a \<noteq> DIRECTORY"
    by auto
qed

lemma unlinked_last:
  assumes "ns_ok f s" and "inodes s i = Some a" and "at_type a \<noteq> DIRECTORY"
  shows "at_nlink (unlinked t a) = 0 \<longleftrightarrow> card (links_of (dents s) i) = 1"
proof -
  let ?n = "card (links_of (dents s) i)"
  have n: "unat (at_nlink a) = ?n" "0 < ?n" using ns_ok_counts(1,2) [OF assms] .
  have "at_nlink a = of_nat (unat (at_nlink a))" by simp
  then have "at_nlink a = of_nat ?n" unfolding n(1) .
  moreover have "?n < 2 ^ 32"
    unfolding n(1) [symmetric] by (rule order_less_le_trans [OF unsigned_less]) simp
  ultimately show ?thesis
    using nlink_decrement(2) [OF n(2)] by (simp add: unlinked_def bump_def)
qed

lemma ex_stored: "stored ref_view ref_inv val_pb 1 ex_txn ex_ns"
  using ex_represents ex_inv ns_reach_ok [OF ex_reach] by (simp add: stored_def)

lemmas ex_facts = ref_contract pb_ok_val ex_stored

lemmas ex_guard_defs = CopyTo_def ex_defs link_guard_def unlink_guard_def rename_guard_def
  rename_pre_def ex_links ex_inodes_ino ex_dir_empty

text \<open>C8: a hard link to an existing file under a free name succeeds. It returns the file's
  attributes with one more link, the store then holds the file system with the new name, and every
  link count is still right.\<close>

theorem hard_link_correct:
  assumes "sdk_contract sdk sview sinv" and "pb_ok pb" and "stored sview sinv pb f t s"
    and "link_guard f d a pa s"
  shows "\<exists>a' t'. HardLinkOperation_Run pb (DingodbTxn sdk) time_ns d t
            = Some (Inr (bump (touch time_ns pa), a'), t')
          \<and> at_nlink a' = at_nlink a + 1 \<and> d_parent d \<in> set (at_parents a')
          \<and> inodes (spec_hard_link time_ns d a s) (d_ino d) = Some a'
          \<and> stored sview sinv pb f t' (spec_hard_link time_ns d a s)"
  using kv_txn.hard_link_refines [OF sdk_contract.dingo_txn [OF assms(1)] storedD(2) [OF assms(3)]
      assms(2) storedD(1,3) [OF assms(3)] link_guardD(1-3) [OF assms(4)], of time_ns]
    link_guardD(4,5) [OF assms(4)] ns_ok_hard_link [OF storedD(4) [OF assms(3)] assms(4)]
    storedD(1) [OF assms(3)]
  by (auto simp: returns_def stored_def spec_hard_link_def bump_def touch_def AddParentIno_def)

theorem hard_link_correct_witness:
  "\<exists>a' t'. HardLinkOperation_Run val_pb (DingodbTxn ref_sdk) 5 (ex_entry 1 100 2 FILE) ex_txn
            = Some (Inr (bump (touch 5 (ex_attr 1 DIRECTORY 3)), a'), t')
          \<and> at_nlink a' = 3
          \<and> stored ref_view ref_inv val_pb 1 t' (spec_hard_link 5 (ex_entry 1 100 2 FILE) ex_file ex_ns)"
proof -
  have "link_guard 1 (ex_entry 1 100 2 FILE) ex_file (ex_attr 1 DIRECTORY 3) ex_ns"
    by (simp add: ex_guard_defs)
  moreover have "at_nlink ex_file + 1 = 3" by (simp add: ex_defs)
  ultimately show ?thesis using hard_link_correct [OF ex_facts, of _ ex_file] by metis
qed

text \<open>C6: unlinking an existing name of a file succeeds. The store then holds the file system without
  the name; the file is gone exactly when this was its last name, and is then recorded among the
  deleted files, and every link count is still right.\<close>

theorem unlink_correct:
  assumes "sdk_contract sdk sview sinv" and "pb_ok pb" and "stored sview sinv pb f t s"
    and "unlink_guard f d a pa s"
  shows "\<exists>t'. UnlinkOperation_Run pb (DingodbTxn sdk) time_ns d t
            = Some (Inr (bump (touch time_ns pa), unlinked time_ns a), t')
          \<and> stored sview sinv pb f t' (spec_unlink time_ns d pa a s)
          \<and> (if card (links_of (dents s) (d_ino d)) = 1
             then inodes (spec_unlink time_ns d pa a s) (d_ino d) = None
               \<and> delfiles (spec_unlink time_ns d pa a s) (d_ino d) = Some (unlinked time_ns a)
             else inodes (spec_unlink time_ns d pa a s) (d_ino d) = Some (unlinked time_ns a)
               \<and> delfiles (spec_unlink time_ns d pa a s) = delfiles s)"
proof -
  note g = unlink_guardD [OF assms(4) storedD(4) [OF assms(3)]]
  show ?thesis
    using kv_txn.unlink_refines [OF sdk_contract.dingo_txn [OF assms(1)] storedD(2) [OF assms(3)]
        assms(2) storedD(1,3) [OF assms(3)] g(1-3), of time_ns]
      ns_ok_unlink [OF storedD(4) [OF assms(3)] assms(4), of time_ns] storedD(1) [OF assms(3)]
      unlinked_last [OF storedD(4) [OF assms(3)] g(5,6), of time_ns] g(4,5)
    by (auto simp: returns_def stored_def spec_unlink_def drop_link_def)
qed

theorem unlink_correct_witness:
  "\<exists>t'. UnlinkOperation_Run val_pb (DingodbTxn ref_sdk) 5 ex_a ex_txn
       = Some (Inr (bump (touch 5 (ex_attr 1 DIRECTORY 3)), unlinked 5 ex_file), t')
     \<and> stored ref_view ref_inv val_pb 1 t' (spec_unlink 5 ex_a (ex_attr 1 DIRECTORY 3) ex_file ex_ns)
     \<and> inodes (spec_unlink 5 ex_a (ex_attr 1 DIRECTORY 3) ex_file ex_ns) 2 = Some (unlinked 5 ex_file)"
proof -
  have g: "unlink_guard 1 ex_a ex_file (ex_attr 1 DIRECTORY 3) ex_ns" by (simp add: ex_guard_defs)
  have "d_ino ex_a = 2" "card (links_of (dents ex_ns) 2) = 2" by (simp_all add: ex_defs ex_links)
  then show ?thesis using unlink_correct [OF ex_facts g, of 5] by auto
qed

text \<open>C7: removing an existing directory succeeds exactly when the directory has no entries. Then
  the store holds the file system without it and every link count is still right; otherwise the answer is
  ENOT_EMPTY and nothing is written.\<close>

theorem rmdir_correct:
  assumes "sdk_contract sdk sview sinv" and "pb_ok pb" and "stored sview sinv pb f t s"
    and "inodes s (d_parent d) = Some pa" and "dents s (d_parent d, d_name d) = Some (CopyTo d)"
    and "d_type d = DIRECTORY" and "d_fs_id d = f" and "d_parent d \<noteq> d_ino d" and "d_ino d \<noteq> - 1"
  shows "if dir_empty s (d_ino d)
         then \<exists>t'. RmDirOperation_Run pb (DingodbTxn sdk) time_ns d t
                = Some (Inr (bump (touch time_ns (pa\<lparr>at_nlink := at_nlink pa - 1\<rparr>))), t')
              \<and> stored sview sinv pb f t' (spec_rmdir time_ns d pa s)
         else RmDirOperation_Run pb (DingodbTxn sdk) time_ns d t = Some (Inl ENOT_EMPTY, t)"
proof -
  have d: "inodes s (d_ino d) \<noteq> None" "d_name d \<noteq> []"
    using ns_ok_names(1,5) [OF storedD(4) [OF assms(3)] assms(5)] by auto
  show ?thesis
    using kv_scan_txn.rmdir_refines [OF sdk_contract.dingo_scan_txn [OF assms(1)]
        storedD(2) [OF assms(3)] assms(2) storedD(1,3) [OF assms(3)] assms(7,8) d(2) assms(9) d(1),
        of time_ns]
      ns_ok_rmdir [of f s d pa time_ns] storedD(1,4) [OF assms(3)] assms(4-7)
    by (auto simp: returns_def stored_def rmdir_guard_def)
qed

theorem rmdir_correct_witness:
  "\<exists>t'. RmDirOperation_Run val_pb (DingodbTxn ref_sdk) 5 ex_e ex_txn
       = Some (Inr (bump (touch 5 (ex_attr 3 DIRECTORY 3\<lparr>at_nlink := 2\<rparr>))), t')
     \<and> stored ref_view ref_inv val_pb 1 t' (spec_rmdir 5 ex_e (ex_attr 3 DIRECTORY 3) ex_ns)"
proof -
  have e: "inodes ex_ns (d_parent ex_e) = Some (ex_attr 3 DIRECTORY 3)"
    "dents ex_ns (d_parent ex_e, d_name ex_e) = Some (CopyTo ex_e)" "d_type ex_e = DIRECTORY"
    "d_fs_id ex_e = 1" "d_parent ex_e \<noteq> d_ino ex_e" "d_ino ex_e \<noteq> - 1" "d_ino ex_e = 4"
    using ex_ns_simps by (simp_all add: ex_e_def ex_entry_def)
  have "at_nlink (ex_attr 3 DIRECTORY 3) - 1 = 2" by (simp add: ex_defs)
  then show ?thesis
    using rmdir_correct [OF ex_facts e(1-6), of 5] ex_dir_empty(1) e(7) by (simp only: if_True)
qed



text \<open>C10: a rename onto a directory that has entries answers ENOT_EMPTY and writes nothing.\<close>

theorem rename_onto_nonempty_dir:
  assumes "sdk_contract sdk sview sinv" and "pb_ok pb" and "stored sview sinv pb f t s"
    and "rename_pre s op on np nn d oa opa npa (Some (e, ea))"
    and "de_type e = DIRECTORY" and "\<not> dir_empty s (de_ino e)"
  shows "RenameOperation_Run pb (DingodbTxn sdk) time_ns f op on np nn t = Some (Inl ENOT_EMPTY, t)"
  using kv_scan_txn.rename_refines [OF sdk_contract.dingo_scan_txn [OF assms(1)]
        storedD(2) [OF assms(3)] assms(2) storedD(1,3) [OF assms(3)] assms(4), of time_ns] assms(5,6)
  by (auto simp: returns_def)

theorem rename_onto_nonempty_dir_witness:
  "RenameOperation_Run val_pb (DingodbTxn ref_sdk) 5 1 1 [97] 1 [98] ex_txn
     = Some (Inl ENOT_EMPTY, ex_txn)"
proof -
  have "rename_pre ex_ns 1 [97] 1 [98] (CopyTo ex_a) ex_file (ex_attr 1 DIRECTORY 3)
      (ex_attr 1 DIRECTORY 3) (Some (CopyTo ex_b, ex_attr 3 DIRECTORY 3))"
    by (simp add: ex_guard_defs)
  moreover have "de_type (CopyTo ex_b) = DIRECTORY" "\<not> dir_empty ex_ns (de_ino (CopyTo ex_b))"
    using ex_dir_empty by (simp_all add: CopyTo_def ex_b_def ex_entry_def)
  ultimately show ?thesis by (rule rename_onto_nonempty_dir [OF ex_facts])
qed





end
