(* ===== verification/FsProps.thy ===== *)
theory FsProps
  imports FsOps NsProps
begin

text \<open>
  What the file-system, quota and heartbeat operations guarantee on the production transaction,
  with the transactions on which the properties are applied.
\<close>

context kv_txn
begin

lemma set_get_dir_quota:
  fixes quota qo
  assumes "inv t" and "pb_ok pb" and "f > 0"
    and Q: "view t (dquota_key f i) = map_option (EncodeDirQuotaValue pb) qo"
  defines "new \<equiv> (case qo of None \<Rightarrow> default_quota | Some q \<Rightarrow> q)
      \<lparr>q_max_bytes := q_max_bytes quota, q_max_inodes := q_max_inodes quota\<rparr>"
  shows "returns (SetDirQuotaOperation_Run pb T f i quota t) (\<lambda>(r, t'). r = Inr () \<and> inv t'
    \<and> view t' = (view t)(dquota_key f i \<mapsto> EncodeDirQuotaValue pb new)
    \<and> GetDirQuotaOperation_Run pb T f i t' = Some (Inr new, t'))"
proof -
  have e: "value_empty pb (EncodeDirQuotaValue pb q) \<Longrightarrow> q = default_quota" for q
    using pb_ok_simps(5,11) [OF assms(2)] by (metis option.inject)
  have g: "GetDirQuotaOperation_Run pb T f i t' = Some (Inr q, t')"
    if "inv t'" "view t' (dquota_key f i) = Some (EncodeDirQuotaValue pb q)" for q t'
    using that e [of q] pb_ok_simps(5) [OF assms(2)]
    by (auto simp: GetDirQuotaOperation_Run_def EncodeDirQuotaKey_eq [OF assms(3)] get_law)
  have r: "read_quota pb (DecodeDirQuotaValue pb) (Get T (dquota_key f i) t)
      = Some (Inr (case qo of None \<Rightarrow> default_quota | Some q \<Rightarrow> q))"
    using e pb_ok_simps(5) [OF assms(2)]
    by (auto simp: read_quota_def get_law [OF assms(1)] Q split: option.split)
  show ?thesis
    unfolding SetDirQuotaOperation_Run_def EncodeDirQuotaKey_eq [OF assms(3)] new_def
    using r by (auto simp: Let_def intro!: tx_returns assms(1) g)
qed

end

text \<open>A transaction of the reference client on a given store.\<close>

definition ex_open :: "(bytes, val) omap \<Rightarrow> val ref_client DingodbTxn" where
  "ex_open m = \<lparr>sdk_txn = \<lparr>committed = m, working = m, raced = False\<rparr>, is_conflict = False\<rparr>"

lemma ex_open_simps [simp]:
  "ref_inv (sdk_txn (ex_open m)) \<longleftrightarrow> om_ok m" "ref_view (sdk_txn (ex_open m)) = om_find m"
  by (simp_all add: ref_inv_def ref_view_def ex_open_def)

definition ex_mount :: "byte \<Rightarrow> MountPoint" where
  "ex_mount c = \<lparr>mp_client_id = [c], mp_hostname = [], mp_port = 0, mp_path = []\<rparr>"

lemma ex_mount_client [simp]: "mp_client_id (ex_mount c) = [c]"
  by (simp add: ex_mount_def)

definition ex_fs :: FsInfoType where
  "ex_fs = \<lparr>fi_fs_id = 1, fi_fs_name = [102], fi_chunk_size = 64, fi_block_size = 4, fi_root_ino = 1,
     fi_partition_policy = UNKNOWN_PARTITION, fi_mount_points = [ex_mount 1, ex_mount 2],
     fi_last_update_time_ns = 0, fi_is_deleted = False, fi_delete_time_s = 0, fi_fs_type = 0,
     fi_status = NEW, fi_enable_sum_in_dir = False, fi_owner = [], fi_capacity = 0, fi_recycle_time_hour = 0,
     fi_extra = [], fi_uuid = [], fi_create_time_s = 0\<rparr>"

definition ex_quota :: QuotaEntry where
  "ex_quota = \<lparr>q_max_bytes = 100, q_max_inodes = 10, q_used_bytes = 7, q_used_inodes = 1\<rparr>"

definition ex_mds :: MdsEntry where
  "ex_mds = \<lparr>mds_id_of = 5, mds_host = [], mds_port = 0, mds_state = MDS_State_NORMAL, mds_last_online_time_ms = 0\<rparr>"

text \<open>C12: the mount points of a file system stay one per client. Mounting adds the client's mount
  point and answers EEXISTED without a write when the client has one; unmounting removes exactly the
  client's mount point; a delete without force is refused while there is a mount point and otherwise
  removes the record of the file system only.\<close>

theorem mount_points_correct:
  assumes "sdk_contract sdk sview sinv" and "pb_ok pb" and "sinv (sdk_txn t)" and "name \<noteq> []"
    and "sview (sdk_txn t) (fs_key name) = Some (EncodeFSValue pb fi)" and "mounts_ok fi"
  shows "(if IsExistMountPoint fi mp
          then MountFsOperation_Run pb (DingodbTxn sdk) time name mp t = Some (Inl EEXISTED, t)
          else \<exists>t' fi'. MountFsOperation_Run pb (DingodbTxn sdk) time name mp t = Some (Inr (), t')
            \<and> sview (sdk_txn t') = (sview (sdk_txn t))(fs_key name \<mapsto> EncodeFSValue pb fi')
            \<and> mounts_ok fi' \<and> mset (fi_mount_points fi') = mset (fi_mount_points fi) + {#mp#})
       \<and> (\<exists>t' fi'. UmountFsOperation_Run pb (DingodbTxn sdk) time name mp t = Some (Inr (), t')
            \<and> sview (sdk_txn t') = (sview (sdk_txn t))(fs_key name \<mapsto> EncodeFSValue pb fi')
            \<and> mounts_ok fi' \<and> mset (fi_mount_points fi')
                = {# m \<in># mset (fi_mount_points fi). mp_client_id m \<noteq> mp_client_id mp #})
       \<and> (if fi_mount_points fi \<noteq> []
          then DeleteFsOperation_Run pb (DingodbTxn sdk) now name False t = Some (Inl EEXISTED, t)
          else \<exists>t' fi'. DeleteFsOperation_Run pb (DingodbTxn sdk) now name False t = Some (Inr fi', t')
            \<and> fi_is_deleted fi' \<and> sview (sdk_txn t') = (sview (sdk_txn t))(fs_key name := None))"
proof (intro conjI)
  note T = sdk_contract.dingo_txn [OF assms(1)]
  have new: "mounts_ok (fi\<lparr>fi_mount_points := fi_mount_points fi @ [mp], fi_last_update_time_ns := time\<rparr>)"
    if "\<not> IsExistMountPoint fi mp"
    using that assms(6) by (auto simp: mounts_ok_def IsExistMountPoint_def list_ex_iff)
  show "if IsExistMountPoint fi mp
      then MountFsOperation_Run pb (DingodbTxn sdk) time name mp t = Some (Inl EEXISTED, t)
      else \<exists>t' fi'. MountFsOperation_Run pb (DingodbTxn sdk) time name mp t = Some (Inr (), t')
        \<and> sview (sdk_txn t') = (sview (sdk_txn t))(fs_key name \<mapsto> EncodeFSValue pb fi')
        \<and> mounts_ok fi' \<and> mset (fi_mount_points fi') = mset (fi_mount_points fi) + {#mp#}"
  proof (cases "IsExistMountPoint fi mp")
    case True
    then show ?thesis using kv_txn.mount_fs [OF T assms(3,2,4,5), of time mp] by (auto simp: returns_def)
  next
    case False
    let ?fi = "fi\<lparr>fi_mount_points := fi_mount_points fi @ [mp], fi_last_update_time_ns := time\<rparr>"
    obtain t' where t': "MountFsOperation_Run pb (DingodbTxn sdk) time name mp t = Some (Inr (), t')"
      "sview (sdk_txn t') = (sview (sdk_txn t))(fs_key name \<mapsto> EncodeFSValue pb ?fi)"
      using kv_txn.mount_fs [OF T assms(3,2,4,5), of time mp] False by (auto simp: returns_def)
    have "\<exists>t' fi'. MountFsOperation_Run pb (DingodbTxn sdk) time name mp t = Some (Inr (), t')
        \<and> sview (sdk_txn t') = (sview (sdk_txn t))(fs_key name \<mapsto> EncodeFSValue pb fi')
        \<and> mounts_ok fi' \<and> mset (fi_mount_points fi') = mset (fi_mount_points fi) + {#mp#}"
      by (rule exI [of _ t'], rule exI [of _ ?fi]) (simp add: t' new False)
    then show ?thesis using False by simp
  qed
  have old: "mounts_ok ((RemoveMountPoint fi mp)\<lparr>fi_last_update_time_ns := time\<rparr>)"
    using mounts_ok_Remove [OF assms(6)] by (simp add: mounts_ok_def)
  show "\<exists>t' fi'. UmountFsOperation_Run pb (DingodbTxn sdk) time name mp t = Some (Inr (), t')
      \<and> sview (sdk_txn t') = (sview (sdk_txn t))(fs_key name \<mapsto> EncodeFSValue pb fi')
      \<and> mounts_ok fi' \<and> mset (fi_mount_points fi')
          = {# m \<in># mset (fi_mount_points fi). mp_client_id m \<noteq> mp_client_id mp #}"
  proof -
    obtain t' where t': "UmountFsOperation_Run pb (DingodbTxn sdk) time name mp t = Some (Inr (), t')"
      "sview (sdk_txn t') = (sview (sdk_txn t))(fs_key name \<mapsto>
         EncodeFSValue pb ((RemoveMountPoint fi mp)\<lparr>fi_last_update_time_ns := time\<rparr>))"
      using kv_txn.umount_fs [OF T assms(3,2,4,5), of time mp] by (auto simp: returns_def)
    show ?thesis
      by (rule exI [of _ t'], rule exI [of _ "(RemoveMountPoint fi mp)\<lparr>fi_last_update_time_ns := time\<rparr>"])
        (simp add: t' old RemoveMountPoint_mset [OF assms(6)])
  qed
  show "if fi_mount_points fi \<noteq> []
      then DeleteFsOperation_Run pb (DingodbTxn sdk) now name False t = Some (Inl EEXISTED, t)
      else \<exists>t' fi'. DeleteFsOperation_Run pb (DingodbTxn sdk) now name False t = Some (Inr fi', t')
        \<and> fi_is_deleted fi' \<and> sview (sdk_txn t') = (sview (sdk_txn t))(fs_key name := None)"
    using kv_txn.delete_fs [OF T assms(3,2,4,5), of now False] by (auto simp: returns_def)
qed

theorem mount_points_correct_witness:
  "\<exists>t' fi'. UmountFsOperation_Run val_pb (DingodbTxn ref_sdk) 9 [102] (ex_mount 1)
        (ex_open [(fs_key [102], VFs ex_fs)]) = Some (Inr (), t')
      \<and> ref_view (sdk_txn t') (fs_key [102]) = Some (EncodeFSValue val_pb fi')
      \<and> mset (fi_mount_points fi') = {#ex_mount 2#}"
proof -
  let ?t = "ex_open [(fs_key [102], VFs ex_fs)]"
  have "ref_inv (sdk_txn ?t)" by (simp add: om_ok_def)
  moreover have "ref_view (sdk_txn ?t) (fs_key [102]) = Some (EncodeFSValue val_pb ex_fs)"
    by (simp add: om_find_def EncodeFSValue_def val_pb_def)
  moreover have "mounts_ok ex_fs" by (simp add: mounts_ok_def ex_fs_def)
  ultimately obtain t' fi' where
      "UmountFsOperation_Run val_pb (DingodbTxn ref_sdk) 9 [102] (ex_mount 1) ?t
        = Some (Inr (), t')"
      "ref_view (sdk_txn t') = (ref_view (sdk_txn ?t))(fs_key [102] \<mapsto> EncodeFSValue val_pb fi')"
      "mset (fi_mount_points fi') = {# m \<in># mset (fi_mount_points ex_fs). mp_client_id m \<noteq> [1] #}"
    using mount_points_correct [OF ref_contract pb_ok_val, of ?t "[102]" ex_fs
        "ex_mount 1" 9 0] by auto
  then show ?thesis by (intro exI conjI) (auto simp: ex_fs_def)
qed

text \<open>C13: flushing the pending usage of directories adds to the quota of every directory that has
  one exactly the usage pending for it, reports the new quotas of exactly these directories, and changes
  nothing else in the store.\<close>

theorem flush_dir_usages_correct:
  assumes "sdk_contract sdk sview sinv" and "pb_ok pb" and "sinv (sdk_txn t)" and "f > 0"
    and "om_ok usages"
    and "\<And>i. sview (sdk_txn t) (dquota_key f i) = map_option (EncodeDirQuotaValue pb) (Q i)"
  shows "\<exists>quotas t'. FlushDirUsagesOperation_Run pb (DingodbTxn sdk) f usages t = Some (Inr quotas, t')
    \<and> (\<forall>i. sview (sdk_txn t') (dquota_key f i) = map_option (EncodeDirQuotaValue pb)
          (case om_find usages i of None \<Rightarrow> Q i | Some u \<Rightarrow> map_option (add_usage u) (Q i)))
    \<and> (\<forall>i. om_find quotas i =
          (case om_find usages i of None \<Rightarrow> None | Some u \<Rightarrow> map_option (add_usage u) (Q i)))
    \<and> (\<forall>k. (\<forall>i. k \<noteq> dquota_key f i) \<longrightarrow> sview (sdk_txn t') k = sview (sdk_txn t) k)"
proof -
  obtain quotas t' where r: "FlushDirUsagesOperation_Run pb (DingodbTxn sdk) f usages t = Some (Inr quotas, t')"
    and q: "\<And>i. om_find quotas i = (if om_find usages i = None then None else flushed usages Q i)"
    and v: "\<And>i. sview (sdk_txn t') (dquota_key f i) = map_option (EncodeDirQuotaValue pb) (flushed usages Q i)"
    and o: "\<And>k. (\<forall>i. k \<noteq> dquota_key f i) \<longrightarrow> sview (sdk_txn t') k = sview (sdk_txn t) k"
    using kv_txn.flush_dir_usages [OF sdk_contract.dingo_txn [OF assms(1)] assms(3,2,4,5,6)]
    unfolding returns_def by blast
  show ?thesis
    using r o q v by (simp add: flushed_def split: option.split)
qed

theorem flush_dir_usages_correct_witness:
  "\<exists>quotas t'. FlushDirUsagesOperation_Run val_pb (DingodbTxn ref_sdk) 1
        [(3, \<lparr>us_bytes = 5, us_inodes = 2\<rparr>), (4, \<lparr>us_bytes = 1, us_inodes = 1\<rparr>)]
        (ex_open [(dquota_key 1 3, VQuota ex_quota)]) = Some (Inr quotas, t')
    \<and> ref_view (sdk_txn t') (dquota_key 1 3) = Some (VQuota (ex_quota\<lparr>q_used_bytes := 12, q_used_inodes := 3\<rparr>))
    \<and> om_find quotas 4 = None"
proof -
  let ?t = "ex_open [(dquota_key 1 3, VQuota ex_quota)]"
  let ?us = "[(3, \<lparr>us_bytes = 5, us_inodes = 2\<rparr>), (4, \<lparr>us_bytes = 1, us_inodes = 1\<rparr>)] :: (u64, UsageEntry) omap"
  let ?Q = "[3 \<mapsto> ex_quota] :: u64 \<rightharpoonup> QuotaEntry"
  have i: "ref_inv (sdk_txn ?t)" and f: "(1 :: u32) > 0" and us: "om_ok ?us"
    by (simp_all add: om_ok_def)
  have Q: "ref_view (sdk_txn ?t) (dquota_key 1 i)
      = map_option (EncodeDirQuotaValue val_pb) (?Q i)" for i
    by (simp add: om_find_def EncodeDirQuotaValue_def val_pb_def)
  obtain quotas t' where r: "FlushDirUsagesOperation_Run val_pb (DingodbTxn ref_sdk) 1 ?us ?t = Some (Inr quotas, t')"
    and v: "ref_view (sdk_txn t') (dquota_key 1 3) = map_option (EncodeDirQuotaValue val_pb)
          (case om_find ?us 3 of None \<Rightarrow> ?Q 3 | Some u \<Rightarrow> map_option (add_usage u) (?Q 3))"
    and q: "om_find quotas 4 =
          (case om_find ?us 4 of None \<Rightarrow> None | Some u \<Rightarrow> map_option (add_usage u) (?Q 4))"
    using flush_dir_usages_correct [OF ref_contract pb_ok_val i f us Q] by blast
  have "ref_view (sdk_txn t') (dquota_key 1 3)
      = Some (VQuota (ex_quota\<lparr>q_used_bytes := 12, q_used_inodes := 3\<rparr>))"
    unfolding v by (simp add: om_find_def add_usage_def EncodeDirQuotaValue_def val_pb_def ex_quota_def)
  moreover have "om_find quotas 4 = None" unfolding q by (simp add: om_find_def)
  ultimately show ?thesis using r by blast
qed

text \<open>C14: a directory quota that is set can be read back with the new limits and the usage recorded
  before, or none where there was no quota.\<close>

theorem dir_quota_roundtrip:
  assumes "sdk_contract sdk sview sinv" and "pb_ok pb" and "sinv (sdk_txn t)" and "f > 0"
    and "sview (sdk_txn t) (dquota_key f i) = map_option (EncodeDirQuotaValue pb) old"
  shows "\<exists>t'. SetDirQuotaOperation_Run pb (DingodbTxn sdk) f i quota t = Some (Inr (), t')
    \<and> GetDirQuotaOperation_Run pb (DingodbTxn sdk) f i t' = Some (Inr
        \<lparr>q_max_bytes = q_max_bytes quota, q_max_inodes = q_max_inodes quota,
         q_used_bytes = (case old of None \<Rightarrow> 0 | Some q \<Rightarrow> q_used_bytes q),
         q_used_inodes = (case old of None \<Rightarrow> 0 | Some q \<Rightarrow> q_used_inodes q)\<rparr>, t')"
  using kv_txn.set_get_dir_quota [OF sdk_contract.dingo_txn [OF assms(1)] assms(3,2,4,5), of quota]
  by (cases old) (auto simp: returns_def default_quota_def)

theorem dir_quota_roundtrip_witness:
  "\<exists>t'. SetDirQuotaOperation_Run val_pb (DingodbTxn ref_sdk) 1 3 ex_quota (ex_open []) = Some (Inr (), t')
    \<and> GetDirQuotaOperation_Run val_pb (DingodbTxn ref_sdk) 1 3 t'
        = Some (Inr \<lparr>q_max_bytes = 100, q_max_inodes = 10, q_used_bytes = 0, q_used_inodes = 0\<rparr>, t')"
  using dir_quota_roundtrip [OF ref_contract pb_ok_val, of "ex_open []" 1 3 None ex_quota]
  by (simp add: om_find_def ex_quota_def)

text \<open>C15: reading the heartbeat records of all servers returns each of them exactly once when there are
  fewer than the scan batch of 10000, and never returns when there are more: every turn of the loop
  scans the same range.\<close>

theorem scan_mds_ends_iff:
  assumes "sdk_contract sdk sview sinv" and "pb_ok pb" and "sinv (sdk_txn t)"
    and "mds_records pb (sview (sdk_txn t)) E"
  shows "if card (dom E) < 10000
         then \<exists>xs. ScanMdsOperation_Run pb (DingodbTxn sdk) t = Some (Inr xs, t)
                \<and> set xs = ran E \<and> length xs = card (dom E)
         else ScanMdsOperation_Run pb (DingodbTxn sdk) t = None"
  using kv_scan_txn.scan_mds [OF sdk_contract.dingo_scan_txn [OF assms(1)] assms(3,2,4)]
  by (simp add: FLAGS_fs_scan_batch_size_def)

theorem scan_mds_ends_iff_witness:
  "\<exists>xs. ScanMdsOperation_Run val_pb (DingodbTxn ref_sdk)
          (ex_open [(EncodeHeartbeatKey_mds (ROLE_MDS val_pb) 5, VMds ex_mds)])
        = Some (Inr xs, ex_open [(EncodeHeartbeatKey_mds (ROLE_MDS val_pb) 5, VMds ex_mds)])
      \<and> set xs = {ex_mds} \<and> length xs = 1"
proof -
  let ?t = "ex_open [(EncodeHeartbeatKey_mds (ROLE_MDS val_pb) 5, VMds ex_mds)]"
  have i: "ref_inv (sdk_txn ?t)" by (simp add: om_ok_def)
  have E: "mds_records val_pb (ref_view (sdk_txn ?t)) [5 \<mapsto> ex_mds]"
    by (auto simp: mds_records_def om_find_def EncodeHeartbeatValue_mds_def val_pb_def)
  have "card (dom [5 \<mapsto> ex_mds]) = 1" "ran [5 \<mapsto> ex_mds] = {ex_mds}" for ex_mds :: MdsEntry
    by (simp_all add: dom_def ran_def)
  then show ?thesis using scan_mds_ends_iff [OF ref_contract pb_ok_val i E] by (simp del: fun_upd_apply)
qed

end
