(* ===== verification/Compact.thy ===== *)
theory Compact
  imports Example
begin

text \<open>
  Chunk compaction (\<^verbatim>\<open>CompactChunkOperation\<close> of \<^verbatim>\<open>mdsv2/filesystem/store_operation.cc\<close>) and the
  deletion of its trash (\<^verbatim>\<open>mdsv2/background/gc.cc\<close>). A chunk is a list of slices, the newest of
  which (the one with the largest id) is visible at an offset; compaction moves slices that are not
  visible anywhere to the trash. \<open>None\<close> is undefined behaviour, an abort or a loop without end.
\<close>

subsection \<open>Slices to delete\<close>

definition slice_end :: "Slice \<Rightarrow> u64" where
  "slice_end s = sl_offset s + sl_len s"

record OffsetRange =
  or_start :: u64
  or_end :: u64
  or_slices :: "Slice list"

definition trash_slice :: "FsInfoType \<Rightarrow> u64 \<Rightarrow> Chunk \<Rightarrow> bool \<Rightarrow> Slice \<Rightarrow> TrashSlice" where
  "trash_slice fs_info ino chunk is_partial s =
     \<lparr>ts_fs_id = fi_fs_id fs_info, ts_ino = ino, ts_chunk_index = ck_index chunk,
      ts_slice_id = sl_id s, ts_block_size = fi_block_size fs_info, ts_is_partial = is_partial,
      ts_ranges = [\<lparr>sr_offset = sl_offset s, sr_len = sl_len s\<rparr>]\<rparr>"

text \<open>Slices that start behind the end of the file.\<close>

definition out_of_length_slices :: "FsInfoType \<Rightarrow> u64 \<Rightarrow> u64 \<Rightarrow> Chunk \<Rightarrow> TrashSliceList" where
  "out_of_length_slices fs_info ino file_length chunk =
     (let chunk_size = fi_chunk_size fs_info; chunk_offset = ck_index chunk * chunk_size
      in if chunk_offset + chunk_size > file_length
         then map (trash_slice fs_info ino chunk False)
                (filter (\<lambda>s. sl_offset s \<ge> file_length) (ck_slices chunk))
         else [])"

text \<open>
  The ranges between consecutive start and end offsets, each with the slices that intersect it,
  newest first. \<^verbatim>\<open>std::sort\<close> leaves the order of equal elements open; the model's sort is stable.
\<close>

definition slice_offsets :: "Slice list \<Rightarrow> u64 list" where
  "slice_offsets slices = sort (remdups (concat (map (\<lambda>s. [sl_offset s, slice_end s]) slices)))"

definition intersects :: "u64 \<Rightarrow> u64 \<Rightarrow> Slice \<Rightarrow> bool" where
  "intersects lo hi s \<longleftrightarrow> \<not> (slice_end s \<le> lo \<or> sl_offset s \<ge> hi)"

definition offset_ranges :: "Slice list \<Rightarrow> OffsetRange list" where
  "offset_ranges slices =
     (let offsets = slice_offsets slices
      in map (\<lambda>(lo, hi). \<lparr>or_start = lo, or_end = hi,
                 or_slices = sort_key (\<lambda>s. - 1 - sl_id s) (filter (intersects lo hi) slices)\<rparr>)
           (zip offsets (tl offsets)))"

definition reserve_slice_ids :: "OffsetRange list \<Rightarrow> u64 list" where
  "reserve_slice_ids ranges =
     map (\<lambda>r. sl_id (hd (or_slices r))) (filter (\<lambda>r. or_slices r \<noteq> []) ranges)"

definition overlapped_slices :: "FsInfoType \<Rightarrow> u64 \<Rightarrow> Chunk \<Rightarrow> Slice list \<Rightarrow> u64 list \<Rightarrow> TrashSliceList" where
  "overlapped_slices fs_info ino chunk slices reserve =
     map (trash_slice fs_info ino chunk False) (filter (\<lambda>s. sl_id s \<notin> set reserve) slices)"

text \<open>The hidden blocks of a slice that is visible elsewhere.\<close>

definition add_block ::
    "FsInfoType \<Rightarrow> u64 \<Rightarrow> Chunk \<Rightarrow> Slice \<Rightarrow> u64 \<Rightarrow> (u64, TrashSlice) omap \<Rightarrow> (u64, TrashSlice) omap" where
  "add_block fs_info ino chunk s block_offset m =
     (case om_find m (sl_id s) of
        None \<Rightarrow> om_insert (sl_id s) (trash_slice fs_info ino chunk True s) m
      | Some ts \<Rightarrow> om_insert (sl_id s)
          (ts\<lparr>ts_ranges := ts_ranges ts @ [\<lparr>sr_offset = block_offset, sr_len = fi_block_size fs_info\<rparr>]\<rparr>) m)"

partial_function (option) block_loop ::
    "u64 \<Rightarrow> u64 \<Rightarrow> u64 \<Rightarrow> (u64 \<Rightarrow> 'm \<Rightarrow> 'm) \<Rightarrow> u64 \<Rightarrow> 'm \<Rightarrow> 'm option" where
  "block_loop block_size start_offset end_offset add block_offset m =
     (if block_offset < end_offset
      then block_loop block_size start_offset end_offset add (block_offset + block_size)
             (if block_offset \<ge> start_offset \<and> block_offset + block_size < end_offset
              then add block_offset m else m)
      else Some m)"

fun partial_of_slices ::
    "FsInfoType \<Rightarrow> u64 \<Rightarrow> Chunk \<Rightarrow> u64 list \<Rightarrow> u64 \<Rightarrow> u64 \<Rightarrow> Slice list \<Rightarrow> (u64, TrashSlice) omap
      \<Rightarrow> (u64, TrashSlice) omap option" where
  "partial_of_slices fs_info ino chunk reserve lo hi [] m = Some m"
| "partial_of_slices fs_info ino chunk reserve lo hi (s # ss) m =
     (if sl_id s \<notin> set reserve then partial_of_slices fs_info ino chunk reserve lo hi ss m
      else do {
        m \<leftarrow> block_loop (fi_block_size fs_info) (max lo (sl_offset s)) (min hi (slice_end s))
               (add_block fs_info ino chunk s) (sl_offset s) m;
        partial_of_slices fs_info ino chunk reserve lo hi ss m
      })"

text \<open>\<^verbatim>\<open>slices.front()\<close> of a range without slices is undefined.\<close>

fun partial_slices ::
    "FsInfoType \<Rightarrow> u64 \<Rightarrow> Chunk \<Rightarrow> u64 list \<Rightarrow> OffsetRange list \<Rightarrow> (u64, TrashSlice) omap
      \<Rightarrow> (u64, TrashSlice) omap option" where
  "partial_slices fs_info ino chunk reserve [] m = Some m"
| "partial_slices fs_info ino chunk reserve (r # rs) m =
     (case or_slices r of
        [] \<Rightarrow> None
      | s # ss \<Rightarrow> do {
          m \<leftarrow> partial_of_slices fs_info ino chunk reserve (or_start r) (or_end r) ss m;
          partial_slices fs_info ino chunk reserve rs m
        })"

definition GenTrashSlices :: "FsInfoType \<Rightarrow> u64 \<Rightarrow> u64 \<Rightarrow> Chunk \<Rightarrow> TrashSliceList option" where
  "GenTrashSlices fs_info ino file_length chunk = do {
     let slices = sort_key sl_offset (ck_slices chunk);
     let ranges = offset_ranges slices;
     let reserve = reserve_slice_ids ranges;
     temp_trash_slice_map \<leftarrow> partial_slices fs_info ino chunk reserve ranges [];
     Some (out_of_length_slices fs_info ino file_length chunk
           @ overlapped_slices fs_info ino chunk slices reserve
           @ map snd temp_trash_slice_map)
   }"

subsection \<open>Compaction\<close>

definition UpdateChunk :: "Chunk \<Rightarrow> TrashSliceList \<Rightarrow> Chunk" where
  "UpdateChunk chunk trash_slices =
     (let slice_map = fold (\<lambda>ts. om_insert (ts_slice_id ts) ts) trash_slices []
      in chunk\<lparr>ck_slices := filter (\<lambda>s. case om_find slice_map (sl_id s) of
                 None \<Rightarrow> True | Some ts \<Rightarrow> ts_is_partial ts) (ck_slices chunk)\<rparr>)"

definition DoCompactChunk ::
    "FsInfoType \<Rightarrow> u64 \<Rightarrow> u64 \<Rightarrow> Chunk \<Rightarrow> (TrashSliceList \<times> Chunk) option" where
  "DoCompactChunk fs_info ino file_length chunk = do {
     trash_slice_list \<leftarrow> GenTrashSlices fs_info ino file_length chunk;
     if trash_slice_list = [] then Some ([], chunk)
     else Some (trash_slice_list, UpdateChunk chunk trash_slice_list)
   }"

text \<open>\<open>now\<close> is \<^verbatim>\<open>Helper::TimestampNs()\<close> when the chunk's trash is written.\<close>

definition CompactChunk ::
    "'v pb \<Rightarrow> ('t, 'v) Txn \<Rightarrow> u64 \<Rightarrow> FsInfoType \<Rightarrow> u64 \<Rightarrow> u64 \<Rightarrow> Chunk \<Rightarrow> 't
      \<Rightarrow> (TrashSliceList \<times> Chunk \<times> 't) option" where
  "CompactChunk pb T now fs_info ino file_length chunk t = do {
     (trash_slice_list, chunk) \<leftarrow> DoCompactChunk fs_info ino file_length chunk;
     if trash_slice_list = [] then Some ([], chunk, t)
     else do {
       t \<leftarrow> tx_put T (EncodeTrashChunkKey (fi_fs_id fs_info) ino (ck_index chunk) now)
              (EncodeTrashChunkValue pb trash_slice_list) t;
       Some (trash_slice_list, chunk, t)
     }
   }"

fun CompactChunks ::
    "'v pb \<Rightarrow> ('t, 'v) Txn \<Rightarrow> (u64 \<Rightarrow> u64) \<Rightarrow> FsInfoType \<Rightarrow> u64 \<Rightarrow> u64 \<Rightarrow> (u64, Chunk) omap \<Rightarrow> 't
      \<Rightarrow> (TrashSliceList \<times> (u64, Chunk) omap \<times> 't) option" where
  "CompactChunks pb T now fs_info ino file_length [] t = Some ([], [], t)"
| "CompactChunks pb T now fs_info ino file_length ((i, chunk) # chunks) t = do {
     (part, chunk, t) \<leftarrow> CompactChunk pb T (now i) fs_info ino file_length chunk t;
     (rest, chunks, t) \<leftarrow> CompactChunks pb T now fs_info ino file_length chunks t;
     Some (part @ rest, (i, chunk) # chunks, t)
   }"

definition CompactChunkOperation_Run ::
    "'v pb \<Rightarrow> ('t, 'v) Txn \<Rightarrow> (u64 \<Rightarrow> u64) \<Rightarrow> FsInfoType \<Rightarrow> u64 \<Rightarrow> u64 \<Rightarrow> 't
      \<Rightarrow> ((Status + TrashSliceList \<times> AttrType) \<times> 't) option" where
  "CompactChunkOperation_Run pb T now fs_info ino chunk_index t = do {
     key \<leftarrow> EncodeInodeKey (fi_fs_id fs_info) ino;
     case Get T key t of
       Inl status \<Rightarrow> Some (Inl status, t)
     | Inr v \<Rightarrow> do {
         attr \<leftarrow> DecodeInodeValue pb v;
         (trash_slice_list, attr, t) \<leftarrow>
           (if chunk_index = 0 then do {
              (tl, chunks, t) \<leftarrow> CompactChunks pb T now fs_info ino (at_length attr) (at_chunks attr) t;
              Some (tl, attr\<lparr>at_chunks := chunks\<rparr>, t)
            } else do {
              chunk \<leftarrow> om_find (at_chunks attr) chunk_index;
              (tl, chunk, t) \<leftarrow>
                CompactChunk pb T (now chunk_index) fs_info ino (at_length attr) chunk t;
              Some (tl, attr\<lparr>at_chunks := om_insert chunk_index chunk (at_chunks attr)\<rparr>, t)
            });
         let attr = attr\<lparr>at_version := at_version attr + 1\<rparr>;
         t \<leftarrow> tx_put T key (EncodeInodeValue pb attr) t;
         Some (Inr (trash_slice_list, attr), t)
       }
   }"

subsection \<open>What a reader sees\<close>

definition covers :: "u64 \<Rightarrow> Slice \<Rightarrow> bool" where
  "covers x s \<longleftrightarrow> sl_offset s \<le> x \<and> x < slice_end s"

text \<open>The newest slice at an offset.\<close>

definition visible :: "Slice list \<Rightarrow> u64 \<Rightarrow> u64 option" where
  "visible ss x =
     (let ids = map sl_id (filter (covers x) ss) in if ids = [] then None else Some (Max (set ids)))"

text \<open>No slice reaches beyond the largest offset.\<close>

definition slices_ok :: "Slice list \<Rightarrow> bool" where
  "slices_ok ss \<longleftrightarrow> distinct (map sl_id ss) \<and>
     list_all (\<lambda>s. unat (sl_offset s) + unat (sl_len s) < 2 ^ 64) ss"

lemma visible_None: "visible ss x = None \<longleftrightarrow> (\<forall>s \<in> set ss. \<not> covers x s)"
  by (auto simp: visible_def Let_def filter_empty_conv)

lemma visible_Some:
  "visible ss x = Some i \<longleftrightarrow>
     (\<exists>s \<in> set ss. covers x s \<and> sl_id s = i) \<and> (\<forall>s \<in> set ss. covers x s \<longrightarrow> sl_id s \<le> i)"
proof -
  let ?A = "sl_id ` {s \<in> set ss. covers x s}"
  have "visible ss x = Some i \<longleftrightarrow> ?A \<noteq> {} \<and> Max ?A = i"
    by (auto simp: visible_def Let_def filter_empty_conv)
  also have "\<dots> \<longleftrightarrow> i \<in> ?A \<and> (\<forall>j \<in> ?A. j \<le> i)"
    by (metis (no_types, lifting) Max_eq_iff empty_iff finite_imageI finite_set rev_finite_subset
        mem_Collect_eq subsetI)
  finally show ?thesis by auto
qed

lemma visible_eqI:
  assumes "set ss' \<subseteq> set ss"
    and "\<And>i. visible ss x = Some i \<Longrightarrow> \<exists>s \<in> set ss'. covers x s \<and> sl_id s = i"
  shows "visible ss' x = visible ss x"
proof (cases "visible ss x")
  case None
  then have "visible ss' x = None" using assms(1) unfolding visible_None by blast
  then show ?thesis using None by simp
next
  case (Some i)
  then show ?thesis using assms visible_Some [of ss x i] visible_Some [of ss' x i] by auto
qed

lemma unat_slice_end:
  "unat (sl_offset s) + unat (sl_len s) < 2 ^ 64 \<Longrightarrow> unat (slice_end s) = unat (sl_offset s) + unat (sl_len s)"
  by (simp add: slice_end_def unat_word_ariths)

subsection \<open>Ranges between consecutive offsets\<close>

lemma zip_consecutive_less:
  fixes xs :: "'a::linorder list"
  assumes "sorted_wrt (<) xs" and "(a, b) \<in> set (zip xs (tl xs))"
  shows "a < b"
  using assms
proof (induction xs)
  case (Cons x xs)
  then show ?case by (cases xs) auto
qed simp

lemma zip_consecutive:
  fixes xs :: "'a::linorder list"
  assumes "sorted_wrt (<) xs" and "(a, b) \<in> set (zip xs (tl xs))" and "y \<in> set xs"
  shows "y \<le> a \<or> b \<le> y"
  using assms
proof (induction xs)
  case (Cons x xs)
  show ?case
  proof (cases xs)
    case Nil
    then show ?thesis using Cons.prems by simp
  next
    case (Cons z zs)
    consider "a = x" "b = z" | "(a, b) \<in> set (zip xs (tl xs))"
      using Cons.prems(2) Cons by auto
    then show ?thesis
    proof cases
      case 1
      then show ?thesis using Cons.prems(1,3) Cons by (auto simp: less_imp_le)
    next
      case 2
      have "x < a" using set_zip_leftD [OF 2] Cons.prems(1) by simp
      then show ?thesis using Cons.IH 2 Cons.prems(1,3) by auto
    qed
  qed
qed simp

lemma zip_consecutive_ex:
  fixes xs :: "'a::linorder list"
  assumes "sorted_wrt (<) xs" and "lo \<in> set xs" and "hi \<in> set xs" and "lo \<le> x" and "x < hi"
  shows "\<exists>(a, b) \<in> set (zip xs (tl xs)). a \<le> x \<and> x < b"
  using assms
proof (induction xs arbitrary: lo)
  case (Cons y ys)
  show ?case
  proof (cases ys)
    case Nil
    then show ?thesis using Cons.prems by auto
  next
    case (Cons z zs)
    have less: "y < z" "sorted_wrt (<) ys" using Cons.prems(1) Cons by auto
    show ?thesis
    proof (cases "x < z")
      case True
      moreover have "y \<le> x" using Cons.prems(1,2,4) by auto
      ultimately show ?thesis using Cons by auto
    next
      case False
      have "hi \<in> set ys" using Cons.prems(3,5) False less(1) by auto
      moreover have "z \<in> set ys" "z \<le> x" using Cons False by auto
      ultimately have "\<exists>(a, b) \<in> set (zip ys (tl ys)). a \<le> x \<and> x < b"
        using Cons.IH [of z] less(2) Cons.prems(5) by simp
      then show ?thesis using Cons by auto
    qed
  qed
qed simp

lemma set_slice_offsets:
  "set (slice_offsets ss) = sl_offset ` set ss \<union> slice_end ` set ss"
  by (auto simp: slice_offsets_def)

lemma sorted_slice_offsets: "sorted_wrt (<) (slice_offsets ss)"
  by (simp add: slice_offsets_def strict_sorted_iff)

lemma intersects_covers:
  assumes "s \<in> set ss" and "(a, b) \<in> set (zip (slice_offsets ss) (tl (slice_offsets ss)))"
    and "a \<le> x" and "x < b"
  shows "intersects a b s \<longleftrightarrow> covers x s"
proof -
  have "sl_offset s \<in> set (slice_offsets ss)" "slice_end s \<in> set (slice_offsets ss)"
    using assms(1) by (auto simp: set_slice_offsets)
  then have "sl_offset s \<le> a \<or> b \<le> sl_offset s" "slice_end s \<le> a \<or> b \<le> slice_end s"
    using zip_consecutive [OF sorted_slice_offsets assms(2)] by auto
  then show ?thesis using assms(3,4) by (auto simp: intersects_def covers_def)
qed

lemma newest_first: "(- 1 - a :: u64) \<le> - 1 - b \<longleftrightarrow> b \<le> a"
proof -
  have s: "unat (- 1 - c :: u64) = unat (- 1 :: u64) - unat c" for c :: u64
    by (rule unat_sub) simp
  have "unat c \<le> unat (- 1 :: u64)" for c :: u64
    by (simp flip: word_le_nat_alt)
  from this [of a] this [of b] show ?thesis unfolding word_le_nat_alt s by linarith
qed

lemma hd_sort_key:
  assumes "s \<in> set xs"
  shows "hd (sort_key f xs) \<in> set xs" and "f (hd (sort_key f xs)) \<le> f s"
proof -
  obtain y ys where y: "sort_key f xs = y # ys" using assms by (metis list.exhaust set_sort empty_iff set_empty)
  then have "set (y # ys) = set xs" and "sorted (map f (y # ys))" by (metis set_sort, metis sorted_sort_key)
  then show "hd (sort_key f xs) \<in> set xs" "f (hd (sort_key f xs)) \<le> f s" using assms y by auto
qed

lemma newest_reserved:
  assumes "visible ss x = Some i"
  shows "i \<in> set (reserve_slice_ids (offset_ranges ss))"
proof -
  obtain s where s: "s \<in> set ss" "covers x s" "sl_id s = i"
    and max: "\<And>u. u \<in> set ss \<Longrightarrow> covers x u \<Longrightarrow> sl_id u \<le> i"
    using assms unfolding visible_Some by auto
  let ?o = "slice_offsets ss"
  obtain a b where ab: "(a, b) \<in> set (zip ?o (tl ?o))" "a \<le> x" "x < b"
    using zip_consecutive_ex [OF sorted_slice_offsets, of "sl_offset s" ss "slice_end s" x] s
    by (auto simp: set_slice_offsets covers_def)
  let ?c = "filter (intersects a b) ss"
  let ?l = "sort_key (\<lambda>s. - 1 - sl_id s) ?c"
  have sc: "s \<in> set ?c" using intersects_covers [OF s(1) ab] s by simp
  have hd: "hd ?l \<in> set ?c" "i \<le> sl_id (hd ?l)"
    using hd_sort_key [OF sc, of "\<lambda>s. - 1 - sl_id s"] s(3) by (auto simp: newest_first)
  moreover have "sl_id (hd ?l) \<le> i"
    using hd(1) max intersects_covers [OF _ ab] by auto
  ultimately have i: "sl_id (hd ?l) = i" by simp
  have "\<lparr>or_start = a, or_end = b, or_slices = ?l\<rparr> \<in> set (offset_ranges ss)"
    using ab(1) by (force simp: offset_ranges_def Let_def image_iff)
  moreover have "?l \<noteq> []" using sc by (metis set_empty set_sort empty_iff)
  ultimately show ?thesis
    unfolding reserve_slice_ids_def using i by (force simp: image_iff)
qed

subsection \<open>Compaction keeps what is visible\<close>

lemma om_find_fold_insert:
  "om_find (fold (\<lambda>x. om_insert (g x) x) xs m) k = Some y \<Longrightarrow>
     y \<in> set xs \<and> g y = k \<or> om_find m k = Some y"
  by (induction xs arbitrary: m) (fastforce simp: om_find_insert split: if_splits)+

lemma set_om_insert: "set (om_insert k v m) \<subseteq> insert (k, v) (set m)"
  by (induction k v m rule: om_insert.induct) auto

lemma block_loop_pres:
  assumes "block_loop bs lo hi add bo m = Some m'" and "P m" and "\<And>b m. P m \<Longrightarrow> P (add b m)"
  shows "P m'"
proof -
  have "add = add \<longrightarrow> P m \<longrightarrow> P m'"
  proof (rule block_loop.raw_induct [OF _ assms(1), where P = "\<lambda>bs lo hi add' bo m m'.
        add' = add \<longrightarrow> P m \<longrightarrow> P m'"], intro impI)
    fix loop bs lo hi add' bo m m'
    assume IH: "\<And>bs lo hi add' bo m m'. loop bs lo hi add' bo m = Some m' \<Longrightarrow>
        add' = add \<longrightarrow> P m \<longrightarrow> P m'"
      and run: "(if bo < hi then loop bs lo hi add' (bo + bs)
          (if lo \<le> bo \<and> bo + bs < hi then add' bo m else m) else Some m) = Some m'"
      and a: "add' = add" "P m"
    have "P (if lo \<le> bo \<and> bo + bs < hi then add' bo m else m)" using a assms(3) by simp
    then show "P m'" using run a IH [of bs lo hi add'] by (auto split: if_split_asm)
  qed
  then show ?thesis using assms(2) by simp
qed

definition all_partial :: "(u64, TrashSlice) omap \<Rightarrow> bool" where
  "all_partial m \<longleftrightarrow> (\<forall>e \<in> set m. ts_is_partial (snd e))"

lemma all_partial_add: "all_partial m \<Longrightarrow> all_partial (add_block fs ino c s b m)"
proof -
  assume m: "all_partial m"
  have "ts_is_partial ts" if "om_find m (sl_id s) = Some ts" for ts
    using m map_of_SomeD [of m "sl_id s" ts] that by (auto simp: all_partial_def om_find_def)
  then show ?thesis
    using m set_om_insert [of "sl_id s" _ m]
    unfolding all_partial_def add_block_def
    by (cases "om_find m (sl_id s)") (fastforce simp: trash_slice_def)+
qed

lemma all_partial_of_slices:
  "partial_of_slices fs ino c reserve lo hi ss m = Some m' \<Longrightarrow> all_partial m \<Longrightarrow> all_partial m'"
proof (induction ss arbitrary: m)
  case (Cons s ss)
  then show ?case
    using block_loop_pres [where P = all_partial, OF _ _ all_partial_add]
    by (auto simp: bind_eq_Some_conv split: if_split_asm)
qed simp

lemma all_partial_slices:
  "partial_slices fs ino c reserve rs m = Some m' \<Longrightarrow> all_partial m \<Longrightarrow> all_partial m'"
  by (induction rs arbitrary: m)
    (auto simp: bind_eq_Some_conv split: list.splits dest: all_partial_of_slices)

lemma GenTrashSlices_whole:
  assumes "GenTrashSlices fs ino flen chunk = Some tr" and "ts \<in> set tr" and "\<not> ts_is_partial ts"
  obtains u where "u \<in> set (ck_slices chunk)" "sl_id u = ts_slice_id ts"
    "flen \<le> sl_offset u
     \<or> sl_id u \<notin> set (reserve_slice_ids (offset_ranges (sort_key sl_offset (ck_slices chunk))))"
proof -
  let ?ss = "sort_key sl_offset (ck_slices chunk)"
  let ?rs = "reserve_slice_ids (offset_ranges ?ss)"
  obtain m where "partial_slices fs ino chunk ?rs (offset_ranges ?ss) [] = Some m"
    and tr: "tr = out_of_length_slices fs ino flen chunk @ overlapped_slices fs ino chunk ?ss ?rs @ map snd m"
    using assms(1) by (auto simp: GenTrashSlices_def bind_eq_Some_conv Let_def)
  then have "all_partial m" using all_partial_slices by (fastforce simp: all_partial_def [of "[]"])
  then have "ts \<in> set (out_of_length_slices fs ino flen chunk) \<or> ts \<in> set (overlapped_slices fs ino chunk ?ss ?rs)"
    using assms(2,3) tr by (auto simp: all_partial_def)
  then obtain u where "u \<in> set (ck_slices chunk)" "sl_id u = ts_slice_id ts"
      "flen \<le> sl_offset u \<or> sl_id u \<notin> set ?rs"
    by (auto simp: out_of_length_slices_def overlapped_slices_def trash_slice_def Let_def split: if_splits)
  then show thesis by (rule that)
qed

lemma visible_sort: "visible (sort_key f ss) x = visible ss x"
  by (rule visible_eqI) (auto simp: visible_Some)

lemma visible_UpdateChunk:
  assumes "GenTrashSlices fs ino flen chunk = Some tr" and "distinct (map sl_id (ck_slices chunk))"
    and "x < flen"
  shows "visible (ck_slices (UpdateChunk chunk tr)) x = visible (ck_slices chunk) x"
proof (rule visible_eqI)
  let ?m = "fold (\<lambda>ts. om_insert (ts_slice_id ts) ts) tr []"
  show "set (ck_slices (UpdateChunk chunk tr)) \<subseteq> set (ck_slices chunk)"
    by (auto simp: UpdateChunk_def Let_def)
  fix i assume i: "visible (ck_slices chunk) x = Some i"
  then obtain s where s: "s \<in> set (ck_slices chunk)" "covers x s" "sl_id s = i"
    unfolding visible_Some by auto
  have res: "i \<in> set (reserve_slice_ids (offset_ranges (sort_key sl_offset (ck_slices chunk))))"
    using newest_reserved [of "sort_key sl_offset (ck_slices chunk)" x i] i by (simp add: visible_sort)
  have "ts_is_partial ts" if ts: "om_find ?m i = Some ts" for ts
  proof (rule ccontr)
    assume np: "\<not> ts_is_partial ts"
    have "ts \<in> set tr" "ts_slice_id ts = i"
      using om_find_fold_insert [OF ts] by (auto simp: om_find_def)
    then obtain u where u: "u \<in> set (ck_slices chunk)" "sl_id u = i"
        "flen \<le> sl_offset u \<or> i \<notin> set (reserve_slice_ids (offset_ranges (sort_key sl_offset (ck_slices chunk))))"
      using GenTrashSlices_whole [OF assms(1) _ np] by metis
    then have "u = s" using s(1,3) assms(2) by (metis distinct_map inj_onD)
    then show False using u(3) res s(2) assms(3) by (auto simp: covers_def)
  qed
  then have "s \<in> set (ck_slices (UpdateChunk chunk tr))"
    using s by (auto simp: UpdateChunk_def Let_def split: option.split)
  then show "\<exists>s \<in> set (ck_slices (UpdateChunk chunk tr)). covers x s \<and> sl_id s = i" using s by auto
qed

subsection \<open>When compaction returns\<close>

text \<open>An offset between two slices that no slice covers.\<close>

definition gap :: "Slice list \<Rightarrow> u64 \<Rightarrow> bool" where
  "gap ss x \<longleftrightarrow> (\<exists>s \<in> set ss. slice_end s \<le> x) \<and> (\<exists>u \<in> set ss. x < sl_offset u) \<and> visible ss x = None"

lemma block_loop_returns:
  assumes "0 < bs" and "unat hi + unat bs < 2 ^ 64"
  shows "\<exists>m'. block_loop bs lo hi add bo m = Some m'"
proof (induction "unat hi - unat bo" arbitrary: bo m rule: less_induct)
  case less
  show ?case
  proof (cases "bo < hi")
    case True
    have "unat bo + unat bs < 2 ^ 64" using True assms(2) by (simp add: word_less_nat_alt)
    then have "unat (bo + bs) = unat bo + unat bs" by (simp add: unat_word_ariths)
    moreover have "0 < unat bs" using assms(1) by (simp add: word_less_nat_alt)
    ultimately have "unat hi - unat (bo + bs) < unat hi - unat bo"
      using True by (simp add: word_less_nat_alt)
    then show ?thesis using less True by (subst block_loop.simps) simp
  next
    case False
    then show ?thesis by (subst block_loop.simps) simp
  qed
qed

lemma partial_of_slices_returns:
  assumes "0 < fi_block_size fs" and "unat hi + unat (fi_block_size fs) < 2 ^ 64"
  shows "\<exists>m'. partial_of_slices fs ino c reserve lo hi ss m = Some m'"
proof (induction ss arbitrary: m)
  case (Cons s ss)
  have "unat (min hi (slice_end s)) + unat (fi_block_size fs) < 2 ^ 64"
    using assms(2) by (simp add: min_def word_le_nat_alt)
  then have "\<exists>m'. block_loop (fi_block_size fs) (max lo (sl_offset s)) (min hi (slice_end s))
      (add_block fs ino c s) (sl_offset s) m = Some m'"
    by (rule block_loop_returns [OF assms(1)])
  then show ?case using Cons.IH by auto
qed simp

lemma partial_slices_None_iff:
  assumes "0 < fi_block_size fs" and "\<And>r. r \<in> set rs \<Longrightarrow> unat (or_end r) + unat (fi_block_size fs) < 2 ^ 64"
  shows "partial_slices fs ino c reserve rs m = None \<longleftrightarrow> (\<exists>r \<in> set rs. or_slices r = [])"
  using assms(2)
proof (induction rs arbitrary: m)
  case (Cons r rs)
  show ?case
  proof (cases "or_slices r")
    case (Cons s ss)
    obtain m' where "partial_of_slices fs ino c reserve (or_start r) (or_end r) ss m = Some m'"
      using partial_of_slices_returns [OF assms(1)] Cons.prems [of r] by fastforce
    then show ?thesis using Cons Cons.IH Cons.prems by simp
  qed simp
qed simp

lemma empty_range_gap: "(\<exists>r \<in> set (offset_ranges ss). or_slices r = []) \<longleftrightarrow> (\<exists>x. gap ss x)"
proof
  let ?o = "slice_offsets ss"
  assume "\<exists>r \<in> set (offset_ranges ss). or_slices r = []"
  then obtain a b where ab: "(a, b) \<in> set (zip ?o (tl ?o))" "\<forall>s \<in> set ss. \<not> intersects a b s"
    by (auto simp: offset_ranges_def Let_def filter_empty_conv) (metis set_sort empty_filter_conv set_empty)
  have less: "a < b" by (rule zip_consecutive_less [OF sorted_slice_offsets ab(1)])
  have "visible ss a = None"
    using ab(2) intersects_covers [OF _ ab(1) order_refl less] by (auto simp: visible_None)
  moreover have "\<exists>s \<in> set ss. slice_end s \<le> a"
    using set_zip_leftD [OF ab(1)] ab(2) less by (fastforce simp: set_slice_offsets intersects_def)
  moreover have "b \<in> set ?o" using set_zip_rightD [OF ab(1)] by (metis list.set_sel(2) tl_Nil)
  then obtain u where u: "u \<in> set ss" "b = sl_offset u \<or> b = slice_end u"
    by (auto simp: set_slice_offsets)
  then have "a < sl_offset u" using ab(2) less by (auto simp: intersects_def)
  then have "\<exists>u \<in> set ss. a < sl_offset u" using u(1) by blast
  ultimately show "\<exists>x. gap ss x" by (auto simp: gap_def)
next
  let ?o = "slice_offsets ss"
  assume "\<exists>x. gap ss x"
  then obtain x s u where x: "s \<in> set ss" "slice_end s \<le> x" "u \<in> set ss" "x < sl_offset u"
    and none: "\<forall>v \<in> set ss. \<not> covers x v" by (auto simp: gap_def visible_None)
  obtain a b where ab: "(a, b) \<in> set (zip ?o (tl ?o))" "a \<le> x" "x < b"
    using zip_consecutive_ex [OF sorted_slice_offsets, of "slice_end s" ss "sl_offset u" x] x
    by (auto simp: set_slice_offsets)
  have "filter (intersects a b) ss = []"
    using none intersects_covers [OF _ ab] by (simp add: filter_empty_conv)
  then have "\<lparr>or_start = a, or_end = b, or_slices = []\<rparr> \<in> set (offset_ranges ss)"
    using ab(1) by (force simp: offset_ranges_def Let_def image_iff)
  then show "\<exists>r \<in> set (offset_ranges ss). or_slices r = []" by force
qed

end
