(* ===== verification/Gc.thy ===== *)
theory Gc
  imports Compact FsOps
begin

text \<open>
  The garbage collector (\<^verbatim>\<open>mdsv2/background/gc.cc\<close>): the tasks that delete the blocks of trashed
  slices and of deleted files from the object store and then the record, and the scans that find
  them. The object store's \<^verbatim>\<open>Delete\<close> and the storage's \<^verbatim>\<open>Delete\<close> are parameters. The second part
  holds the properties of compaction and collection.
\<close>

subsection \<open>Tasks\<close>

record BlockKey =
  bk_fs_id :: u64
  bk_ino :: u64
  bk_id :: u64
  bk_index :: u64
  bk_version :: u64

text \<open>
  The loops over the ranges of a slice and over the slices. \<open>del\<close> deletes the object whose name is the store key of a block; the division is
  undefined for a block size of zero.
\<close>

fun clean_ranges ::
    "(BlockKey \<Rightarrow> 'd \<Rightarrow> bool \<times> 'd) \<Rightarrow> TrashSlice \<Rightarrow> SliceRange list \<Rightarrow> 'd \<Rightarrow> (bool \<times> 'd) option" where
  "clean_ranges del sl [] d = Some (True, d)"
| "clean_ranges del sl (r # rs) d =
     (if ts_block_size sl = 0 then None
      else let index = sr_offset r div ts_block_size sl;
               (ok, d) = del \<lparr>bk_fs_id = ucast (ts_fs_id sl), bk_ino = ts_ino sl,
                              bk_id = ts_slice_id sl, bk_index = index, bk_version = 0\<rparr> d
           in if \<not> ok then Some (False, d) else clean_ranges del sl rs d)"

fun clean_slices ::
    "(BlockKey \<Rightarrow> 'd \<Rightarrow> bool \<times> 'd) \<Rightarrow> TrashSliceList \<Rightarrow> 'd \<Rightarrow> (bool \<times> 'd) option" where
  "clean_slices del [] d = Some (True, d)"
| "clean_slices del (sl # sls) d = do {
     (ok, d) \<leftarrow> clean_ranges del sl (ts_ranges sl) d;
     if \<not> ok then Some (False, d) else clean_slices del sls d
   }"

definition CleanDeletedSlice ::
    "'v pb \<Rightarrow> (bytes \<Rightarrow> 's \<Rightarrow> Status \<times> 's) \<Rightarrow> (BlockKey \<Rightarrow> 'd \<Rightarrow> bool \<times> 'd) \<Rightarrow> 'v KeyValue \<Rightarrow> 's \<Rightarrow> 'd
      \<Rightarrow> (Status \<times> 's \<times> 'd) option" where
  "CleanDeletedSlice pb kv_delete del kv s d = do {
     trash_slice_list \<leftarrow> DecodeTrashChunkValue pb (kv_value kv);
     (ok, d) \<leftarrow> clean_slices del trash_slice_list d;
     if \<not> ok then Some (EINTERNAL, s, d)
     else let (status, s) = kv_delete (kv_key kv) s in Some (status, s, d)
   }"

fun clean_chunk_slices ::
    "(BlockKey \<Rightarrow> 'd \<Rightarrow> bool \<times> 'd) \<Rightarrow> AttrType \<Rightarrow> Chunk \<Rightarrow> Slice list \<Rightarrow> 'd \<Rightarrow> (bool \<times> 'd) option" where
  "clean_chunk_slices del attr chunk [] d = Some (True, d)"
| "clean_chunk_slices del attr chunk (sl # sls) d =
     (if ck_block_size chunk = 0 then None
      else let index = sl_offset sl div ck_block_size chunk;
               (ok, d) = del \<lparr>bk_fs_id = ucast (at_fs_id attr), bk_ino = at_ino attr,
                              bk_id = sl_id sl, bk_index = index, bk_version = ck_version chunk\<rparr> d
           in if \<not> ok then Some (False, d) else clean_chunk_slices del attr chunk sls d)"

fun clean_chunks ::
    "(BlockKey \<Rightarrow> 'd \<Rightarrow> bool \<times> 'd) \<Rightarrow> AttrType \<Rightarrow> (u64, Chunk) omap \<Rightarrow> 'd \<Rightarrow> (bool \<times> 'd) option" where
  "clean_chunks del attr [] d = Some (True, d)"
| "clean_chunks del attr ((i, chunk) # chunks) d = do {
     (ok, d) \<leftarrow> clean_chunk_slices del attr chunk (ck_slices chunk) d;
     if \<not> ok then Some (False, d) else clean_chunks del attr chunks d
   }"

definition CleanDeletedFile ::
    "(bytes \<Rightarrow> 's \<Rightarrow> Status \<times> 's) \<Rightarrow> (BlockKey \<Rightarrow> 'd \<Rightarrow> bool \<times> 'd) \<Rightarrow> AttrType \<Rightarrow> 's \<Rightarrow> 'd
      \<Rightarrow> (Status \<times> 's \<times> 'd) option" where
  "CleanDeletedFile kv_delete del attr s d = do {
     (ok, d) \<leftarrow> clean_chunks del attr (at_chunks attr) d;
     if \<not> ok then Some (EINTERNAL, s, d)
     else let (status, s) = kv_delete (EncodeDelFileKey (at_fs_id attr) (at_ino attr)) s
          in Some (status, s, d)
   }"

definition FLAGS_gc_delfile_reserve_time_s :: u32 where
  "FLAGS_gc_delfile_reserve_time_s = 600"

definition ShouldDeleteFile :: "u64 \<Rightarrow> AttrType \<Rightarrow> bool" where
  "ShouldDeleteFile now_s attr \<longleftrightarrow>
     at_ctime attr div 1000000000 + ucast FLAGS_gc_delfile_reserve_time_s < now_s"

subsection \<open>Scans\<close>

text \<open>
  One pass over the records read so far: the tasks it submits. \<open>accessor\<close> tells whether the file
  system's object store can be opened. A record of file system 0 or inode 0 aborts.
\<close>

fun slice_tasks :: "(u32 \<Rightarrow> bool) \<Rightarrow> 'v KeyValue list \<Rightarrow> (u64 \<times> 'v KeyValue) list option" where
  "slice_tasks accessor [] = Some []"
| "slice_tasks accessor (kv # kvs) = do {
     (fs_id, ino, chunk_index, time_ns) \<leftarrow> DecodeTrashChunkKey (kv_key kv);
     CHECK (fs_id > 0);
     CHECK (ino > 0);
     tasks \<leftarrow> slice_tasks accessor kvs;
     Some (if accessor fs_id then (ino, kv) # tasks else tasks)
   }"

fun file_tasks :: "'v pb \<Rightarrow> (u32 \<Rightarrow> bool) \<Rightarrow> u64 \<Rightarrow> 'v KeyValue list \<Rightarrow> AttrType list option" where
  "file_tasks pb accessor now_s [] = Some []"
| "file_tasks pb accessor now_s (kv # kvs) = do {
     (fs_id, ino) \<leftarrow> DecodeDelFileKey (kv_key kv);
     tasks \<leftarrow> file_tasks pb accessor now_s kvs;
     if \<not> accessor fs_id then Some tasks
     else do {
       attr \<leftarrow> DecodeDelFileValue pb (kv_value kv);
       Some (if ShouldDeleteFile now_s attr then attr # tasks else tasks)
     }
   }"

text \<open>
  The scan loops do not clear \<^verbatim>\<open>kvs\<close>, to which a scan appends: a further turn repeats the records
  read before.
\<close>

partial_function (option) scan_append ::
    "(unit \<Rightarrow> Status + 'v KeyValue list) \<Rightarrow> nat \<Rightarrow> ('v KeyValue list \<Rightarrow> 'a list option)
      \<Rightarrow> 'v KeyValue list \<Rightarrow> 'a list \<Rightarrow> 'a list option" where
  "scan_append scan batch body kvs acc =
     (case scan () of
        Inl status \<Rightarrow> Some acc
      | Inr new \<Rightarrow> do {
          tasks \<leftarrow> body (kvs @ new);
          if length (kvs @ new) \<ge> batch then scan_append scan batch body (kvs @ new) (acc @ tasks)
          else Some (acc @ tasks)
        })"

definition ScanDeletedSlice ::
    "('t, 'v) Txn \<Rightarrow> (u32 \<Rightarrow> bool) \<Rightarrow> 't \<Rightarrow> (u64 \<times> 'v KeyValue) list option" where
  "ScanDeletedSlice T accessor t =
     (let (s, e) = GetTrashChunkTableRange
      in scan_append (\<lambda>_. Scan T \<lparr>start_key = s, end_key = e\<rparr> (of_nat FLAGS_fs_scan_batch_size) t)
           FLAGS_fs_scan_batch_size (slice_tasks accessor) [] [])"

definition ScanDeletedFile ::
    "'v pb \<Rightarrow> ('t, 'v) Txn \<Rightarrow> (u32 \<Rightarrow> bool) \<Rightarrow> u64 \<Rightarrow> 't \<Rightarrow> AttrType list option" where
  "ScanDeletedFile pb T accessor now_s t =
     (let (s, e) = GetDelFileTableRange
      in scan_append (\<lambda>_. Scan T \<lparr>start_key = s, end_key = e\<rparr> (of_nat FLAGS_fs_scan_batch_size) t)
           FLAGS_fs_scan_batch_size (file_tasks pb accessor now_s) [] [])"

record gc_state =
  is_running :: bool

text \<open>
  \<open>locked\<close> is \<^verbatim>\<open>dist_lock_->IsLocked()\<close>; the flag is released when the call returns. The result
  also lists the tasks of the two scans.
\<close>

definition LaunchGc ::
    "'v pb \<Rightarrow> ('t, 'v) Txn \<Rightarrow> (u32 \<Rightarrow> bool) \<Rightarrow> u64 \<Rightarrow> bool \<Rightarrow> 't \<Rightarrow> gc_state
      \<Rightarrow> (Status \<times> (u64 \<times> 'v KeyValue) list \<times> AttrType list \<times> gc_state) option" where
  "LaunchGc pb T accessor now_s locked t g =
     (if is_running g then Some (EINTERNAL, [], [], g)
      else if \<not> locked then Some (EINTERNAL, [], [], g\<lparr>is_running := False\<rparr>)
      else do {
        slices \<leftarrow> ScanDeletedSlice T accessor t;
        files \<leftarrow> ScanDeletedFile pb T accessor now_s t;
        Some (OK, slices, files, g\<lparr>is_running := False\<rparr>)
      })"

text \<open>The body of the manual collection: the tasks run one after the other, up to a failure.\<close>

fun manual_clean ::
    "'v pb \<Rightarrow> (bytes \<Rightarrow> 's \<Rightarrow> Status \<times> 's) \<Rightarrow> (BlockKey \<Rightarrow> 'd \<Rightarrow> bool \<times> 'd) \<Rightarrow> 'v KeyValue list
      \<Rightarrow> Status \<times> 's \<times> 'd \<Rightarrow> (Status \<times> 's \<times> 'd) option" where
  "manual_clean pb kv_delete del [] r = Some r"
| "manual_clean pb kv_delete del (kv # kvs) (status, s, d) = do {
     (status, s, d) \<leftarrow> CleanDeletedSlice pb kv_delete del kv s d;
     if \<not> ok status then Some (status, s, d)
     else manual_clean pb kv_delete del kvs (status, s, d)
   }"

partial_function (option) manual_loop ::
    "(unit \<Rightarrow> Status + 'v KeyValue list) \<Rightarrow> nat
      \<Rightarrow> ('v KeyValue list \<Rightarrow> Status \<times> 's \<times> 'd \<Rightarrow> (Status \<times> 's \<times> 'd) option)
      \<Rightarrow> 'v KeyValue list \<Rightarrow> 's \<Rightarrow> 'd \<Rightarrow> (Status \<times> 's \<times> 'd) option" where
  "manual_loop scan batch body kvs s d =
     (case scan () of
        Inl status \<Rightarrow> Some (status, s, d)
      | Inr new \<Rightarrow> do {
          (status, s, d) \<leftarrow> body (kvs @ new) (OK, s, d);
          if length (kvs @ new) \<ge> batch then manual_loop scan batch body (kvs @ new) s d
          else Some (status, s, d)
        })"

definition ManualCleanDeletedSlice ::
    "'v pb \<Rightarrow> ('t, 'v) Txn \<Rightarrow> (bytes \<Rightarrow> 's \<Rightarrow> Status \<times> 's) \<Rightarrow> (BlockKey \<Rightarrow> 'd \<Rightarrow> bool \<times> 'd) option
      \<Rightarrow> u32 \<Rightarrow> u64 \<Rightarrow> u64 \<Rightarrow> 't \<Rightarrow> 's \<Rightarrow> 'd \<Rightarrow> (Status \<times> 's \<times> 'd) option" where
  "ManualCleanDeletedSlice pb T kv_delete accessor fs_id ino chunk_index t s d =
     (case accessor of
        None \<Rightarrow> Some (EINTERNAL, s, d)
      | Some del \<Rightarrow>
          let (lo, hi) = (if chunk_index = 0 then GetTrashChunkRange_ino fs_id ino
                          else GetTrashChunkRange fs_id ino chunk_index)
          in manual_loop (\<lambda>_. Scan T \<lparr>start_key = lo, end_key = hi\<rparr> (of_nat FLAGS_fs_scan_batch_size) t)
               FLAGS_fs_scan_batch_size (manual_clean pb kv_delete del) [] s d)"

definition ManualCleanDeletedFile ::
    "'v pb \<Rightarrow> ('t, 'v) Txn \<Rightarrow> (bytes \<Rightarrow> 's \<Rightarrow> Status \<times> 's) \<Rightarrow> (BlockKey \<Rightarrow> 'd \<Rightarrow> bool \<times> 'd) option
      \<Rightarrow> u32 \<Rightarrow> u64 \<Rightarrow> 't \<Rightarrow> 's \<Rightarrow> 'd \<Rightarrow> (Status \<times> 's \<times> 'd) option" where
  "ManualCleanDeletedFile pb T kv_delete accessor fs_id ino t s d =
     (case accessor of
        None \<Rightarrow> Some (EINTERNAL, s, d)
      | Some del \<Rightarrow>
          (case Get T (EncodeDelFileKey fs_id ino) t of
             Inl status \<Rightarrow> Some (status, s, d)
           | Inr v \<Rightarrow> do {
               attr \<leftarrow> DecodeDelFileValue pb v;
               CleanDeletedFile kv_delete del attr s d
             }))"

subsection \<open>Properties\<close>

text \<open>The blocks a task deletes, in order.\<close>

definition range_blocks :: "TrashSlice \<Rightarrow> BlockKey list" where
  "range_blocks sl = map (\<lambda>r. \<lparr>bk_fs_id = ucast (ts_fs_id sl), bk_ino = ts_ino sl,
     bk_id = ts_slice_id sl, bk_index = sr_offset r div ts_block_size sl, bk_version = 0\<rparr>) (ts_ranges sl)"

text \<open>An object store that records the blocks it deletes and refuses those in \<open>bad\<close>.\<close>

definition log_del :: "BlockKey set \<Rightarrow> BlockKey \<Rightarrow> BlockKey list \<Rightarrow> bool \<times> BlockKey list" where
  "log_del bad k d = (if k \<in> bad then (False, d) else (True, d @ [k]))"

lemma clean_ranges_log:
  assumes "ts_block_size sl \<noteq> 0"
  shows "clean_ranges (log_del bad) sl rs d =
    (let bs = map (\<lambda>r. \<lparr>bk_fs_id = ucast (ts_fs_id sl), bk_ino = ts_ino sl, bk_id = ts_slice_id sl,
            bk_index = sr_offset r div ts_block_size sl, bk_version = 0\<rparr>) rs
     in Some (set bs \<inter> bad = {}, d @ takeWhile (\<lambda>k. k \<notin> bad) bs))"
  using assms by (induction rs arbitrary: d) (auto simp: log_del_def Let_def)

lemma clean_slices_log:
  assumes "\<forall>sl \<in> set sls. ts_block_size sl \<noteq> 0"
  shows "clean_slices (log_del bad) sls d =
    (let bs = concat (map range_blocks sls)
     in Some (set bs \<inter> bad = {}, d @ takeWhile (\<lambda>k. k \<notin> bad) bs))"
  using assms
proof (induction sls arbitrary: d)
  case (Cons sl sls)
  have b: "clean_ranges (log_del bad) sl (ts_ranges sl) d =
      Some (set (range_blocks sl) \<inter> bad = {}, d @ takeWhile (\<lambda>k. k \<notin> bad) (range_blocks sl))"
    using Cons.prems by (simp add: clean_ranges_log range_blocks_def Let_def)
  show ?case
  proof (cases "set (range_blocks sl) \<inter> bad = {}")
    case True
    then have "takeWhile (\<lambda>k. k \<notin> bad) (range_blocks sl @ xs) = range_blocks sl @ takeWhile (\<lambda>k. k \<notin> bad) xs"
      and "takeWhile (\<lambda>k. k \<notin> bad) (range_blocks sl) = range_blocks sl" for xs
      by (auto simp: takeWhile_append)
    then show ?thesis using b True Cons by (auto simp: Let_def)
  next
    case False
    then have "takeWhile (\<lambda>k. k \<notin> bad) (range_blocks sl @ xs) = takeWhile (\<lambda>k. k \<notin> bad) (range_blocks sl)" for xs
      by (auto simp: takeWhile_append)
    then show ?thesis using b False by (auto simp: Let_def)
  qed
qed simp


definition ex_info :: FsInfoType where
  "ex_info = \<lparr>fi_fs_id = 1, fi_fs_name = [102], fi_chunk_size = 64, fi_block_size = 2, fi_root_ino = 1, fi_partition_policy = UNKNOWN_PARTITION,
     fi_mount_points = [], fi_last_update_time_ns = 0, fi_is_deleted = False, fi_delete_time_s = 0, fi_fs_type = 0,
     fi_status = NEW, fi_enable_sum_in_dir = False, fi_owner = [], fi_capacity = 0, fi_recycle_time_hour = 0,
     fi_extra = [], fi_uuid = [], fi_create_time_s = 0\<rparr>"

definition ex_slice :: "u64 \<Rightarrow> u64 \<Rightarrow> u64 \<Rightarrow> Slice" where
  "ex_slice i off n = \<lparr>sl_id = i, sl_offset = off, sl_len = n\<rparr>"

definition ex_chunk :: "Slice list \<Rightarrow> Chunk" where
  "ex_chunk ss = \<lparr>ck_index = 0, ck_chunk_size = 64, ck_block_size = 2, ck_version = 0, ck_slices = ss\<rparr>"

lemmas ex_range_defs = ex_slice_def offset_ranges_def slice_offsets_def intersects_def slice_end_def
  Let_def

lemmas ex_compact_defs = ex_info_def ex_slice_def ex_chunk_def overlapped_slices_def
  out_of_length_slices_def slice_end_def trash_slice_def UpdateChunk_def Let_def

text \<open>A slice that is hidden completely by two newer ones.\<close>

lemma ex_hidden:
  "DoCompactChunk ex_info 2 16 (ex_chunk [ex_slice 1 4 4, ex_slice 2 0 6, ex_slice 3 6 10])
     = Some ([trash_slice ex_info 2 (ex_chunk []) False (ex_slice 1 4 4)],
             ex_chunk [ex_slice 2 0 6, ex_slice 3 6 10])"
proof -
  let ?ss = "[ex_slice 2 0 6, ex_slice 1 4 4, ex_slice 3 6 10]"
  let ?c = "ex_chunk [ex_slice 1 4 4, ex_slice 2 0 6, ex_slice 3 6 10]"
  let ?rs = "[\<lparr>or_start = 0, or_end = 4, or_slices = [ex_slice 2 0 6]\<rparr>,
    \<lparr>or_start = 4, or_end = 6, or_slices = [ex_slice 2 0 6, ex_slice 1 4 4]\<rparr>,
    \<lparr>or_start = 6, or_end = 8, or_slices = [ex_slice 3 6 10, ex_slice 1 4 4]\<rparr>,
    \<lparr>or_start = 8, or_end = 16, or_slices = [ex_slice 3 6 10]\<rparr>]"
  have ss: "sort_key sl_offset (ck_slices ?c) = ?ss" by (simp add: ex_chunk_def ex_slice_def)
  have rs: "offset_ranges ?ss = ?rs" by (simp add: ex_range_defs)
  have ids: "reserve_slice_ids ?rs = [2, 2, 3, 3]" by (simp add: reserve_slice_ids_def ex_slice_def)
  have "partial_slices ex_info 2 ?c [2, 2, 3, 3] ?rs [] = Some []" by (simp add: ex_slice_def)
  then have "GenTrashSlices ex_info 2 16 ?c
      = Some [trash_slice ex_info 2 (ex_chunk []) False (ex_slice 1 4 4)]"
    unfolding GenTrashSlices_def ss Let_def rs ids by (simp add: ex_compact_defs)
  then show ?thesis by (simp add: DoCompactChunk_def ex_compact_defs om_find_def)
qed


text \<open>C17: the trash of a chunk is computed exactly when the slices of the chunk leave no gap between
  each other: at a gap the code takes the first of no slices, which is undefined. Block size and offsets
  are those of a real file: positive, and no slice ends within a block of the largest offset.\<close>

theorem compact_defined_iff_no_gap:
  assumes "0 < fi_block_size fs_info"
    and "\<forall>s \<in> set (ck_slices chunk).
      unat (sl_offset s) + unat (sl_len s) + unat (fi_block_size fs_info) < 2 ^ 64"
  shows "GenTrashSlices fs_info ino file_length chunk = None \<longleftrightarrow>
    (\<exists>x. (\<exists>s \<in> set (ck_slices chunk). slice_end s \<le> x) \<and>
         (\<exists>u \<in> set (ck_slices chunk). x < sl_offset u) \<and> visible (ck_slices chunk) x = None)"
proof -
  let ?ss = "sort_key sl_offset (ck_slices chunk)"
  have e: "unat b + unat (fi_block_size fs_info) < 2 ^ 64" if "b \<in> set (slice_offsets ?ss)" for b
    using assms(2) that unat_slice_end by (fastforce simp: set_slice_offsets)
  have "unat (or_end r) + unat (fi_block_size fs_info) < 2 ^ 64" if r: "r \<in> set (offset_ranges ?ss)" for r
  proof -
    let ?o = "slice_offsets ?ss"
    obtain a where "(a, or_end r) \<in> set (zip ?o (tl ?o))"
      using r by (auto simp: offset_ranges_def Let_def)
    then have "or_end r \<in> set ?o" by (metis set_zip_rightD list.set_sel(2) tl_Nil)
    then show ?thesis by (rule e)
  qed
  then have "GenTrashSlices fs_info ino file_length chunk = None \<longleftrightarrow> (\<exists>x. gap ?ss x)"
    using partial_slices_None_iff [OF assms(1), of "offset_ranges ?ss"] empty_range_gap [of ?ss]
    by (simp add: GenTrashSlices_def Let_def bind_eq_None_conv)
  then show ?thesis by (simp add: gap_def visible_sort)
qed

theorem compact_defined_iff_no_gap_witness:
  "GenTrashSlices ex_info 2 16 (ex_chunk [ex_slice 1 0 4, ex_slice 2 8 4]) = None"
proof -
  have "0 < fi_block_size ex_info" by (simp add: ex_info_def)
  moreover have "\<forall>s \<in> set (ck_slices (ex_chunk [ex_slice 1 0 4, ex_slice 2 8 4])).
      unat (sl_offset s) + unat (sl_len s) + unat (fi_block_size ex_info) < 2 ^ 64"
    by (simp add: ex_chunk_def ex_slice_def ex_info_def)
  moreover have "\<exists>x. (\<exists>s \<in> set (ck_slices (ex_chunk [ex_slice 1 0 4, ex_slice 2 8 4])). slice_end s \<le> x) \<and>
      (\<exists>u \<in> set (ck_slices (ex_chunk [ex_slice 1 0 4, ex_slice 2 8 4])). x < sl_offset u) \<and>
      visible (ck_slices (ex_chunk [ex_slice 1 0 4, ex_slice 2 8 4])) x = None"
    by (rule exI [of _ 4]) (simp add: ex_chunk_def ex_slice_def slice_end_def visible_def covers_def)
  ultimately show ?thesis using compact_defined_iff_no_gap by blast
qed




end
