(* ===== verification/Processor.thy ===== *)
theory Processor
  imports FsOps Compact
begin

text \<open>
  The operation processor of \<^verbatim>\<open>mdsv2/filesystem/store_operation.{h,cc}\<close>: the operation classes and
  their virtual methods, the transaction loop of \<^verbatim>\<open>RunAlone\<close>, the grouping of queued operations by
  inode, the execution of a batch in one transaction, and the queue with its background thread.
\<close>

subsection \<open>Operations\<close>

datatype OperationType =
    kMountFs | kUmountFs | kDeleteFs
  | kCreateRoot | kMkDir | kMkNod | kHardLink | kSmyLink | kUpdateAttr | kUpdateXAttr | kUpdateChunk
  | kRmDir | kUnlink | kRename | kCompactChunk
  | kSetFsQuota | kGetFsQuota | kFlushFsUsage | kDeleteFsQuota
  | kSetDirQuota | kDeleteDirQuota | kLoadDirQuotas | kFlushDirUsages
  | kUpsertMds | kDeleteMds | kScanMds | kUpsertClient | kDeleteClient | kScanClient

fun OpName :: "OperationType \<Rightarrow> string" where
  "OpName kMountFs = ''MountFs''"
| "OpName kUmountFs = ''UmountFs''"
| "OpName kDeleteFs = ''DeleteFs''"
| "OpName kCreateRoot = ''CreateRoot''"
| "OpName kMkDir = ''MkDir''"
| "OpName kMkNod = ''MkNod''"
| "OpName kHardLink = ''HardLink''"
| "OpName kSmyLink = ''SmyLink''"
| "OpName kUpdateAttr = ''UpdateAttr''"
| "OpName kUpdateXAttr = ''UpdateXAttr''"
| "OpName kUpdateChunk = ''UpdateChunk''"
| "OpName kRmDir = ''RmDir''"
| "OpName kUnlink = ''Unlink''"
| "OpName kRename = ''Rename''"
| "OpName kCompactChunk = ''CompactChunk''"
| "OpName kSetFsQuota = ''SetFsQuota''"
| "OpName kGetFsQuota = ''GetFsQuota''"
| "OpName kFlushFsUsage = ''FlushFsUsage''"
| "OpName kDeleteFsQuota = ''DeleteFsQuota''"
| "OpName kSetDirQuota = ''SetDirQuota''"
| "OpName kDeleteDirQuota = ''DeleteDirQuota''"
| "OpName kLoadDirQuotas = ''LoadDirQuotas''"
| "OpName kFlushDirUsages = ''FlushDirUsages''"
| "OpName kUpsertMds = ''UpsertMds''"
| "OpName kDeleteMds = ''DeleteMds''"
| "OpName kScanMds = ''ScanMds''"
| "OpName kUpsertClient = ''UpsertClient''"
| "OpName kDeleteClient = ''DeleteClient''"
| "OpName kScanClient = ''ScanClient''"

text \<open>
  The operation classes with their members. Where a method reads the clock, the time it reads is an
  argument; \<^verbatim>\<open>CreateRootOperation\<close> never sets its \<^verbatim>\<open>fs_id_\<close>, whose content is an argument too.
\<close>

datatype Operation =
    MountFsOperation u64 bytes MountPoint
  | UmountFsOperation u64 bytes MountPoint
  | DeleteFsOperation u64 bytes bool
  | CreateRootOperation u32 Dentry AttrType
  | MkDirOperation u64 Dentry AttrType
  | MkNodOperation u64 Dentry AttrType
  | HardLinkOperation u64 Dentry
  | SmyLinkOperation u64 Dentry AttrType
  | UpdateAttrOperation u64 u32 AttrType
  | UpdateXAttrOperation u64 u32 u64 "(bytes, bytes) omap"
  | UpdateChunkOperation u64 FsInfoType u64 u64 "Slice list"
  | RmDirOperation u64 Dentry
  | UnlinkOperation u64 Dentry
  | RenameOperation u64 u32 u64 bytes u64 bytes
  | CompactChunkOperation "u64 \<Rightarrow> u64" FsInfoType u64 u64
  | SetFsQuotaOperation u32 QuotaEntry
  | GetFsQuotaOperation u32
  | FlushFsUsageOperation u32 UsageEntry
  | DeleteFsQuotaOperation u32
  | SetDirQuotaOperation u32 u64 QuotaEntry
  | GetDirQuotaOperation u32 u64
  | DeleteDirQuotaOperation u32 u64
  | LoadDirQuotasOperation u32
  | FlushDirUsagesOperation u32 "(u64, UsageEntry) omap"
  | UpsertMdsOperation MdsEntry
  | DeleteMdsOperation u64
  | ScanMdsOperation
  | UpsertClientOperation ClientEntry
  | DeleteClientOperation bytes
  | ScanClientOperation

fun GetOpType :: "Operation \<Rightarrow> OperationType" where
  "GetOpType (MountFsOperation _ _ _) = kMountFs"
| "GetOpType (UmountFsOperation _ _ _) = kUmountFs"
| "GetOpType (DeleteFsOperation _ _ _) = kDeleteFs"
| "GetOpType (CreateRootOperation _ _ _) = kCreateRoot"
| "GetOpType (MkDirOperation _ _ _) = kMkDir"
| "GetOpType (MkNodOperation _ _ _) = kMkNod"
| "GetOpType (HardLinkOperation _ _) = kHardLink"
| "GetOpType (SmyLinkOperation _ _ _) = kSmyLink"
| "GetOpType (UpdateAttrOperation _ _ _) = kUpdateAttr"
| "GetOpType (UpdateXAttrOperation _ _ _ _) = kUpdateXAttr"
| "GetOpType (UpdateChunkOperation _ _ _ _ _) = kUpdateChunk"
| "GetOpType (RmDirOperation _ _) = kRmDir"
| "GetOpType (UnlinkOperation _ _) = kUnlink"
| "GetOpType (RenameOperation _ _ _ _ _ _) = kRename"
| "GetOpType (CompactChunkOperation _ _ _ _) = kCompactChunk"
| "GetOpType (SetFsQuotaOperation _ _) = kSetFsQuota"
| "GetOpType (GetFsQuotaOperation _) = kGetFsQuota"
| "GetOpType (FlushFsUsageOperation _ _) = kFlushFsUsage"
| "GetOpType (DeleteFsQuotaOperation _) = kDeleteFsQuota"
| "GetOpType (SetDirQuotaOperation _ _ _) = kSetDirQuota"
| "GetOpType (GetDirQuotaOperation _ _) = kSetDirQuota"
| "GetOpType (DeleteDirQuotaOperation _ _) = kDeleteDirQuota"
| "GetOpType (LoadDirQuotasOperation _) = kLoadDirQuotas"
| "GetOpType (FlushDirUsagesOperation _ _) = kFlushDirUsages"
| "GetOpType (UpsertMdsOperation _) = kUpsertMds"
| "GetOpType (DeleteMdsOperation _) = kDeleteMds"
| "GetOpType ScanMdsOperation = kScanMds"
| "GetOpType (UpsertClientOperation _) = kUpsertClient"
| "GetOpType (DeleteClientOperation _) = kDeleteClient"
| "GetOpType ScanClientOperation = kScanClient"

fun GetFsId :: "Operation \<Rightarrow> u32" where
  "GetFsId (CreateRootOperation fs_id _ _) = fs_id"
| "GetFsId (MkDirOperation _ dentry _) = d_fs_id dentry"
| "GetFsId (MkNodOperation _ dentry _) = d_fs_id dentry"
| "GetFsId (HardLinkOperation _ dentry) = d_fs_id dentry"
| "GetFsId (SmyLinkOperation _ dentry _) = d_fs_id dentry"
| "GetFsId (UpdateAttrOperation _ _ attr) = at_fs_id attr"
| "GetFsId (UpdateXAttrOperation _ fs_id _ _) = fs_id"
| "GetFsId (UpdateChunkOperation _ fs_info _ _ _) = fi_fs_id fs_info"
| "GetFsId (RmDirOperation _ dentry) = d_fs_id dentry"
| "GetFsId (UnlinkOperation _ dentry) = d_fs_id dentry"
| "GetFsId (RenameOperation _ fs_id _ _ _ _) = fs_id"
| "GetFsId (CompactChunkOperation _ fs_info _ _) = fi_fs_id fs_info"
| "GetFsId (SetFsQuotaOperation fs_id _) = fs_id"
| "GetFsId (GetFsQuotaOperation fs_id) = fs_id"
| "GetFsId (FlushFsUsageOperation fs_id _) = fs_id"
| "GetFsId (DeleteFsQuotaOperation fs_id) = fs_id"
| "GetFsId (SetDirQuotaOperation fs_id _ _) = fs_id"
| "GetFsId (GetDirQuotaOperation fs_id _) = fs_id"
| "GetFsId (DeleteDirQuotaOperation fs_id _) = fs_id"
| "GetFsId (LoadDirQuotasOperation fs_id) = fs_id"
| "GetFsId (FlushDirUsagesOperation fs_id _) = fs_id"
| "GetFsId _ = 0"

fun GetIno :: "Operation \<Rightarrow> u64" where
  "GetIno (CreateRootOperation _ dentry _) = d_ino dentry"
| "GetIno (MkDirOperation _ dentry _) = d_parent dentry"
| "GetIno (MkNodOperation _ dentry _) = d_parent dentry"
| "GetIno (HardLinkOperation _ dentry) = d_parent dentry"
| "GetIno (SmyLinkOperation _ dentry _) = d_parent dentry"
| "GetIno (UpdateAttrOperation ino _ _) = ino"
| "GetIno (UpdateXAttrOperation _ _ ino _) = ino"
| "GetIno (UpdateChunkOperation _ _ ino _ _) = ino"
| "GetIno (RmDirOperation _ dentry) = d_parent dentry"
| "GetIno (UnlinkOperation _ dentry) = d_parent dentry"
| "GetIno (RenameOperation _ _ _ _ new_parent _) = new_parent"
| "GetIno (CompactChunkOperation _ _ ino _) = ino"
| "GetIno (SetDirQuotaOperation _ ino _) = ino"
| "GetIno (GetDirQuotaOperation _ ino) = ino"
| "GetIno (DeleteDirQuotaOperation _ ino) = ino"
| "GetIno _ = 0"

definition IsCreateType :: "Operation \<Rightarrow> bool" where
  "IsCreateType operation =
     (case GetOpType operation of kMkDir \<Rightarrow> True | kMkNod \<Rightarrow> True | kSmyLink \<Rightarrow> True | _ \<Rightarrow> False)"

definition IsSetAttrType :: "Operation \<Rightarrow> bool" where
  "IsSetAttrType operation =
     (case GetOpType operation of
        kUpdateAttr \<Rightarrow> True | kUpdateXAttr \<Rightarrow> True | kUpdateChunk \<Rightarrow> True | _ \<Rightarrow> False)"

definition IsBatchRun :: "Operation \<Rightarrow> bool" where
  "IsBatchRun operation =
     (case GetOpType operation of
        kMkDir \<Rightarrow> True | kMkNod \<Rightarrow> True | kSmyLink \<Rightarrow> True
      | kUpdateAttr \<Rightarrow> True | kUpdateXAttr \<Rightarrow> True | kUpdateChunk \<Rightarrow> True | _ \<Rightarrow> False)"

text \<open>The virtual \<^verbatim>\<open>Run\<close>: its status; the result a class stores is dropped here.\<close>

definition status_of :: "((Status + 'r) \<times> 't) option \<Rightarrow> (Status \<times> 't) option" where
  "status_of m = map_option (\<lambda>(r, t). (case r of Inl status \<Rightarrow> status | Inr _ \<Rightarrow> OK, t)) m"

fun Run :: "'v pb \<Rightarrow> ('t, 'v) Txn \<Rightarrow> Operation \<Rightarrow> 't \<Rightarrow> (Status \<times> 't) option" where
  "Run pb T (MountFsOperation time fs_name mp) t = status_of (MountFsOperation_Run pb T time fs_name mp t)"
| "Run pb T (UmountFsOperation time fs_name mp) t = status_of (UmountFsOperation_Run pb T time fs_name mp t)"
| "Run pb T (DeleteFsOperation now fs_name force) t = status_of (DeleteFsOperation_Run pb T now fs_name force t)"
| "Run pb T (CreateRootOperation _ dentry attr) t = status_of (CreateRootOperation_Run pb T dentry attr t)"
| "Run pb T (HardLinkOperation time dentry) t = status_of (HardLinkOperation_Run pb T time dentry t)"
| "Run pb T (RmDirOperation time dentry) t = status_of (RmDirOperation_Run pb T time dentry t)"
| "Run pb T (UnlinkOperation time dentry) t = status_of (UnlinkOperation_Run pb T time dentry t)"
| "Run pb T (RenameOperation time fs_id op on np nn) t = status_of (RenameOperation_Run pb T time fs_id op on np nn t)"
| "Run pb T (CompactChunkOperation now fs_info ino index) t =
     status_of (CompactChunkOperation_Run pb T now fs_info ino index t)"
| "Run pb T (SetFsQuotaOperation fs_id quota) t = status_of (SetFsQuotaOperation_Run pb T fs_id quota t)"
| "Run pb T (GetFsQuotaOperation fs_id) t = status_of (GetFsQuotaOperation_Run pb T fs_id t)"
| "Run pb T (FlushFsUsageOperation fs_id usage) t = status_of (FlushFsUsageOperation_Run pb T fs_id usage t)"
| "Run pb T (DeleteFsQuotaOperation fs_id) t = status_of (DeleteFsQuotaOperation_Run T fs_id t)"
| "Run pb T (SetDirQuotaOperation fs_id ino quota) t = status_of (SetDirQuotaOperation_Run pb T fs_id ino quota t)"
| "Run pb T (GetDirQuotaOperation fs_id ino) t = status_of (GetDirQuotaOperation_Run pb T fs_id ino t)"
| "Run pb T (DeleteDirQuotaOperation fs_id ino) t = status_of (DeleteDirQuotaOperation_Run T fs_id ino t)"
| "Run pb T (LoadDirQuotasOperation fs_id) t = status_of (LoadDirQuotasOperation_Run pb T fs_id t)"
| "Run pb T (FlushDirUsagesOperation fs_id usages) t = status_of (FlushDirUsagesOperation_Run pb T fs_id usages t)"
| "Run pb T (UpsertMdsOperation mds) t = status_of (UpsertMdsOperation_Run pb T mds t)"
| "Run pb T (DeleteMdsOperation mds_id) t = status_of (DeleteMdsOperation_Run pb T mds_id t)"
| "Run pb T ScanMdsOperation t = status_of (ScanMdsOperation_Run pb T t)"
| "Run pb T (UpsertClientOperation client) t = status_of (UpsertClientOperation_Run pb T client t)"
| "Run pb T (DeleteClientOperation client_id) t = status_of (DeleteClientOperation_Run pb T client_id t)"
| "Run pb T ScanClientOperation t = status_of (ScanClientOperation_Run pb T t)"
| "Run pb T _ t = Some (ENOT_SUPPORT, t)"

text \<open>
  The virtual \<^verbatim>\<open>RunInBatch\<close>, with the \<^verbatim>\<open>length_delta\<close> that \<^verbatim>\<open>UpdateChunkOperation\<close> stores in its
  result.
\<close>

fun RunInBatch ::
    "'v pb \<Rightarrow> ('t, 'v) Txn \<Rightarrow> Operation \<Rightarrow> AttrType \<Rightarrow> 't
      \<Rightarrow> (Status \<times> AttrType \<times> u64 \<times> 't) option" where
  "RunInBatch pb T (MkDirOperation time dentry a) attr t =
     map_option (\<lambda>(status, attr, t). (status, attr, 0, t)) (MkDirOperation_RunInBatch pb T time dentry a attr t)"
| "RunInBatch pb T (MkNodOperation time dentry a) attr t =
     map_option (\<lambda>(status, attr, t). (status, attr, 0, t)) (MkNodOperation_RunInBatch pb T time dentry a attr t)"
| "RunInBatch pb T (SmyLinkOperation time dentry a) attr t =
     map_option (\<lambda>(status, attr, t). (status, attr, 0, t)) (SmyLinkOperation_RunInBatch pb T time dentry a attr t)"
| "RunInBatch pb T (UpdateAttrOperation _ to_set a) attr t =
     (let (status, attr) = UpdateAttrOperation_RunInBatch to_set a attr in Some (status, attr, 0, t))"
| "RunInBatch pb T (UpdateXAttrOperation time _ _ xattrs) attr t =
     (let (status, attr) = UpdateXAttrOperation_RunInBatch time xattrs attr in Some (status, attr, 0, t))"
| "RunInBatch pb T (UpdateChunkOperation time fs_info _ index slices) attr t =
     (let (status, attr, delta) = UpdateChunkOperation_RunInBatch fs_info time index slices attr
      in Some (status, attr, delta, t))"
| "RunInBatch pb T _ attr t = Some (ENOT_SUPPORT, attr, 0, t)"

subsection \<open>The transaction loop\<close>

definition FLAGS_txn_max_retry_times :: nat where
  "FLAGS_txn_max_retry_times = 5"

text \<open>
  \<^verbatim>\<open>do { attempt } while (++retry < FLAGS_txn_max_retry_times)\<close>. An attempt says whether it may be
  repeated; \<open>r\<close> is what the variables declared before the loop hold.
\<close>

function txn_loop ::
    "(nat \<Rightarrow> 'r \<Rightarrow> 'c \<Rightarrow> (bool \<times> Status \<times> 'r \<times> 'c) option) \<Rightarrow> nat \<Rightarrow> nat \<Rightarrow> 'r \<Rightarrow> 'c
      \<Rightarrow> (Status \<times> 'r \<times> 'c) option" where
  "txn_loop attempt max_times retry r c = do {
     (again, status, r, c) \<leftarrow> attempt retry r c;
     if again \<and> Suc retry < max_times then txn_loop attempt max_times (Suc retry) r c
     else Some (status, r, c)
   }"
  by pat_completeness auto
termination
  by (relation "measure (\<lambda>(_, max_times, retry, _). max_times - retry)") auto

declare txn_loop.simps [simp del]

text \<open>
  One attempt of \<^verbatim>\<open>RunAlone\<close>. \<open>env retry\<close> is what the other clients of the store do while the
  transaction of this attempt is open.
\<close>

definition alone_attempt ::
    "('c, 'v) Sdk \<Rightarrow> (nat \<Rightarrow> 'c \<Rightarrow> 'c) \<Rightarrow> ('c DingodbTxn \<Rightarrow> (Status \<times> 'c DingodbTxn) option)
      \<Rightarrow> nat \<Rightarrow> unit \<Rightarrow> 'c \<Rightarrow> (bool \<times> Status \<times> unit \<times> 'c) option" where
  "alone_attempt sdk env run retry r c = do {
     txn \<leftarrow> DingodbStorage_NewTxn sdk c;
     (status, txn) \<leftarrow> run txn;
     let txn = txn\<lparr>sdk_txn := env retry (sdk_txn txn)\<rparr>;
     if \<not> ok status then Some (False, status, (), sdk_txn txn)
     else let (status, txn) = Commit (DingodbTxn sdk) txn
          in Some (status = ESTORE_MAYBE_RETRY, status, (), sdk_txn txn)
   }"

definition RunAlone ::
    "'v pb \<Rightarrow> ('c, 'v) Sdk \<Rightarrow> (nat \<Rightarrow> 'c \<Rightarrow> 'c) \<Rightarrow> Operation \<Rightarrow> 'c \<Rightarrow> (Status \<times> 'c) option" where
  "RunAlone pb sdk env operation c =
     map_option (\<lambda>(status, _, c). (status, c))
       (txn_loop (alone_attempt sdk env (Run pb (DingodbTxn sdk) operation))
          FLAGS_txn_max_retry_times 0 () c)"

subsection \<open>Batches\<close>

text \<open>\<^verbatim>\<open>OperationProcessor::Key\<close> with its \<^verbatim>\<open>operator<\<close>.\<close>

datatype Key = Key (key_fs_id: u32) (key_ino: u64)

instantiation Key :: linorder
begin

definition less_Key :: "Key \<Rightarrow> Key \<Rightarrow> bool" where
  "less_Key a b =
     (if key_fs_id a \<noteq> key_fs_id b then key_fs_id a < key_fs_id b else key_ino a < key_ino b)"

definition less_eq_Key :: "Key \<Rightarrow> Key \<Rightarrow> bool" where
  "less_eq_Key a b = (a < b \<or> a = b)"

instance
  by standard (auto simp: less_Key_def less_eq_Key_def Key.expand not_less order.order_iff_strict split: if_splits)

end

record BatchOperation =
  bo_fs_id :: u32
  bo_ino :: u64
  setattr_operations :: "Operation list"
  create_operations :: "Operation list"

text \<open>The two \<^verbatim>\<open>push_back\<close> branches; any other type is fatal.\<close>

definition add_operation :: "Operation \<Rightarrow> BatchOperation \<Rightarrow> BatchOperation option" where
  "add_operation operation batch =
     (if IsCreateType operation then
        Some (batch\<lparr>create_operations := create_operations batch @ [operation]\<rparr>)
      else if IsSetAttrType operation then
        Some (batch\<lparr>setattr_operations := setattr_operations batch @ [operation]\<rparr>)
      else None)"

fun grouping_loop ::
    "Operation list \<Rightarrow> (Key, BatchOperation) omap \<Rightarrow> (Key, BatchOperation) omap option" where
  "grouping_loop [] batch_operation_map = Some batch_operation_map"
| "grouping_loop (operation # operations) batch_operation_map = do {
     let key = Key (GetFsId operation) (GetIno operation);
     batch_operation \<leftarrow>
       (case om_find batch_operation_map key of
          None \<Rightarrow> add_operation operation
            \<lparr>bo_fs_id = GetFsId operation, bo_ino = GetIno operation,
             setattr_operations = [], create_operations = []\<rparr>
        | Some batch \<Rightarrow> add_operation operation batch);
     grouping_loop operations (om_insert key batch_operation batch_operation_map)
   }"

definition Grouping :: "Operation list \<Rightarrow> (Key, BatchOperation) omap option" where
  "Grouping operations = grouping_loop operations []"

text \<open>The loops over the operations of a batch; each status is dropped.\<close>

fun run_in_batch ::
    "'v pb \<Rightarrow> ('t, 'v) Txn \<Rightarrow> Operation list \<Rightarrow> AttrType \<Rightarrow> 't \<Rightarrow> (AttrType \<times> u64 list \<times> 't) option" where
  "run_in_batch pb T [] attr t = Some (attr, [], t)"
| "run_in_batch pb T (operation # operations) attr t = do {
     (_, attr, delta, t) \<leftarrow> RunInBatch pb T operation attr t;
     (attr, deltas, t) \<leftarrow> run_in_batch pb T operations attr t;
     Some (attr, delta # deltas, t)
   }"

text \<open>
  One attempt of \<^verbatim>\<open>ExecuteBatchOperation\<close>. The variables are \<^verbatim>\<open>attr\<close> and the length deltas of the
  operations.
\<close>

definition batch_attempt ::
    "'v pb \<Rightarrow> ('c, 'v) Sdk \<Rightarrow> (nat \<Rightarrow> 'c \<Rightarrow> 'c) \<Rightarrow> bytes \<Rightarrow> BatchOperation
      \<Rightarrow> nat \<Rightarrow> AttrType \<times> u64 list \<Rightarrow> 'c \<Rightarrow> (bool \<times> Status \<times> (AttrType \<times> u64 list) \<times> 'c) option" where
  "batch_attempt pb sdk env key batch retry r c = do {
     txn \<leftarrow> DingodbStorage_NewTxn sdk c;
     case Get (DingodbTxn sdk) key txn of
       Inl status \<Rightarrow> Some (False, status, r, sdk_txn txn)
     | Inr v \<Rightarrow> do {
         attr \<leftarrow> DecodeInodeValue pb v;
         (attr, deltas1, txn) \<leftarrow> run_in_batch pb (DingodbTxn sdk) (setattr_operations batch) attr txn;
         (attr, deltas2, txn) \<leftarrow> run_in_batch pb (DingodbTxn sdk) (create_operations batch) attr txn;
         let attr = attr\<lparr>at_version := at_version attr + 1\<rparr>;
         txn \<leftarrow> tx_put (DingodbTxn sdk) key (EncodeInodeValue pb attr) txn;
         let txn = txn\<lparr>sdk_txn := env retry (sdk_txn txn)\<rparr>;
         let (status, txn) = Commit (DingodbTxn sdk) txn;
         Some (status = ESTORE_MAYBE_RETRY, status, (attr, deltas1 @ deltas2), sdk_txn txn)
       }
   }"

text \<open>\<^verbatim>\<open>Operation::Result\<close> with the delta of \<^verbatim>\<open>UpdateChunkOperation::Result\<close>, and the two setters.\<close>

record Result =
  res_status :: Status
  res_attr :: AttrType
  res_length_delta :: u64

definition SetError :: "Status \<Rightarrow> Result list \<Rightarrow> Result list" where
  "SetError status results = map (res_status_update (\<lambda>_. status)) results"

definition SetAttr :: "AttrType \<Rightarrow> Result list \<Rightarrow> Result list" where
  "SetAttr attr results = map (res_attr_update (\<lambda>_. attr)) results"

text \<open>The results belong to the attribute operations, then to the create operations.\<close>

definition ExecuteBatchOperation ::
    "'v pb \<Rightarrow> ('c, 'v) Sdk \<Rightarrow> (nat \<Rightarrow> 'c \<Rightarrow> 'c) \<Rightarrow> BatchOperation \<Rightarrow> 'c \<Rightarrow> (Result list \<times> 'c) option" where
  "ExecuteBatchOperation pb sdk env batch c = do {
     key \<leftarrow> EncodeInodeKey (bo_fs_id batch) (bo_ino batch);
     let operations = setattr_operations batch @ create_operations batch;
     (status, (attr, deltas), c) \<leftarrow>
       txn_loop (batch_attempt pb sdk env key batch) FLAGS_txn_max_retry_times 0
         (default_attr, map (\<lambda>_. 0) operations) c;
     let results = map (\<lambda>d. \<lparr>res_status = OK, res_attr = default_attr, res_length_delta = d\<rparr>) deltas;
     Some (if ok status then SetAttr attr results else SetError status results, c)
   }"

subsection \<open>The queue\<close>

text \<open>
  The state of the processor: the stop flag, the queue, the batches handed to workers and whether
  the background thread still runs. The queue is \<^verbatim>\<open>butil::MPSCQueue\<close>, given by its operations.
\<close>

record 'q OperationProcessor =
  is_stop :: bool
  op_queue :: 'q
  launched :: "(Key \<times> BatchOperation) list"
  thread_alive :: bool

definition RunBatched ::
    "(Operation \<Rightarrow> 'q \<Rightarrow> 'q) \<Rightarrow> Operation \<Rightarrow> 'q OperationProcessor \<Rightarrow> bool \<times> 'q OperationProcessor" where
  "RunBatched Enqueue operation p =
     (if is_stop p then (False, p) else (True, p\<lparr>op_queue := Enqueue operation (op_queue p)\<rparr>))"

definition Destroy :: "'q OperationProcessor \<Rightarrow> 'q OperationProcessor" where
  "Destroy p = p\<lparr>is_stop := True\<rparr>"

text \<open>\<^verbatim>\<open>do { push_back } while (Dequeue)\<close>.\<close>

partial_function (option) drain ::
    "('q \<Rightarrow> (Operation \<times> 'q) option) \<Rightarrow> Operation \<Rightarrow> 'q \<Rightarrow> (Operation list \<times> 'q) option" where
  "drain Dequeue operation q =
     (case Dequeue q of
        None \<Rightarrow> Some ([operation], q)
      | Some (next_operation, q) \<Rightarrow> do {
          (stage_operations, q) \<leftarrow> drain Dequeue next_operation q;
          Some (operation # stage_operations, q)
        })"

text \<open>
  One round of \<^verbatim>\<open>ProcessOperation\<close>: it takes an operation or sees the stop flag (with neither it keeps
  waiting), leaves when the flag is set, and otherwise stages all queued operations and launches
  their batches.
\<close>

definition ProcessOperation_round ::
    "('q \<Rightarrow> (Operation \<times> 'q) option) \<Rightarrow> 'q OperationProcessor \<Rightarrow> 'q OperationProcessor option" where
  "ProcessOperation_round Dequeue p =
     (case Dequeue (op_queue p) of
        None \<Rightarrow> Some (if is_stop p then p\<lparr>thread_alive := False\<rparr> else p)
      | Some (operation, q) \<Rightarrow>
          if is_stop p then Some (p\<lparr>op_queue := q, thread_alive := False\<rparr>)
          else do {
            (stage_operations, q) \<leftarrow> drain Dequeue operation q;
            batch_operation_map \<leftarrow> Grouping stage_operations;
            Some (p\<lparr>op_queue := q, launched := launched p @ batch_operation_map\<rparr>)
          })"

inductive proc_step ::
    "(Operation \<Rightarrow> 'q \<Rightarrow> 'q) \<Rightarrow> ('q \<Rightarrow> (Operation \<times> 'q) option)
      \<Rightarrow> 'q OperationProcessor \<Rightarrow> Operation list \<Rightarrow> 'q OperationProcessor \<Rightarrow> bool" for Enqueue Dequeue where
  submit: "IsBatchRun operation \<Longrightarrow> RunBatched Enqueue operation p = (b, p') \<Longrightarrow>
    proc_step Enqueue Dequeue p (if b then [operation] else []) p'"
| stop: "proc_step Enqueue Dequeue p [] (Destroy p)"
| round: "thread_alive p \<Longrightarrow> ProcessOperation_round Dequeue p = Some p' \<Longrightarrow>
    proc_step Enqueue Dequeue p [] p'"

text \<open>A history of the processor, with the operations it accepted.\<close>

inductive proc_run ::
    "(Operation \<Rightarrow> 'q \<Rightarrow> 'q) \<Rightarrow> ('q \<Rightarrow> (Operation \<times> 'q) option)
      \<Rightarrow> 'q OperationProcessor \<Rightarrow> Operation list \<Rightarrow> 'q OperationProcessor \<Rightarrow> bool" for Enqueue Dequeue p where
  start: "proc_run Enqueue Dequeue p [] p"
| step: "proc_run Enqueue Dequeue p acc p' \<Longrightarrow> proc_step Enqueue Dequeue p' xs p'' \<Longrightarrow>
    proc_run Enqueue Dequeue p (acc @ xs) p''"

subsection \<open>Grouping\<close>

definition op_key :: "Operation \<Rightarrow> Key" where
  "op_key operation = Key (GetFsId operation) (GetIno operation)"

text \<open>The batch of a key: its operations, in order, those on attributes apart from the creates.\<close>

definition batch_of :: "Operation list \<Rightarrow> Key \<Rightarrow> BatchOperation option" where
  "batch_of operations k =
     (let ops = filter (\<lambda>x. op_key x = k) operations in
      if ops = [] then None
      else Some \<lparr>bo_fs_id = key_fs_id k, bo_ino = key_ino k,
                 setattr_operations = filter IsSetAttrType ops, create_operations = filter IsCreateType ops\<rparr>)"

lemma op_types:
  "IsBatchRun x \<longleftrightarrow> IsCreateType x \<or> IsSetAttrType x"
  "IsCreateType x \<Longrightarrow> \<not> IsSetAttrType x"
  by (auto simp: IsBatchRun_def IsCreateType_def IsSetAttrType_def split: OperationType.splits)

lemma add_operation_ex: "IsBatchRun x \<Longrightarrow> \<exists>b'. add_operation x b = Some b'"
  by (auto simp: add_operation_def op_types(1))

lemma batch_of_snoc:
  assumes "IsBatchRun x"
  shows "batch_of (ops @ [x]) = (batch_of ops)(op_key x := add_operation x
    (case batch_of ops (op_key x) of
       None \<Rightarrow> \<lparr>bo_fs_id = GetFsId x, bo_ino = GetIno x, setattr_operations = [], create_operations = []\<rparr>
     | Some b \<Rightarrow> b))"
  using assms op_types(2) [of x]
  by (auto simp: fun_eq_iff batch_of_def add_operation_def op_types(1) op_key_def Let_def)

lemma grouping_loop_batches:
  assumes "list_all IsBatchRun ops" and "om_ok m" and "om_find m = batch_of ps"
  shows "\<exists>m'. grouping_loop ops m = Some m' \<and> om_ok m' \<and> om_find m' = batch_of (ps @ ops)"
  using assms
proof (induction ops arbitrary: m ps)
  case (Cons x ops)
  let ?b = "case batch_of ps (op_key x) of
       None \<Rightarrow> \<lparr>bo_fs_id = GetFsId x, bo_ino = GetIno x, setattr_operations = [], create_operations = []\<rparr>
     | Some b \<Rightarrow> b"
  obtain b where b: "add_operation x ?b = Some b"
    using add_operation_ex Cons.prems(1) by fastforce
  have "om_find (om_insert (op_key x) b m) = batch_of (ps @ [x])"
    using Cons.prems b by (simp add: om_find_insert batch_of_snoc)
  then obtain m' where "grouping_loop ops (om_insert (op_key x) b m) = Some m'" "om_ok m'"
      "om_find m' = batch_of ((ps @ [x]) @ ops)"
    using Cons.IH [of "om_insert (op_key x) b m" "ps @ [x]"] Cons.prems by auto
  moreover have "grouping_loop (x # ops) m = grouping_loop ops (om_insert (op_key x) b m)"
    using b Cons.prems(3) by (auto simp: op_key_def fun_eq_iff split: option.splits)
  ultimately show ?case by simp
qed auto

lemma grouping_loop_fatal: "\<not> list_all IsBatchRun ops \<Longrightarrow> grouping_loop ops m = None"
  by (induction ops arbitrary: m)
    (auto simp: add_operation_def op_types(1) Let_def split: option.splits bind_splits)

text \<open>Grouping neither loses nor doubles an operation.\<close>

definition batch_ops :: "BatchOperation \<Rightarrow> Operation multiset" where
  "batch_ops b = mset (setattr_operations b) + mset (create_operations b)"

definition batches_ops :: "(Key \<times> BatchOperation) list \<Rightarrow> Operation multiset" where
  "batches_ops bs = sum_list (map (\<lambda>(k, b). batch_ops b) bs)"

lemma add_operation_ops: "add_operation x b = Some b' \<Longrightarrow> batch_ops b' = add_mset x (batch_ops b)"
  by (auto simp: add_operation_def batch_ops_def split: if_splits)

lemma batches_ops_insert:
  "om_ok m \<Longrightarrow> batches_ops (om_insert k b m) + (case om_find m k of None \<Rightarrow> {#} | Some b0 \<Rightarrow> batch_ops b0)
    = batches_ops m + batch_ops b"
proof (induction k b m rule: om_insert.induct)
  case (2 k b k' b' m)
  have "om_find m k = None" if "k \<le> k'"
    using 2(2) that om_find_none [of k m] by (force simp: om_ok_Cons)
  then show ?case using 2 by (auto simp: om_find_def batches_ops_def om_ok_Cons split: if_splits)
qed (simp add: om_find_def batches_ops_def)

lemma grouping_loop_ops:
  "grouping_loop ops m = Some m' \<Longrightarrow> om_ok m \<Longrightarrow> batches_ops m' = batches_ops m + mset ops"
proof (induction ops arbitrary: m)
  case (Cons x ops)
  let ?k = "Key (GetFsId x) (GetIno x)"
  let ?b0 = "case om_find m ?k of
       None \<Rightarrow> \<lparr>bo_fs_id = GetFsId x, bo_ino = GetIno x, setattr_operations = [], create_operations = []\<rparr>
     | Some b \<Rightarrow> b"
  obtain b where b: "add_operation x ?b0 = Some b" "grouping_loop ops (om_insert ?k b m) = Some m'"
    using Cons.prems(1) by (auto simp: bind_eq_Some_conv Let_def split: option.splits)
  have "batch_ops b = add_mset x (case om_find m ?k of None \<Rightarrow> {#} | Some b0 \<Rightarrow> batch_ops b0)"
    using add_operation_ops [OF b(1)] by (auto simp: batch_ops_def split: option.splits)
  then have "batches_ops (om_insert ?k b m) = add_mset x (batches_ops m)"
    using batches_ops_insert [OF Cons.prems(2), of ?k b] by simp
  then show ?case using Cons.IH [OF b(2)] Cons.prems(2) by simp
qed simp

subsection \<open>The queue\<close>

text \<open>What the code relies on of the queue: it is first in, first out.\<close>

locale mpsc_queue =
  fixes Enqueue :: "Operation \<Rightarrow> 'q \<Rightarrow> 'q"
    and Dequeue :: "'q \<Rightarrow> (Operation \<times> 'q) option"
    and elems :: "'q \<Rightarrow> Operation list"
  assumes enqueue_law: "elems (Enqueue x q) = elems q @ [x]"
    and dequeue_none: "Dequeue q = None \<longleftrightarrow> elems q = []"
    and dequeue_some: "Dequeue q = Some (x, q') \<Longrightarrow> elems q = x # elems q'"
begin

lemma drain_all: "\<exists>q'. drain Dequeue x q = Some (x # elems q, q') \<and> elems q' = []"
proof (induction "elems q" arbitrary: x q)
  case Nil
  then have "Dequeue q = None" by (simp add: dequeue_none)
  with Nil show ?case by (simp add: drain.simps)
next
  case (Cons y ys)
  then obtain z q1 where q1: "Dequeue q = Some (z, q1)"
    using dequeue_none [of q] by (cases "Dequeue q") auto
  have "z = y" "ys = elems q1" using dequeue_some [OF q1] Cons.hyps(2) by auto
  then obtain q2 where q2: "drain Dequeue y q1 = Some (y # elems q1, q2)" "elems q2 = []"
    using Cons.hyps(1) by blast
  have "drain Dequeue x q = Some (x # y # elems q1, q2)"
    unfolding drain.simps [of Dequeue x q] by (simp add: q1 q2(1) \<open>z = y\<close>)
  then show ?case using q2(2) dequeue_some [OF q1] \<open>z = y\<close> by simp
qed

text \<open>A round of the running thread launches exactly the batches of what was queued.\<close>

lemma round_running:
  assumes "\<not> is_stop p" and "list_all IsBatchRun (elems (op_queue p))"
  shows "\<exists>q m. ProcessOperation_round Dequeue p = Some (p\<lparr>op_queue := q, launched := launched p @ m\<rparr>)
    \<and> elems q = [] \<and> om_ok m \<and> om_find m = batch_of (elems (op_queue p))
    \<and> batches_ops m = mset (elems (op_queue p))"
proof (cases "Dequeue (op_queue p)")
  case None
  then have e: "elems (op_queue p) = []" by (simp add: dequeue_none)
  have "om_find [] = batch_of []" by (simp add: fun_eq_iff om_find_def batch_of_def)
  then show ?thesis
    using None e assms(1)
    by (intro exI [of _ "op_queue p"] exI [of _ "[]"]) (simp add: ProcessOperation_round_def batches_ops_def)
next
  case (Some xq)
  obtain x q1 where q1: "Dequeue (op_queue p) = Some (x, q1)" using Some by (cases xq) auto
  have e: "elems (op_queue p) = x # elems q1" by (rule dequeue_some [OF q1])
  obtain q2 where q2: "drain Dequeue x q1 = Some (x # elems q1, q2)" "elems q2 = []"
    using drain_all by blast
  have "om_find [] = batch_of []" by (simp add: fun_eq_iff om_find_def batch_of_def)
  then obtain m where m: "grouping_loop (x # elems q1) [] = Some m" "om_ok m" "om_find m = batch_of (x # elems q1)"
    using grouping_loop_batches [of "x # elems q1" "[]" "[]"] assms(2) e by auto
  moreover have "batches_ops m = mset (x # elems q1)"
    using grouping_loop_ops [OF m(1)] by (simp add: batches_ops_def)
  ultimately show ?thesis
    using assms(1) q1 q2 e
    by (intro exI [of _ q2] exI [of _ m]) (simp add: ProcessOperation_round_def Grouping_def)
qed

text \<open>
  The operations accepted so far are the queued and the launched ones, as long as the thread runs;
  once it has stopped, some may be missing.
\<close>

definition accounted :: "Operation list \<Rightarrow> 'q OperationProcessor \<Rightarrow> bool" where
  "accounted accepted p \<longleftrightarrow> list_all IsBatchRun (elems (op_queue p))
     \<and> batches_ops (launched p) + mset (elems (op_queue p)) \<subseteq># mset accepted
     \<and> (thread_alive p \<longrightarrow> batches_ops (launched p) + mset (elems (op_queue p)) = mset accepted)"

lemma accounted_step:
  assumes "accounted acc p" and "proc_step Enqueue Dequeue p xs p'"
  shows "accounted (acc @ xs) p'"
  using assms(2)
proof cases
  case (submit x b)
  then show ?thesis
    using assms(1)
    by (auto simp: accounted_def RunBatched_def enqueue_law subset_mset.add_mono split: if_splits)
next
  case stop
  then show ?thesis using assms(1) by (simp add: accounted_def Destroy_def)
next
  case round
  show ?thesis
  proof (cases "is_stop p")
    case False
    obtain q m where r: "ProcessOperation_round Dequeue p = Some (p\<lparr>op_queue := q, launched := launched p @ m\<rparr>)"
      "elems q = []" "batches_ops m = mset (elems (op_queue p))"
      using round_running [OF False] assms(1) by (auto simp: accounted_def)
    then show ?thesis using round assms(1) by (auto simp: accounted_def batches_ops_def)
  next
    case True
    show ?thesis
    proof (cases "Dequeue (op_queue p)")
      case None
      then show ?thesis using round assms(1) True by (auto simp: accounted_def ProcessOperation_round_def)
    next
      case (Some xq)
      obtain x q where q: "Dequeue (op_queue p) = Some (x, q)" using Some by (cases xq) auto
      have "batches_ops (launched p) + mset (elems q) \<subseteq># mset acc"
        using assms(1) dequeue_some [OF q]
        by (auto simp: accounted_def dest: mset_subset_eq_insertD subset_mset.less_imp_le)
      then show ?thesis
        using round assms(1) True q dequeue_some [OF q] by (auto simp: accounted_def ProcessOperation_round_def)
    qed
  qed
qed

lemma accounted_run: "proc_run Enqueue Dequeue p acc p' \<Longrightarrow> accounted [] p \<Longrightarrow> accounted acc p'"
  by (induction rule: proc_run.induct) (auto intro: accounted_step)

end

interpretation list_queue: mpsc_queue "\<lambda>x q. q @ [x]" "\<lambda>q. case q of [] \<Rightarrow> None | x # q \<Rightarrow> Some (x, q)" "\<lambda>q. q"
  by unfold_locales (auto split: list.splits)

end
