(* ===== verification/Isolation.thy ===== *)
theory Isolation
  imports Processor
begin

text \<open>
  What the processor relies on of the store beyond one open transaction: snapshot isolation with
  write conflicts. The contract \<open>si_contract\<close> extends the one of an open transaction by the committed content
  of the store; the client \<open>mv_sdk\<close> satisfies it. Under the contract, a transaction loop
  answers, and a run that answers OK has changed the store by exactly the difference that its last
  attempt made on its snapshot.
\<close>

subsection \<open>Snapshot isolation\<close>

text \<open>
  The parts of the SDK's state: the content an open transaction sees, whether one is open, the
  committed content, the snapshot the transaction started from, the keys it wrote.
\<close>

record ('c, 'v) Si =
  si_view :: "'c \<Rightarrow> bytes \<rightharpoonup> 'v"
  si_open :: "'c \<Rightarrow> bool"
  si_client :: "'c \<Rightarrow> bool"
  si_db :: "'c \<Rightarrow> bytes \<rightharpoonup> 'v"
  si_base :: "'c \<Rightarrow> bytes \<rightharpoonup> 'v"
  si_writes :: "'c \<Rightarrow> bytes set"

text \<open>What a write, or a step towards the commit, leaves as it was.\<close>

definition same_txn :: "('c, 'v) Si \<Rightarrow> 'c \<Rightarrow> 'c \<Rightarrow> bool" where
  "same_txn S c c' \<longleftrightarrow> si_client S c' \<and> si_db S c' = si_db S c \<and> si_base S c' = si_base S c"

text \<open>The content after a commit of the transaction.\<close>

definition overwritten :: "('c, 'v) Si \<Rightarrow> 'c \<Rightarrow> bytes \<rightharpoonup> 'v" where
  "overwritten S c = (\<lambda>k. if k \<in> si_writes S c then si_view S c k else si_db S c k)"

locale si_contract =
  fixes sdk :: "('c, 'v) Sdk" and S :: "('c, 'v) Si"
  assumes open_law: "sdk_contract sdk (si_view S) (si_open S)"
    and new_law: "si_client S c \<Longrightarrow> \<exists>st c'. NewTransaction sdk c = (st, c') \<and> sdk_ok st \<and> si_open S c'
      \<and> si_client S c' \<and> si_view S c' = si_db S c \<and> si_base S c' = si_db S c \<and> si_db S c' = si_db S c
      \<and> si_writes S c' = {}"
    and put_keeps: "si_open S c \<Longrightarrow> si_client S c \<Longrightarrow> sdk_Put sdk k v c = (st, c') \<Longrightarrow>
      same_txn S c c' \<and> si_writes S c' = insert k (si_writes S c)"
    and delete_keeps: "si_open S c \<Longrightarrow> si_client S c \<Longrightarrow> sdk_Delete sdk k c = (st, c') \<Longrightarrow>
      same_txn S c c' \<and> si_writes S c' = insert k (si_writes S c)"
    and precommit_law: "si_open S c \<Longrightarrow> si_client S c \<Longrightarrow> sdk_PreCommit sdk c = (st, c') \<Longrightarrow>
      same_txn S c c' \<and> (if sdk_ok st then si_open S c' \<and> si_view S c' = si_view S c
        \<and> si_writes S c' = si_writes S c else Errno st \<noteq> OK)"
    and conflict_law: "si_open S c \<Longrightarrow> si_client S c \<Longrightarrow> sdk_PreCommit sdk c = (st, c') \<Longrightarrow>
      k \<in> si_writes S c \<Longrightarrow> si_db S c k \<noteq> si_base S c k \<Longrightarrow> \<not> sdk_ok st \<and> IsTxnWriteConflict st"
    and commit_law: "si_open S c \<Longrightarrow> si_client S c \<Longrightarrow> sdk_Commit sdk c = (st, c') \<Longrightarrow>
      si_client S c' \<and> (si_db S c' = overwritten S c \<or> \<not> sdk_ok st \<and> si_db S c' = si_db S c)
      \<and> (\<not> sdk_ok st \<and> IsTxnWriteConflict st \<longrightarrow> si_db S c' = si_db S c)"
    and rollback_law: "si_client S c \<Longrightarrow> sdk_Rollback sdk c = (st, c') \<Longrightarrow>
      si_client S c' \<and> si_db S c' = si_db S c"

sublocale si_contract \<subseteq> open_txn: sdk_contract sdk "si_view S" "si_open S"
  by (rule open_law)

text \<open>An open transaction on the snapshot \<open>d\<close> that nobody has overtaken.\<close>

definition in_txn :: "('c, 'v) Si \<Rightarrow> (bytes \<rightharpoonup> 'v) \<Rightarrow> 'c \<Rightarrow> bool" where
  "in_txn S d c \<longleftrightarrow> si_open S c \<and> si_client S c \<and> si_base S c = d \<and> si_db S c = d
     \<and> (\<forall>k. k \<notin> si_writes S c \<longrightarrow> si_view S c k = d k)"

text \<open>Other clients may commit, but an open transaction keeps its snapshot and its writes.\<close>

definition isolated :: "('c, 'v) Si \<Rightarrow> (nat \<Rightarrow> 'c \<Rightarrow> 'c) \<Rightarrow> bool" where
  "isolated S env \<longleftrightarrow> (\<forall>r c. si_open S c \<longrightarrow> si_client S c \<longrightarrow>
     si_open S (env r c) \<and> si_client S (env r c) \<and> si_view S (env r c) = si_view S c
     \<and> si_base S (env r c) = si_base S c \<and> si_writes S (env r c) = si_writes S c)"

text \<open>The content \<open>d1\<close> changed where \<open>v\<close> differs from \<open>d\<close>.\<close>

definition merged :: "(bytes \<rightharpoonup> 'v) \<Rightarrow> (bytes \<rightharpoonup> 'v) \<Rightarrow> (bytes \<rightharpoonup> 'v) \<Rightarrow> bytes \<rightharpoonup> 'v" where
  "merged d v d1 = (\<lambda>k. if v k \<noteq> d k then v k else d1 k)"

lemma merged_same [simp]: "merged d v d = v"
  by (auto simp: merged_def)

lemma isolatedD:
  assumes "isolated S env" and "si_open S c" and "si_client S c"
  shows "si_open S (env r c)" "si_client S (env r c)" "si_view S (env r c) = si_view S c"
    "si_base S (env r c) = si_base S c" "si_writes S (env r c) = si_writes S c"
  using assms by (simp_all add: isolated_def)

lemma isolated_idle [simp]: "isolated S (\<lambda>_ c. c)"
  by (simp add: isolated_def)

context si_contract
begin

lemma new_txn:
  assumes "si_client S c"
  shows "\<exists>t. DingodbStorage_NewTxn sdk c = Some t \<and> in_txn S (si_db S c) (sdk_txn t)
    \<and> si_view S (sdk_txn t) = si_db S c"
  using new_law [OF assms] by (auto simp: DingodbStorage_NewTxn_def NewSdkTxn_def in_txn_def)

lemma in_txn_write:
  assumes "in_txn S d c" and "same_txn S c c'" and "si_writes S c' = insert k (si_writes S c)"
    and "si_open S c'" and "si_view S c' = (si_view S c)(k := x)"
  shows "in_txn S d c'"
  using assms by (auto simp: in_txn_def same_txn_def)

lemma in_txn_kv:
  "kv_scan_txn (DingodbTxn sdk) (\<lambda>t. si_view S (sdk_txn t)) (\<lambda>t. in_txn S d (sdk_txn t))"
proof unfold_locales
  fix t :: "'c DingodbTxn" and k v
  assume i: "in_txn S d (sdk_txn t)"
  then have o: "si_open S (sdk_txn t)" and cl: "si_client S (sdk_txn t)" by (simp_all add: in_txn_def)
  obtain st c' where c': "sdk_Put sdk k v (sdk_txn t) = (st, c')" "sdk_ok st" "si_open S c'"
      "si_view S c' = (si_view S (sdk_txn t))(k \<mapsto> v)"
    using open_txn.sdk_put [OF o] by blast
  have "in_txn S d c'" using in_txn_write [OF i _ _ c'(3,4)] put_keeps [OF o cl c'(1)] by blast
  then show "\<exists>t'. Put (DingodbTxn sdk) k v t = Some (OK, t') \<and> in_txn S d (sdk_txn t')
      \<and> si_view S (sdk_txn t') = (si_view S (sdk_txn t))(k \<mapsto> v)"
    using c' by (simp add: DingodbTxn_def DingodbTxn_Put_def DingodbTxn_write_def)
  obtain st2 c2 where c2: "sdk_Delete sdk k (sdk_txn t) = (st2, c2)" "sdk_ok st2" "si_open S c2"
      "si_view S c2 = (si_view S (sdk_txn t))(k := None)"
    using open_txn.sdk_delete [OF o] by blast
  have "in_txn S d c2" using in_txn_write [OF i _ _ c2(3,4)] delete_keeps [OF o cl c2(1)] by blast
  then show "\<exists>t'. Delete (DingodbTxn sdk) k t = Some (OK, t') \<and> in_txn S d (sdk_txn t')
      \<and> si_view S (sdk_txn t') = (si_view S (sdk_txn t))(k := None)"
    using c2 by (simp add: DingodbTxn_def DingodbTxn_Delete_def DingodbTxn_write_def)
  show "Get (DingodbTxn sdk) k t
      = (case si_view S (sdk_txn t) k of None \<Rightarrow> Inl ENOT_FOUND | Some v \<Rightarrow> Inr v)"
    by (rule open_txn.dingo.get_law [OF o])
  show "finite (dom (si_view S (sdk_txn t)))"
    by (rule open_txn.dingo.finite_view [OF o])
  show "distinct ks \<Longrightarrow> \<exists>kvs. BatchGet (DingodbTxn sdk) ks t = Inr kvs \<and> distinct (map kv_key kvs)
      \<and> map_of (map kv_pair kvs) = si_view S (sdk_txn t) |` set ks" for ks
    by (rule open_txn.dingo.batch_get_law [OF o])
  show "Scan (DingodbTxn sdk) r limit t = Inr (map (\<lambda>(k, v). put_kv k v)
      (take (unat limit) (range_list (si_view S (sdk_txn t)) (start_key r) (end_key r))))" for r limit
    by (rule open_txn.dingo.scan_law [OF o])
qed

lemma in_txn_kv1: "kv_txn (DingodbTxn sdk) (\<lambda>t. si_view S (sdk_txn t)) (\<lambda>t. in_txn S d (sdk_txn t))"
  using in_txn_kv kv_scan_txn.axioms(1) by blast

text \<open>The commit after others have brought the store from \<open>d\<close> to \<open>d1\<close>.\<close>

lemma commit_cases:
  assumes "si_open S c" and "si_client S c" and "si_base S c = d" and "si_db S c = d1"
    and v: "\<forall>k. k \<notin> si_writes S c \<longrightarrow> si_view S c k = d k"
    and c: "DingodbTxn_Commit sdk \<lparr>sdk_txn = c, is_conflict = b\<rparr> = (st, t)"
  shows "si_client S (sdk_txn t)"
    and "st = OK \<Longrightarrow> si_db S (sdk_txn t) = merged d (si_view S c) d1
      \<and> (\<forall>k. si_view S c k \<noteq> d k \<longrightarrow> d1 k = d k)"
    and "st = ESTORE_MAYBE_RETRY \<Longrightarrow> si_db S (sdk_txn t) = d1"
    and "si_db S (sdk_txn t) = d1
      \<or> si_db S (sdk_txn t) = merged d (si_view S c) d1 \<and> (\<forall>k. si_view S c k \<noteq> d k \<longrightarrow> d1 k = d k)"
    and "si_view S c k \<noteq> d k \<Longrightarrow> d1 k \<noteq> d k \<Longrightarrow> st = ESTORE_MAYBE_RETRY"
proof -
  obtain p c1 where p: "sdk_PreCommit sdk c = (p, c1)" by (cases "sdk_PreCommit sdk c")
  note pl = precommit_law [OF assms(1,2) p]
  have s1: "si_client S c1" "si_db S c1 = d1" "si_base S c1 = d"
    using pl assms(3,4) by (auto simp: same_txn_def)
  obtain r c2 where r: "sdk_Rollback sdk c1 = (r, c2)" by (cases "sdk_Rollback sdk c1")
  note rl = rollback_law [OF s1(1) r]
  have conf: "\<not> sdk_ok p \<and> IsTxnWriteConflict p" if "k \<in> si_writes S c" "d1 k \<noteq> d k" for k
    using conflict_law [OF assms(1,2) p] that assms(3,4) by auto
  obtain q c3 where q: "sdk_Commit sdk c1 = (q, c3)" by (cases "sdk_Commit sdk c1")
  obtain r2 c4 where r2: "sdk_Rollback sdk c3 = (r2, c4)" by (cases "sdk_Rollback sdk c3")
  have ov: "overwritten S c1 = merged d (si_view S c) d1" if "sdk_ok p"
  proof -
    have e: "si_view S c1 = si_view S c" "si_writes S c1 = si_writes S c" using pl that by auto
    have "d1 k = d k" if "k \<in> si_writes S c" for k using conf [OF that] \<open>sdk_ok p\<close> by blast
    then show ?thesis
      using v s1(2) by (auto simp: overwritten_def merged_def fun_eq_iff e)
  qed
  have cl: "si_client S c3 \<and> (si_db S c3 = merged d (si_view S c) d1 \<or> \<not> sdk_ok q \<and> si_db S c3 = d1)
      \<and> (\<not> sdk_ok q \<and> IsTxnWriteConflict q \<longrightarrow> si_db S c3 = d1)" if "sdk_ok p"
  proof -
    have "si_open S c1" using pl that by auto
    from commit_law [OF this s1(1) q] show ?thesis by (simp add: ov [OF that] s1(2))
  qed
  have rl2: "si_client S c4 \<and> si_db S c4 = si_db S c3" if "sdk_ok p"
    using rollback_law [OF _ r2] cl [OF that] by blast
  have nw: "\<forall>k. si_view S c k \<noteq> d k \<longrightarrow> d1 k = d k" if "sdk_ok p"
    using conf v that by metis
  note [simp] = p r q r2 DingodbTxn_Rollback_def
  consider (pre) "\<not> sdk_ok p" | (com) "sdk_ok p" "\<not> sdk_ok q" | (fine) "sdk_ok p" "sdk_ok q" by blast
  then have *: "si_client S (sdk_txn t)
    \<and> (st = OK \<longrightarrow> si_db S (sdk_txn t) = merged d (si_view S c) d1 \<and> (\<forall>k. si_view S c k \<noteq> d k \<longrightarrow> d1 k = d k))
    \<and> (st = ESTORE_MAYBE_RETRY \<longrightarrow> si_db S (sdk_txn t) = d1)
    \<and> (si_db S (sdk_txn t) = d1
      \<or> si_db S (sdk_txn t) = merged d (si_view S c) d1 \<and> (\<forall>k. si_view S c k \<noteq> d k \<longrightarrow> d1 k = d k))
    \<and> (si_view S c k \<noteq> d k \<and> d1 k \<noteq> d k \<longrightarrow> st = ESTORE_MAYBE_RETRY)"
  proof cases
    case pre
    have "si_view S c k \<noteq> d k \<Longrightarrow> d1 k \<noteq> d k \<Longrightarrow> IsTxnWriteConflict p" using conf v by metis
    then show ?thesis
      using c pre rl s1 pl by (auto simp: DingodbTxn_Commit_def Let_def split: if_splits)
  next
    case com
    then show ?thesis
      using c rl2 cl nw by (auto simp: DingodbTxn_Commit_def Let_def split: if_splits)
  next
    case fine
    then show ?thesis
      using c cl nw by (auto simp: DingodbTxn_Commit_def Let_def split: if_splits)
  qed
  then show "si_client S (sdk_txn t)"
    and "st = OK \<Longrightarrow> si_db S (sdk_txn t) = merged d (si_view S c) d1
      \<and> (\<forall>k. si_view S c k \<noteq> d k \<longrightarrow> d1 k = d k)"
    and "st = ESTORE_MAYBE_RETRY \<Longrightarrow> si_db S (sdk_txn t) = d1"
    and "si_db S (sdk_txn t) = d1
      \<or> si_db S (sdk_txn t) = merged d (si_view S c) d1 \<and> (\<forall>k. si_view S c k \<noteq> d k \<longrightarrow> d1 k = d k)"
    and "si_view S c k \<noteq> d k \<Longrightarrow> d1 k \<noteq> d k \<Longrightarrow> st = ESTORE_MAYBE_RETRY"
    by blast+
qed

text \<open>The end of an attempt: the others' steps, then the commit.\<close>

lemma commit_env:
  assumes t: "in_txn S d (sdk_txn t)" and iso: "isolated S env"
    and c: "Commit (DingodbTxn sdk) (t\<lparr>sdk_txn := env r (sdk_txn t)\<rparr>) = (st, t')"
  defines "d1 \<equiv> si_db S (env r (sdk_txn t))" and "v \<equiv> si_view S (sdk_txn t)"
  shows "si_client S (sdk_txn t')"
    and "st = OK \<Longrightarrow> si_db S (sdk_txn t') = merged d v d1 \<and> (\<forall>k. v k \<noteq> d k \<longrightarrow> d1 k = d k)"
    and "st = ESTORE_MAYBE_RETRY \<Longrightarrow> si_db S (sdk_txn t') = d1"
    and "si_db S (sdk_txn t') = d1 \<or> si_db S (sdk_txn t') = merged d v d1 \<and> (\<forall>k. v k \<noteq> d k \<longrightarrow> d1 k = d k)"
    and "v k \<noteq> d k \<Longrightarrow> d1 k \<noteq> d k \<Longrightarrow> st = ESTORE_MAYBE_RETRY"
proof -
  let ?c = "env r (sdk_txn t)"
  have o: "si_open S (sdk_txn t)" "si_client S (sdk_txn t)" using t by (simp_all add: in_txn_def)
  note e = isolatedD [OF iso o, of r]
  have b: "si_base S ?c = d" "\<forall>k. k \<notin> si_writes S ?c \<longrightarrow> si_view S ?c k = d k"
    using t e by (simp_all add: in_txn_def)
  have "DingodbTxn_Commit sdk \<lparr>sdk_txn = ?c, is_conflict = is_conflict t\<rparr> = (st, t')"
    using c by (cases t) (simp add: DingodbTxn_def)
  note cc = commit_cases [OF e(1,2) b(1) refl b(2) this, unfolded e(3), folded d1_def v_def]
  show "si_client S (sdk_txn t')"
    and "st = OK \<Longrightarrow> si_db S (sdk_txn t') = merged d v d1 \<and> (\<forall>k. v k \<noteq> d k \<longrightarrow> d1 k = d k)"
    and "st = ESTORE_MAYBE_RETRY \<Longrightarrow> si_db S (sdk_txn t') = d1"
    and "si_db S (sdk_txn t') = d1 \<or> si_db S (sdk_txn t') = merged d v d1 \<and> (\<forall>k. v k \<noteq> d k \<longrightarrow> d1 k = d k)"
    and "v k \<noteq> d k \<Longrightarrow> d1 k \<noteq> d k \<Longrightarrow> st = ESTORE_MAYBE_RETRY"
    using cc by blast+
qed

end

subsection \<open>The loop\<close>

lemma txn_loop_returns:
  assumes "P r x c"
    and "\<And>r x c. P r x c \<Longrightarrow> returns (attempt r x c)
      (\<lambda>(again, st, x', c'). (again \<longrightarrow> P (Suc r) x' c') \<and> Q st x' c')"
  shows "returns (txn_loop attempt n r x c) (\<lambda>(st, x', c'). Q st x' c')"
  using assms
proof (induction attempt n r x c rule: txn_loop.induct)
  case (1 attempt n r x c)
  from "1.prems"(2) [OF "1.prems"(1)] obtain y where y: "attempt r x c = Some y"
    and q: "case y of (again, st, x', c') \<Rightarrow> (again \<longrightarrow> P (Suc r) x' c') \<and> Q st x' c'"
    unfolding returns_def by blast
  obtain again st x1 c1 where a: "y = (again, st, x1, c1)" by (cases y)
  have "returns (txn_loop attempt n (Suc r) x1 c1) (\<lambda>(st, x', c'). Q st x' c')" if "again" "Suc r < n"
    using "1.IH" [OF y a [symmetric] refl refl] that q a "1.prems"(2) by simp
  then show ?case
    using q by (simp add: txn_loop.simps [of _ _ r] y a)
qed

text \<open>What every attempt establishes, an answer of the loop establishes.\<close>

lemma txn_loop_post_again:
  assumes "txn_loop attempt n r x c = Some (st, x', c')" and "P c"
    and "\<And>r x c again st x' c'. attempt r x c = Some (again, st, x', c') \<Longrightarrow> P c \<Longrightarrow> (again \<longrightarrow> P c') \<and> Q st x' c'"
  shows "Q st x' c'"
  using assms
proof (induction attempt n r x c rule: txn_loop.induct)
  case (1 attempt n r x c)
  obtain again st1 x1 c1 where a: "attempt r x c = Some (again, st1, x1, c1)"
    using "1.prems"(1) by (auto simp: txn_loop.simps [of attempt n r] bind_eq_Some_conv)
  show ?case
  proof (cases "again \<and> Suc r < n")
    case True
    then have "txn_loop attempt n (Suc r) x1 c1 = Some (st, x', c')"
      using "1.prems"(1) a by (simp add: txn_loop.simps [of attempt n r])
    then show ?thesis using "1.IH" [OF a refl refl refl True] "1.prems"(2,3) a True by blast
  next
    case False
    then show ?thesis using "1.prems" a by (auto simp: txn_loop.simps [of attempt n r])
  qed
qed

lemma txn_loop_post:
  assumes "txn_loop attempt n r x c = Some (st, x', c')" and "P c"
    and "\<And>r x c again st x' c'. attempt r x c = Some (again, st, x', c') \<Longrightarrow> P c \<Longrightarrow> P c' \<and> Q st x' c'"
  shows "P c' \<and> Q st x' c'"
  using txn_loop_post_again [where P = P and Q = "\<lambda>st x c. P c \<and> Q st x c", OF assms(1,2)] assms(3) by blast

text \<open>The loop makes at most \<open>n\<close> attempts: it does not depend on what later ones would do.\<close>

lemma txn_loop_cong:
  assumes "\<And>i x c. r \<le> i \<Longrightarrow> i < max n (Suc r) \<Longrightarrow> attempt i x c = attempt' i x c"
  shows "txn_loop attempt n r x c = txn_loop attempt' n r x c"
  using assms
proof (induction attempt n r x c rule: txn_loop.induct)
  case (1 attempt n r x c)
  have a: "attempt r x c = attempt' r x c" using "1.prems" by simp
  show ?case
  proof (cases "attempt r x c")
    case (Some y)
    obtain again st x1 c1 where y: "y = (again, st, x1, c1)" by (cases y)
    have "txn_loop attempt n (Suc r) x1 c1 = txn_loop attempt' n (Suc r) x1 c1" if "again" "Suc r < n"
      using "1.IH" [OF Some y [symmetric] refl refl] that "1.prems" by simp
    then show ?thesis
      by (simp add: txn_loop.simps [of _ _ r] a [symmetric] Some y)
  qed (simp add: txn_loop.simps [of _ _ r] a [symmetric])
qed

text \<open>How a run can end, from the snapshot \<open>d\<close> of its last attempt; \<open>d1\<close> is what the others made of it.\<close>

definition alone_outcome ::
    "((bytes \<rightharpoonup> 'v) \<Rightarrow> Status \<Rightarrow> (bytes \<rightharpoonup> 'v) \<Rightarrow> bool) \<Rightarrow> (bytes \<rightharpoonup> 'v) \<Rightarrow> (bytes \<rightharpoonup> 'v) \<Rightarrow> (bytes \<rightharpoonup> 'v)
      \<Rightarrow> Status \<Rightarrow> (bytes \<rightharpoonup> 'v) \<Rightarrow> bool" where
  "alone_outcome Post d v d1 st d' \<longleftrightarrow>
     (if st = OK then Post d OK v \<and> d' = merged d v d1 \<and> (\<forall>k. v k \<noteq> d k \<longrightarrow> d1 k = d k)
      else d' = d1 \<or> Post d OK v \<and> d' = merged d v d1 \<and> (\<forall>k. v k \<noteq> d k \<longrightarrow> d1 k = d k))"

context si_contract
begin

lemma alone_attempt_returns:
  assumes c: "si_client S c" and iso: "isolated S env"
    and run: "\<And>t. in_txn S (si_db S c) (sdk_txn t) \<Longrightarrow> si_view S (sdk_txn t) = si_db S c \<Longrightarrow>
      returns (run t) (\<lambda>(st, t'). in_txn S (si_db S c) (sdk_txn t') \<and> Post (si_db S c) st (si_view S (sdk_txn t')))"
  shows "returns (alone_attempt sdk env run r x c) (\<lambda>(again, st, x', c'). si_client S c' \<and>
    (\<exists>v e. si_open S e \<and> si_client S e \<and> si_db S e = si_db S c
      \<and> alone_outcome Post (si_db S c) v (si_db S (env r e)) st (si_db S c')
      \<and> (again \<longrightarrow> si_db S c' = si_db S (env r e))))"
proof -
  let ?d = "si_db S c"
  obtain t where t: "DingodbStorage_NewTxn sdk c = Some t" "in_txn S ?d (sdk_txn t)" "si_view S (sdk_txn t) = ?d"
    using new_txn [OF c] by blast
  obtain st t1 where t1: "run t = Some (st, t1)" "in_txn S ?d (sdk_txn t1)" "Post ?d st (si_view S (sdk_txn t1))"
    using run [OF t(2,3)] by (auto simp: returns_def)
  let ?e = "sdk_txn t1"
  have e: "si_open S ?e" "si_client S ?e" "si_db S ?e = ?d" using t1(2) by (simp_all add: in_txn_def)
  obtain st2 t2 where c2: "Commit (DingodbTxn sdk) (t1\<lparr>sdk_txn := env r ?e\<rparr>) = (st2, t2)"
    by (cases "Commit (DingodbTxn sdk) (t1\<lparr>sdk_txn := env r ?e\<rparr>)")
  note cc = commit_env [OF t1(2) iso c2]
  show ?thesis
  proof (cases "ok st")
    case False
    then show ?thesis
      using t(1) t1(1) isolatedD [OF iso e(1,2), of r] e
      by (auto simp: alone_attempt_def alone_outcome_def)
  next
    case True
    have "alone_outcome Post ?d (si_view S ?e) (si_db S (env r ?e)) st2 (si_db S (sdk_txn t2))"
      using cc(2,4) t1(3) True by (auto simp: alone_outcome_def)
    then show ?thesis
      using t(1) t1(1) c2 True cc(1,3) e by (auto simp: alone_attempt_def)
  qed
qed

text \<open>The run of an operation while the others keep the store within \<open>I\<close>.\<close>

lemma alone_loop:
  assumes c: "si_client S c" "I (si_db S c)" and iso: "isolated S env"
    and env: "\<And>r e. si_open S e \<Longrightarrow> si_client S e \<Longrightarrow> I (si_db S e) \<Longrightarrow> I (si_db S (env r e))"
    and run: "\<And>d t. I d \<Longrightarrow> in_txn S d (sdk_txn t) \<Longrightarrow> si_view S (sdk_txn t) = d \<Longrightarrow>
      returns (run t) (\<lambda>(st, t'). in_txn S d (sdk_txn t') \<and> Post d st (si_view S (sdk_txn t')))"
  shows "returns (txn_loop (alone_attempt sdk env run) n r () c) (\<lambda>(st, _, c'). si_client S c' \<and>
    (\<exists>d v d1. I d \<and> I d1 \<and> alone_outcome Post d v d1 st (si_db S c')))"
proof (rule txn_loop_returns [where P = "\<lambda>_ _ c. si_client S c \<and> I (si_db S c)"
    and Q = "\<lambda>st _ c'. si_client S c' \<and> (\<exists>d v d1. I d \<and> I d1 \<and> alone_outcome Post d v d1 st (si_db S c'))"])
  fix r x c
  assume a: "si_client S c \<and> I (si_db S c)"
  show "returns (alone_attempt sdk env run r x c) (\<lambda>(again, st, x', c').
      (again \<longrightarrow> si_client S c' \<and> I (si_db S c')) \<and>
      si_client S c' \<and> (\<exists>d v d1. I d \<and> I d1 \<and> alone_outcome Post d v d1 st (si_db S c')))"
    by (rule returns_mono [OF alone_attempt_returns [where Post = Post, OF _ iso]])
      (use a env run in \<open>fastforce+\<close>)
qed (use c in simp)

text \<open>The run of an operation with the store to itself.\<close>

lemma alone_idle:
  assumes c: "si_client S c"
    and run: "\<And>t. in_txn S (si_db S c) (sdk_txn t) \<Longrightarrow> si_view S (sdk_txn t) = si_db S c \<Longrightarrow>
      returns (Run pb (DingodbTxn sdk) operation t)
        (\<lambda>(st, t'). in_txn S (si_db S c) (sdk_txn t') \<and> Post st (si_view S (sdk_txn t')))"
  shows "returns (RunAlone pb sdk (\<lambda>_ c. c) operation c) (\<lambda>(st, c'). si_client S c' \<and>
    (if st = OK then Post OK (si_db S c') else si_db S c' = si_db S c \<or> Post OK (si_db S c')))"
proof -
  let ?run = "Run pb (DingodbTxn sdk) operation"
  have "returns (txn_loop (alone_attempt sdk (\<lambda>_ c. c) ?run) FLAGS_txn_max_retry_times 0 () c)
    (\<lambda>(st, _, c'). si_client S c' \<and> (\<exists>d v d1. d = si_db S c \<and> d1 = si_db S c
      \<and> alone_outcome (\<lambda>_. Post) d v d1 st (si_db S c')))"
    by (rule alone_loop [OF c _ isolated_idle]) (use run in simp_all)
  then show ?thesis
    by (auto simp: RunAlone_def returns_def alone_outcome_def split: if_splits)
qed

end

subsection \<open>A client with snapshot isolation\<close>

text \<open>
  A transaction works on a copy of the committed store and remembers its snapshot and the keys it
  wrote; \<^verbatim>\<open>PreCommit\<close> reports a conflict when one of them has changed since.
\<close>

record 'v mv_client =
  mv_db :: "(bytes, 'v) omap"
  mv_base :: "(bytes, 'v) omap"
  mv_work :: "(bytes, 'v) omap"
  mv_writes :: "bytes list"

definition mv_conflict :: "'v mv_client \<Rightarrow> bool" where
  "mv_conflict c = list_ex (\<lambda>k. om_find (mv_db c) k \<noteq> om_find (mv_base c) k) (mv_writes c)"

definition mv_apply :: "'v mv_client \<Rightarrow> bytes \<Rightarrow> (bytes, 'v) omap \<Rightarrow> (bytes, 'v) omap" where
  "mv_apply c k d = (case om_find (mv_work c) k of None \<Rightarrow> om_erase k d | Some v \<Rightarrow> om_insert k v d)"

definition mv_sdk :: "('v mv_client, 'v) Sdk" where
  "mv_sdk =
     \<lparr>NewTransaction = (\<lambda>c. (sdk_success, c\<lparr>mv_base := mv_db c, mv_work := mv_db c, mv_writes := []\<rparr>)),
      sdk_Put = (\<lambda>k v c. (sdk_success,
        c\<lparr>mv_work := om_insert k v (mv_work c), mv_writes := k # mv_writes c\<rparr>)),
      sdk_PutIfAbsent = (\<lambda>k v c.
        if om_find (mv_work c) k = None
        then (sdk_success, c\<lparr>mv_work := om_insert k v (mv_work c), mv_writes := k # mv_writes c\<rparr>)
        else (sdk_write_conflict, c)),
      sdk_Delete = (\<lambda>k c. (sdk_success,
        c\<lparr>mv_work := om_erase k (mv_work c), mv_writes := k # mv_writes c\<rparr>)),
      sdk_Get = (\<lambda>k c. case om_find (mv_work c) k of None \<Rightarrow> Inl sdk_not_found | Some v \<Rightarrow> Inr v),
      sdk_BatchGet = (\<lambda>ks c. Inr (map kv_pair
        (List.map_filter (\<lambda>k. map_option (put_kv k) (om_find (mv_work c) k)) ks))),
      sdk_Scan = (\<lambda>lo hi limit c. Inr (take (unat limit) (om_range lo hi (mv_work c)))),
      sdk_PreCommit = (\<lambda>c. (if mv_conflict c then sdk_write_conflict else sdk_success, c)),
      sdk_Commit = (\<lambda>c. (sdk_success, c\<lparr>mv_db := fold (mv_apply c) (mv_writes c) (mv_db c)\<rparr>)),
      sdk_Rollback = (\<lambda>c. (sdk_success, c\<lparr>mv_work := mv_base c, mv_writes := []\<rparr>))\<rparr>"

definition mv_si :: "('v mv_client, 'v) Si" where
  "mv_si =
     \<lparr>si_view = (\<lambda>c. om_find (mv_work c)), si_open = (\<lambda>c. om_ok (mv_work c)),
      si_client = (\<lambda>c. om_ok (mv_db c)), si_db = (\<lambda>c. om_find (mv_db c)),
      si_base = (\<lambda>c. om_find (mv_base c)), si_writes = (\<lambda>c. set (mv_writes c))\<rparr>"

lemma om_ok_mv_apply [simp]: "om_ok d \<Longrightarrow> om_ok (mv_apply c k d)"
  by (simp add: mv_apply_def split: option.split)

lemma mv_commit:
  assumes "om_ok d"
  shows "om_ok (fold (mv_apply c) ks d)"
    and "om_find (fold (mv_apply c) ks d) = (\<lambda>k. if k \<in> set ks then om_find (mv_work c) k else om_find d k)"
proof -
  have "om_ok (fold (mv_apply c) ks d)
    \<and> om_find (fold (mv_apply c) ks d) = (\<lambda>k. if k \<in> set ks then om_find (mv_work c) k else om_find d k)"
    using assms
  proof (induction ks arbitrary: d)
    case (Cons k ks)
    have "om_find (mv_apply c k d) = (om_find d)(k := om_find (mv_work c) k)"
      using Cons.prems by (auto simp: mv_apply_def om_find_insert om_find_erase split: option.split)
    then show ?case using Cons.IH [of "mv_apply c k d"] Cons.prems by (auto simp: fun_eq_iff)
  qed auto
  then show "om_ok (fold (mv_apply c) ks d)"
    and "om_find (fold (mv_apply c) ks d) = (\<lambda>k. if k \<in> set ks then om_find (mv_work c) k else om_find d k)"
    by blast+
qed

interpretation mv: sdk_contract mv_sdk "\<lambda>c. om_find (mv_work c)" "\<lambda>c. om_ok (mv_work c)"
  by unfold_locales
    (auto simp: mv_sdk_def sdk_success_def sdk_not_found_def om_find_insert om_find_erase
      map_of_map_filter_find keys_map_filter_find om_range_range_list dom_om_find
      map_fst_kv_pair simp del: map_map)

interpretation mv_si: si_contract mv_sdk mv_si
proof (rule si_contract.intro)
  show "sdk_contract mv_sdk (si_view mv_si) (si_open mv_si)"
    using mv.sdk_contract_axioms by (simp add: mv_si_def)
qed (auto simp: mv_sdk_def mv_si_def sdk_success_def sdk_write_conflict_def same_txn_def mv_conflict_def
    overwritten_def mv_commit list_ex_iff split: if_splits)

lemma mv_contract: "si_contract mv_sdk mv_si"
  by (rule mv_si.si_contract_axioms)

text \<open>Evaluation of a run on this client.\<close>

lemmas mv_run_defs = txn_loop.simps DingodbStorage_NewTxn_def NewSdkTxn_def DingodbTxn_def DingodbTxn_Get_def
  DingodbTxn_Put_def DingodbTxn_write_def DingodbTxn_Commit_def tx_put_def mv_sdk_def mv_apply_def mv_conflict_def
  sdk_success_def sdk_not_found_def read_error_def Let_def

end
