(* ===== verification/Batch.thy ===== *)
theory Batch
  imports Isolation
begin

text \<open>
  The meaning of a batch: its operations act in order on the file system, those on attributes
  before the creates, and the inode they share gets one new version. \<^verbatim>\<open>ExecuteBatchOperation\<close>
  implements it in one transaction.
\<close>

subsection \<open>The effect of a batch\<close>

fun spec_in_batch :: "u64 \<Rightarrow> Operation \<Rightarrow> ns \<Rightarrow> ns" where
  "spec_in_batch p (MkDirOperation time d a) s = spec_create time d a (the (inodes s p)) s"
| "spec_in_batch p (MkNodOperation time d a) s = spec_create time d a (the (inodes s p)) s"
| "spec_in_batch p (SmyLinkOperation time d a) s = spec_create time d a (the (inodes s p)) s"
| "spec_in_batch p (UpdateAttrOperation _ to_set a) s =
     s\<lparr>inodes := (inodes s)(p \<mapsto> snd (UpdateAttrOperation_RunInBatch to_set a (the (inodes s p))))\<rparr>"
| "spec_in_batch p (UpdateXAttrOperation time _ _ xattrs) s =
     s\<lparr>inodes := (inodes s)(p \<mapsto> snd (UpdateXAttrOperation_RunInBatch time xattrs (the (inodes s p))))\<rparr>"
| "spec_in_batch p (UpdateChunkOperation time info _ index slices) s =
     s\<lparr>inodes := (inodes s)(p \<mapsto>
       fst (snd (UpdateChunkOperation_RunInBatch info time index slices (the (inodes s p)))))\<rparr>"
| "spec_in_batch p _ s = s"

definition spec_batch :: "BatchOperation \<Rightarrow> ns \<Rightarrow> ns" where
  "spec_batch batch s =
     (let p = bo_ino batch;
          s = fold (spec_in_batch p) (setattr_operations batch @ create_operations batch) s
      in s\<lparr>inodes := (inodes s)(p \<mapsto> bump (the (inodes s p)))\<rparr>)"

text \<open>An operation of a batch on the inode \<open>p\<close>: a create names a new entry of it, with the type of its class.\<close>

fun op_wf :: "u64 \<Rightarrow> Operation \<Rightarrow> bool" where
  "op_wf p (MkDirOperation _ d _) \<longleftrightarrow> d_parent d = p \<and> d_ino d \<noteq> p \<and> d_name d \<noteq> [] \<and> d_type d = DIRECTORY"
| "op_wf p (MkNodOperation _ d _) \<longleftrightarrow> d_parent d = p \<and> d_ino d \<noteq> p \<and> d_name d \<noteq> [] \<and> d_type d \<noteq> DIRECTORY"
| "op_wf p (SmyLinkOperation _ d _) \<longleftrightarrow> d_parent d = p \<and> d_ino d \<noteq> p \<and> d_name d \<noteq> [] \<and> d_type d \<noteq> DIRECTORY"
| "op_wf p x \<longleftrightarrow> IsSetAttrType x"

definition batch_wf :: "BatchOperation \<Rightarrow> bool" where
  "batch_wf batch \<longleftrightarrow> (\<forall>x \<in> set (setattr_operations batch @ create_operations batch). op_wf (bo_ino batch) x)"

lemma update_same_inode [simp]:
  "same_inode (snd (UpdateAttrOperation_RunInBatch to_set a attr)) attr"
  "same_inode (snd (UpdateXAttrOperation_RunInBatch time xattrs attr)) attr"
  "same_inode (fst (snd (UpdateChunkOperation_RunInBatch info time index slices attr))) attr"
  by (simp_all add: same_inode_def UpdateAttrOperation_RunInBatch_def set_if_def
      UpdateXAttrOperation_RunInBatch_def UpdateChunkOperation_RunInBatch_def Let_def)

lemma represents_update:
  assumes "represents pb f (v(inode_key f p \<mapsto> x)) s" and "f > 0"
  shows "represents pb f (v(inode_key f p \<mapsto> EncodeInodeValue pb a)) (s\<lparr>inodes := (inodes s)(p \<mapsto> a)\<rparr>)"
  using rep_put_inode [OF assms(1) [unfolded represents_def], of p a] by (simp add: represents_def assms)

context kv_txn
begin

text \<open>One operation: the store and the pending attributes of the shared inode follow the specification.\<close>

lemma RunInBatch_refines:
  assumes "inv t" and f: "f > 0" and w: "op_wf p x"
    and pend: "represents pb f ((view t)(inode_key f p \<mapsto> EncodeInodeValue pb pa)) s"
    and pa: "inodes s p = Some pa" "at_fs_id pa = f" "at_ino pa = p"
  shows "returns (RunInBatch pb T x pa t) (\<lambda>(r, pa', delta, t'). inv t'
    \<and> inodes (spec_in_batch p x s) p = Some pa' \<and> at_fs_id pa' = f \<and> at_ino pa' = p
    \<and> represents pb f ((view t')(inode_key f p \<mapsto> EncodeInodeValue pb pa')) (spec_in_batch p x s))"
proof -
  note up = represents_update [OF pend f]
  have upd: ?thesis if "RunInBatch pb T x pa t = Some (r, pa', delta, t)" "same_inode pa' pa"
    "spec_in_batch p x s = s\<lparr>inodes := (inodes s)(p \<mapsto> pa')\<rparr>" for r pa' delta
    using that up [of pa'] pa assms(1) by (simp add: same_inode_def)
  note cr = create_refines [OF assms(1) f pend pa(2,3)]
  have create: ?thesis if "RunInBatch pb T x pa t = map_option (\<lambda>(r, pa', t'). (r, pa', 0, t')) m"
    "spec_in_batch p x s = s'"
    "returns m (\<lambda>(r, pa', t'). r = OK \<and> inv t' \<and> at_fs_id pa' = f \<and> at_ino pa' = p
      \<and> inodes s' p = Some pa' \<and> represents pb f ((view t')(inode_key f p \<mapsto> EncodeInodeValue pb pa')) s')" for m s'
    using that by (auto simp: returns_def)
  show ?thesis
  proof (cases x)
    case (MkDirOperation time d a)
    show ?thesis by (rule create [OF _ _ cr(1) [where d = d and time_ns = time and a = a]]) (use MkDirOperation w pa in simp_all)
  next
    case (MkNodOperation time d a)
    show ?thesis by (rule create [OF _ _ cr(2) [where d = d and time_ns = time and a = a]]) (use MkNodOperation w pa in simp_all)
  next
    case (SmyLinkOperation time d a)
    show ?thesis by (rule create [OF _ _ cr(3) [where d = d and time_ns = time and a = a]]) (use SmyLinkOperation w pa in simp_all)
  next
    case (UpdateAttrOperation i ts a)
    show ?thesis
      by (rule upd [of OK "snd (UpdateAttrOperation_RunInBatch ts a pa)" 0])
        (use UpdateAttrOperation pa in \<open>simp_all add: case_prod_unfold, simp add: UpdateAttrOperation_RunInBatch_def Let_def\<close>)
  next
    case (UpdateXAttrOperation time i j xs)
    show ?thesis
      by (rule upd [of OK "snd (UpdateXAttrOperation_RunInBatch time xs pa)" 0])
        (use UpdateXAttrOperation pa in \<open>simp_all add: case_prod_unfold, simp add: UpdateXAttrOperation_RunInBatch_def\<close>)
  next
    case (UpdateChunkOperation time info i index sls)
    show ?thesis
      by (rule upd [of OK "fst (snd (UpdateChunkOperation_RunInBatch info time index sls pa))"
            "snd (snd (UpdateChunkOperation_RunInBatch info time index sls pa))"])
        (use UpdateChunkOperation pa in \<open>simp_all add: case_prod_unfold, simp add: UpdateChunkOperation_RunInBatch_def Let_def\<close>)
  qed (use w in \<open>simp_all add: IsSetAttrType_def\<close>)
qed

lemma run_in_batch_refines:
  assumes "inv t" and f: "f > 0" and "\<forall>x \<in> set ops. op_wf p x"
    and "represents pb f ((view t)(inode_key f p \<mapsto> EncodeInodeValue pb pa)) s"
    and "inodes s p = Some pa" "at_fs_id pa = f" "at_ino pa = p"
  shows "returns (run_in_batch pb T ops pa t) (\<lambda>(pa', deltas, t'). inv t' \<and> length deltas = length ops
    \<and> inodes (fold (spec_in_batch p) ops s) p = Some pa' \<and> at_fs_id pa' = f \<and> at_ino pa' = p
    \<and> represents pb f ((view t')(inode_key f p \<mapsto> EncodeInodeValue pb pa')) (fold (spec_in_batch p) ops s))"
  using assms
proof (induction ops arbitrary: t pa s)
  case (Cons x ops)
  have w: "op_wf p x" using Cons.prems(3) by simp
  from RunInBatch_refines [OF Cons.prems(1,2) w Cons.prems(4-7)]
  obtain r pa1 delta t1 where x: "RunInBatch pb T x pa t = Some (r, pa1, delta, t1)" and "inv t1"
      "represents pb f ((view t1)(inode_key f p \<mapsto> EncodeInodeValue pb pa1)) (spec_in_batch p x s)"
      "inodes (spec_in_batch p x s) p = Some pa1" "at_fs_id pa1 = f" "at_ino pa1 = p"
    by (auto simp: returns_def)
  moreover have "\<forall>x \<in> set ops. op_wf p x" using Cons.prems(3) by simp
  ultimately have "returns (run_in_batch pb T ops pa1 t1) (\<lambda>(pa', deltas, t'). inv t' \<and> length deltas = length ops
    \<and> inodes (fold (spec_in_batch p) (x # ops) s) p = Some pa' \<and> at_fs_id pa' = f \<and> at_ino pa' = p
    \<and> represents pb f ((view t')(inode_key f p \<mapsto> EncodeInodeValue pb pa')) (fold (spec_in_batch p) (x # ops) s))"
    using Cons.IH [of t1 pa1 "spec_in_batch p x s"] f by (simp only: fold_simps)
  then show ?case
    unfolding run_in_batch.simps x by (auto simp: returns_def simp del: fun_upd_apply)
qed simp

end

subsection \<open>Reachable file systems\<close>

text \<open>The operations that the file system accepts, one after the other: fresh names, link counts untouched.\<close>

fun op_guard :: "u32 \<Rightarrow> u64 \<Rightarrow> Operation \<Rightarrow> ns \<Rightarrow> bool" where
  "op_guard f p (MkDirOperation _ d a) s \<longleftrightarrow> create_guard f d a (the (inodes s p)) s"
| "op_guard f p (MkNodOperation _ d a) s \<longleftrightarrow> create_guard f d a (the (inodes s p)) s"
| "op_guard f p (SmyLinkOperation _ d a) s \<longleftrightarrow> create_guard f d a (the (inodes s p)) s"
| "op_guard f p (UpdateAttrOperation _ to_set a) s \<longleftrightarrow> to_set AND kSetAttrNlink = 0"
| "op_guard f p _ s \<longleftrightarrow> True"

fun ops_guard :: "u32 \<Rightarrow> u64 \<Rightarrow> Operation list \<Rightarrow> ns \<Rightarrow> bool" where
  "ops_guard f p [] s \<longleftrightarrow> True"
| "ops_guard f p (x # ops) s \<longleftrightarrow> op_wf p x \<and> op_guard f p x s \<and> ops_guard f p ops (spec_in_batch p x s)"

definition batch_guard :: "u32 \<Rightarrow> BatchOperation \<Rightarrow> ns \<Rightarrow> bool" where
  "batch_guard f batch s \<longleftrightarrow> bo_fs_id batch = f \<and> inodes s (bo_ino batch) \<noteq> None
     \<and> ops_guard f (bo_ino batch) (setattr_operations batch @ create_operations batch) s"

lemma update_nlink [simp]:
  "to_set AND kSetAttrNlink = 0 \<Longrightarrow> at_nlink (snd (UpdateAttrOperation_RunInBatch to_set a attr)) = at_nlink attr"
  "at_nlink (snd (UpdateXAttrOperation_RunInBatch time xattrs attr)) = at_nlink attr"
  "at_nlink (fst (snd (UpdateChunkOperation_RunInBatch info time index slices attr))) = at_nlink attr"
  by (simp_all add: UpdateAttrOperation_RunInBatch_def set_if_def
      UpdateXAttrOperation_RunInBatch_def UpdateChunkOperation_RunInBatch_def Let_def)

lemma spec_in_batch_some: "op_wf p x \<Longrightarrow> inodes s p \<noteq> None \<Longrightarrow> inodes (spec_in_batch p x s) p \<noteq> None"
  by (cases x) (auto simp: spec_create_def)

lemma ns_reach_in_batch:
  assumes "ns_reach f s" and "op_wf p x" and "op_guard f p x s" and p: "inodes s p \<noteq> None"
  shows "ns_reach f (spec_in_batch p x s)"
proof -
  obtain pa where pa: "inodes s p = Some pa" using p by blast
  note up = ns_reach.update [OF assms(1) pa]
  show ?thesis
    by (cases x) (use assms pa up in \<open>auto intro: ns_reach.create\<close>)
qed

lemma ns_reach_ops:
  assumes "ns_reach f s" and "ops_guard f p ops s" and "inodes s p \<noteq> None"
  shows "ns_reach f (fold (spec_in_batch p) ops s) \<and> inodes (fold (spec_in_batch p) ops s) p \<noteq> None"
  using assms
proof (induction ops arbitrary: s)
  case (Cons x ops)
  then show ?case using ns_reach_in_batch [of f s p x] spec_in_batch_some [of p x s] by simp
qed simp

lemma ns_reach_batch:
  assumes "ns_reach f s" and "batch_guard f batch s"
  shows "ns_reach f (spec_batch batch s)"
proof -
  let ?s = "fold (spec_in_batch (bo_ino batch)) (setattr_operations batch @ create_operations batch) s"
  have r: "ns_reach f ?s" "inodes ?s (bo_ino batch) \<noteq> None"
    using ns_reach_ops [OF assms(1)] assms(2) unfolding batch_guard_def by blast+
  then obtain a where a: "inodes ?s (bo_ino batch) = Some a" by blast
  have "same_inode (bump a) a" "at_nlink (bump a) = at_nlink a" by (simp_all add: bump_def same_inode_def)
  from ns_reach.update [OF r(1) a this] show ?thesis
    unfolding spec_batch_def Let_def a by simp
qed

lemma ops_guard_wf: "ops_guard f p ops s \<Longrightarrow> x \<in> set ops \<Longrightarrow> op_wf p x"
  by (induction ops arbitrary: s) auto

lemma batch_guard_wf: "batch_guard f batch s \<Longrightarrow> batch_wf batch"
  using ops_guard_wf unfolding batch_guard_def batch_wf_def by blast

subsection \<open>The execution of a batch\<close>

text \<open>
  What \<^verbatim>\<open>ExecuteBatchOperation\<close> reports and leaves in the store: on success every operation has the new
  attributes and the store is that of the specification; otherwise every operation has the error.
\<close>

definition batch_done ::
    "'v pb \<Rightarrow> BatchOperation \<Rightarrow> ns \<Rightarrow> (bytes \<rightharpoonup> 'v) \<Rightarrow> Result list \<Rightarrow> (bytes \<rightharpoonup> 'v) \<Rightarrow> bool" where
  "batch_done pb batch s d results d' \<longleftrightarrow>
     length results = length (setattr_operations batch @ create_operations batch) \<and>
     (\<exists>st. (\<forall>r \<in> set results. res_status r = st) \<and>
       (if st = OK then represents pb (bo_fs_id batch) d' (spec_batch batch s)
          \<and> (\<forall>r \<in> set results. Some (res_attr r) = inodes (spec_batch batch s) (bo_ino batch))
        else d' = d \<or> represents pb (bo_fs_id batch) d' (spec_batch batch s)))"

context si_contract
begin

text \<open>The body of an attempt, up to the commit.\<close>

lemma batch_body:
  fixes batch :: BatchOperation
  defines "f \<equiv> bo_fs_id batch" and "p \<equiv> bo_ino batch" and "T \<equiv> DingodbTxn sdk"
  assumes f: "f > 0" and pb: "pb_ok pb" and rep: "represents pb f d s" and w: "batch_wf batch"
    and pa: "inodes s p = Some pa" "at_fs_id pa = f" "at_ino pa = p"
    and t: "in_txn S d (sdk_txn t)" "si_view S (sdk_txn t) = d"
  shows "returns (do {
      (attr, deltas1, t) \<leftarrow> run_in_batch pb T (setattr_operations batch) pa t;
      (attr, deltas2, t) \<leftarrow> run_in_batch pb T (create_operations batch) attr t;
      let attr = attr\<lparr>at_version := at_version attr + 1\<rparr>;
      t \<leftarrow> tx_put T (inode_key f p) (EncodeInodeValue pb attr) t;
      Some (attr, deltas1 @ deltas2, t)})
    (\<lambda>(attr, deltas, t'). in_txn S d (sdk_txn t') \<and> inodes (spec_batch batch s) p = Some attr
      \<and> length deltas = length (setattr_operations batch @ create_operations batch)
      \<and> represents pb f (si_view S (sdk_txn t')) (spec_batch batch s))"
proof -
  note run = kv_txn.run_in_batch_refines [OF in_txn_kv1, where f = f and p = p and pb = pb, folded T_def]
  let ?A = "setattr_operations batch" and ?B = "create_operations batch"
  let ?s1 = "fold (spec_in_batch p) ?A s" and ?s2 = "fold (spec_in_batch p) (?A @ ?B) s"
  have wA: "\<forall>x \<in> set ?A. op_wf p x" and wB: "\<forall>x \<in> set ?B. op_wf p x"
    using w by (auto simp: batch_wf_def p_def)
  have "d (inode_key f p) = Some (EncodeInodeValue pb pa)"
    using represents_inodeD [OF rep] pa(1) by simp
  then have "represents pb f ((si_view S (sdk_txn t))(inode_key f p \<mapsto> EncodeInodeValue pb pa)) s"
    using rep t(2) by (simp add: fun_upd_idem)
  from run [OF t(1) f wA this pa]
  obtain a1 ds1 t1 where 1: "run_in_batch pb T ?A pa t = Some (a1, ds1, t1)"
      "in_txn S d (sdk_txn t1)" "length ds1 = length ?A"
    and r1: "represents pb f ((si_view S (sdk_txn t1))(inode_key f p \<mapsto> EncodeInodeValue pb a1)) ?s1"
      "inodes ?s1 p = Some a1" "at_fs_id a1 = f" "at_ino a1 = p"
    by (auto simp: returns_def)
  from run [OF 1(2) f wB r1]
  obtain a2 ds2 t2 where 2: "run_in_batch pb T ?B a1 t1 = Some (a2, ds2, t2)"
      "in_txn S d (sdk_txn t2)" "length ds2 = length ?B"
    and r2: "represents pb f ((si_view S (sdk_txn t2))(inode_key f p \<mapsto> EncodeInodeValue pb a2)) ?s2"
      "inodes ?s2 p = Some a2"
    by (auto simp: returns_def)
  have s: "spec_batch batch s = ?s2\<lparr>inodes := (inodes ?s2)(p \<mapsto> bump a2)\<rparr>"
    unfolding spec_batch_def Let_def p_def [symmetric] r2(2) by simp
  obtain t3 where 3: "Put T (inode_key f p) (EncodeInodeValue pb (bump a2)) t2 = Some (OK, t3)"
      "in_txn S d (sdk_txn t3)"
      "si_view S (sdk_txn t3) = (si_view S (sdk_txn t2))(inode_key f p \<mapsto> EncodeInodeValue pb (bump a2))"
    using kv_txn.put_law [OF in_txn_kv1 2(2), folded T_def] by blast
  have "represents pb f (si_view S (sdk_txn t3)) (spec_batch batch s)"
    unfolding s 3(3) by (rule represents_update [OF r2(1) f])
  moreover have "inodes (spec_batch batch s) p = Some (bump a2)" by (simp add: s)
  ultimately show ?thesis
    using 1 2 3(1,2) by (simp add: tx_put_def bump_def Let_def)
qed

text \<open>An attempt with the store to itself.\<close>

lemma batch_attempt_idle:
  fixes batch :: BatchOperation
  defines "f \<equiv> bo_fs_id batch" and "p \<equiv> bo_ino batch"
  assumes f: "f > 0" and pb: "pb_ok pb" and rep: "represents pb f (si_db S c) s" and w: "batch_wf batch"
    and pa: "inodes s p = Some pa" "at_fs_id pa = f" "at_ino pa = p" and c: "si_client S c"
  shows "returns (batch_attempt pb sdk (\<lambda>_ c. c) (inode_key f p) batch r x c) (\<lambda>(again, st, (attr, deltas), c').
    si_client S c' \<and> (again \<longrightarrow> si_db S c' = si_db S c)
    \<and> length deltas = length (setattr_operations batch @ create_operations batch)
    \<and> (if st = OK then represents pb f (si_db S c') (spec_batch batch s) \<and> inodes (spec_batch batch s) p = Some attr
       else si_db S c' = si_db S c \<or> represents pb f (si_db S c') (spec_batch batch s)))"
proof -
  let ?d = "si_db S c"
  obtain t where t: "DingodbStorage_NewTxn sdk c = Some t" "in_txn S ?d (sdk_txn t)" "si_view S (sdk_txn t) = ?d"
    using new_txn [OF c] by blast
  from batch_body [OF f [unfolded f_def] pb rep [unfolded f_def] w pa [unfolded f_def p_def] t(2,3)]
  obtain a1 ds1 t1 a2 ds2 t2 t3 where
    b: "run_in_batch pb (DingodbTxn sdk) (setattr_operations batch) pa t = Some (a1, ds1, t1)"
      "run_in_batch pb (DingodbTxn sdk) (create_operations batch) a1 t1 = Some (a2, ds2, t2)"
      "tx_put (DingodbTxn sdk) (inode_key f p) (EncodeInodeValue pb (a2\<lparr>at_version := at_version a2 + 1\<rparr>)) t2 = Some t3"
    and i: "in_txn S ?d (sdk_txn t3)" "inodes (spec_batch batch s) p = Some (a2\<lparr>at_version := at_version a2 + 1\<rparr>)"
      "length (ds1 @ ds2) = length (setattr_operations batch @ create_operations batch)"
      "represents pb f (si_view S (sdk_txn t3)) (spec_batch batch s)"
    unfolding f_def p_def by (auto simp: returns_def bind_eq_Some_conv Let_def)
  obtain st t4 where t4: "Commit (DingodbTxn sdk) t3 = (st, t4)" by (cases "Commit (DingodbTxn sdk) t3")
  have "si_db S (sdk_txn t3) = ?d" using i(1) by (simp add: in_txn_def)
  with commit_env [OF i(1) isolated_idle, of st t4] t4
  have e: "si_client S (sdk_txn t4)" "st = OK \<Longrightarrow> si_db S (sdk_txn t4) = si_view S (sdk_txn t3)"
    "st = ESTORE_MAYBE_RETRY \<Longrightarrow> si_db S (sdk_txn t4) = ?d"
    "si_db S (sdk_txn t4) = ?d \<or> si_db S (sdk_txn t4) = si_view S (sdk_txn t3)"
    by auto
  have "Get (DingodbTxn sdk) (inode_key f p) t = Inr (EncodeInodeValue pb pa)"
    using kv_txn.get_law [OF in_txn_kv1 t(2)] represents_inodeD [OF rep] pa(1) by (simp add: t(3))
  moreover have "DecodeInodeValue pb (EncodeInodeValue pb pa) = Some pa" using pb_ok_simps(1) [OF pb] by simp
  ultimately show ?thesis
    using t(1) b i e t4 by (auto simp: batch_attempt_def)
qed

lemma execute_idle:
  fixes batch :: BatchOperation
  assumes f: "bo_fs_id batch > 0" and pb: "pb_ok pb" and rep: "represents pb (bo_fs_id batch) (si_db S c) s"
    and w: "batch_wf batch" and c: "si_client S c"
    and pa: "inodes s (bo_ino batch) = Some pa" "at_fs_id pa = bo_fs_id batch" "at_ino pa = bo_ino batch"
  shows "returns (ExecuteBatchOperation pb sdk (\<lambda>_ c. c) batch c) (\<lambda>(results, c').
    si_client S c' \<and> batch_done pb batch s (si_db S c) results (si_db S c'))"
proof -
  let ?ops = "setattr_operations batch @ create_operations batch" and ?s = "spec_batch batch s"
  let ?P = "\<lambda>(r :: nat) (x :: AttrType \<times> u64 list) c'. si_client S c' \<and> si_db S c' = si_db S c"
  let ?Q = "\<lambda>st (x :: AttrType \<times> u64 list) c'. si_client S c' \<and> length (snd x) = length ?ops
    \<and> (if st = OK then represents pb (bo_fs_id batch) (si_db S c') ?s \<and> inodes ?s (bo_ino batch) = Some (fst x)
       else si_db S c' = si_db S c \<or> represents pb (bo_fs_id batch) (si_db S c') ?s)"
  let ?key = "inode_key (bo_fs_id batch) (bo_ino batch)"
  have "returns (txn_loop (batch_attempt pb sdk (\<lambda>_ c. c) ?key batch) FLAGS_txn_max_retry_times 0
      (default_attr, map (\<lambda>_. 0) ?ops) c) (\<lambda>(st, x, c'). ?Q st x c')"
  proof (rule txn_loop_returns [where P = ?P and Q = ?Q])
    fix r x c'
    assume "?P r x c'"
    then have c': "si_client S c'" "si_db S c' = si_db S c" by simp_all
    show "returns (batch_attempt pb sdk (\<lambda>_ c. c) ?key batch r x c')
        (\<lambda>(again, st, x', c'). (again \<longrightarrow> ?P (Suc r) x' c') \<and> ?Q st x' c')"
      by (rule returns_mono [OF batch_attempt_idle [OF f pb rep [folded c'(2)] w pa c'(1)]])
        (auto simp: c'(2) split: if_splits)
  qed (use c in simp)
  then show ?thesis
    by (auto simp: ExecuteBatchOperation_def returns_def EncodeInodeKey_eq f batch_done_def SetAttr_def
        SetError_def split: if_splits)
qed

end

end
