(* ===== verification/ProcProps.thy ===== *)
theory ProcProps
  imports Batch NsProps
begin

text \<open>
  What the operation processor guarantees: every accepted operation is handed to a worker, a run
  ends after at most five attempts, what the operations leave in the store is a sound file system,
  and which concurrent operations exclude each other.
\<close>

subsection \<open>Operations that run alone\<close>

text \<open>The namespace operations that a file system accepts, with their effect.\<close>

inductive alone_step :: "u32 \<Rightarrow> ns \<Rightarrow> Operation \<Rightarrow> ns \<Rightarrow> bool" for f where
  link: "link_guard f d a pa s \<Longrightarrow> alone_step f s (HardLinkOperation time d) (spec_hard_link time d a s)"
| unlink: "unlink_guard f d a pa s \<Longrightarrow> alone_step f s (UnlinkOperation time d) (spec_unlink time d pa a s)"
| rmdir: "rmdir_guard f d pa s \<Longrightarrow> d_parent d \<noteq> d_ino d \<Longrightarrow> d_ino d \<noteq> - 1 \<Longrightarrow>
    alone_step f s (RmDirOperation time d) (spec_rmdir time d pa s)"
| rename: "rename_guard s op on np nn d oa opa npa eo \<Longrightarrow>
    alone_step f s (RenameOperation time f op on np nn) (spec_rename time f op on np nn d oa opa npa eo s)"

lemma alone_step_reach: "ns_reach f s \<Longrightarrow> alone_step f s x s' \<Longrightarrow> ns_reach f s'"
  by (erule alone_step.cases) (auto intro: ns_reach.intros)

lemma status_of_returns:
  "returns (status_of m) Q \<longleftrightarrow> returns m (\<lambda>(r, t). Q (case r of Inl st \<Rightarrow> st | Inr _ \<Rightarrow> OK, t))"
  by (cases m) (auto simp: status_of_def split: sum.splits)

context kv_scan_txn
begin

lemma Run_refines:
  assumes "inv t" and "pb_ok pb" and "f > 0" and "represents pb f (view t) s" and ok: "ns_ok f s"
    and "alone_step f s x s'"
  shows "returns (Run pb T x t) (\<lambda>(st, t'). inv t' \<and> st = OK \<and> represents pb f (view t') s')"
  using assms(6)
proof cases
  case (link d a pa time)
  note g = link_guardD [OF link(3)]
  show ?thesis
    using hard_link_refines [OF assms(1-4) g(1-3), of time] g(4,5) link(1,2)
    by (auto simp: status_of_returns elim!: returns_mono)
next
  case (unlink d a pa time)
  note g = unlink_guardD [OF unlink(3) ok]
  show ?thesis
    using unlink_refines [OF assms(1-4) g(1-3), of time] g(4,5) unlink(1,2)
    by (auto simp: status_of_returns elim!: returns_mono)
next
  case (rmdir d pa time)
  have d: "d_fs_id d = f" "d_name d \<noteq> []" "inodes s (d_ino d) \<noteq> None"
    using rmdir(3) ns_ok_names(1,5) [OF ok, of "d_parent d" "d_name d"] by (auto simp: rmdir_guard_def)
  show ?thesis
    using rmdir_refines [OF assms(1-4) d(1) rmdir(4) d(2) rmdir(5) d(3), of time] rmdir(1-3)
    by (auto simp: status_of_returns rmdir_guard_def elim!: returns_mono)
next
  case (rename op on np nn d oa opa npa eo time)
  have pre: "rename_pre s op on np nn d oa opa npa eo"
    and ne: "\<not> (\<exists>e ea. eo = Some (e, ea) \<and> de_type e = DIRECTORY \<and> \<not> dir_empty s (de_ino e))"
    using rename(3) by (auto simp: rename_guard_def)
  show ?thesis
    using rename_refines [OF assms(1-4) pre, of time] rename(1,2)
    unfolding if_not_P [OF ne] by (auto simp: status_of_returns elim!: returns_mono)
qed

end

text \<open>The store determines the file system it holds.\<close>

lemma map_option_enc_eq:
  assumes "map_option enc x = map_option enc y" and "\<And>a. dec (enc a) = Some a"
  shows "x = y"
  using assms by (cases x; cases y) (auto, metis option.inject)

lemma represents_unique:
  assumes pb: "pb_ok pb" and "represents pb f v s" and "represents pb f v s'"
  shows "s = s'"
proof -
  have "inodes s i = inodes s' i" for i
    by (rule map_option_enc_eq [of "EncodeInodeValue pb" _ _ "DecodeInodeValue pb"])
      (use assms in \<open>auto simp: represents_def rep_def pb_ok_simps\<close>)
  moreover have "dents s (p, n) = dents s' (p, n)" for p n
    by (rule map_option_enc_eq [of "EncodeDentryValue pb" _ _ "DecodeDentryValue pb"])
      (use assms in \<open>cases "n = []"; simp add: represents_def rep_def pb_ok_simps\<close>,
        simp add: pb_ok_simps [OF pb])
  moreover have "delfiles s i = delfiles s' i" for i
    by (rule map_option_enc_eq [of "EncodeDelFileValue pb" _ _ "DecodeDelFileValue pb"])
      (use assms in \<open>auto simp: represents_def rep_def pb_ok_simps\<close>)
  ultimately show ?thesis by (cases s, cases s') auto
qed

subsection \<open>A server on its own store\<close>

text \<open>
  The states of the store that the processor reaches with accepted operations, from an empty store:
  the root, then runs of single operations and executions of batches, whatever status they end with.
\<close>

inductive served ::
    "'v pb \<Rightarrow> ('c, 'v) Sdk \<Rightarrow> ('c, 'v) Si \<Rightarrow> u32 \<Rightarrow> 'c \<Rightarrow> bool" for pb sdk S f where
  root: "si_client S c \<Longrightarrow> si_db S c = Map.empty \<Longrightarrow> root_attr_ok f d a \<Longrightarrow>
    RunAlone pb sdk (\<lambda>_ c. c) (CreateRootOperation g d a) c = Some (OK, c') \<Longrightarrow> served pb sdk S f c'"
| alone: "served pb sdk S f c \<Longrightarrow> represents pb f (si_db S c) s \<Longrightarrow> alone_step f s x s' \<Longrightarrow>
    RunAlone pb sdk (\<lambda>_ c. c) x c = Some (st, c') \<Longrightarrow> served pb sdk S f c'"
| batch: "served pb sdk S f c \<Longrightarrow> represents pb f (si_db S c) s \<Longrightarrow> batch_guard f b s \<Longrightarrow>
    ExecuteBatchOperation pb sdk (\<lambda>_ c. c) b c = Some (results, c') \<Longrightarrow> served pb sdk S f c'"

context si_contract
begin

lemma served_reach:
  assumes pb: "pb_ok pb" and f: "f > 0" and "served pb sdk S f c"
  shows "si_client S c \<and> (\<exists>s. represents pb f (si_db S c) s \<and> ns_reach f s)"
  using assms(3)
proof (induction rule: served.induct)
  case (root c d a g c')
  have a: "at_fs_id a = f" "d_name d \<noteq> []" using root(3) by (simp_all add: root_attr_ok_def)
  have e: "represents pb f (si_db S c) ns_empty"
    by (simp add: represents_def rep_def store_wf_def root(2) ns_empty_def)
  have run: "returns (Run pb (DingodbTxn sdk) (CreateRootOperation g d a) t) (\<lambda>(st, t').
      in_txn S (si_db S c) (sdk_txn t') \<and>
      st = OK \<and> represents pb f (si_view S (sdk_txn t')) (spec_create_root d a ns_empty))"
    if "in_txn S (si_db S c) (sdk_txn t)" "si_view S (sdk_txn t) = si_db S c" for t
    using kv_txn.create_root_refines [OF in_txn_kv1 that(1) f _ a, of pb ns_empty] e that(2)
    by (auto simp: status_of_returns elim!: returns_mono)
  have "returns (RunAlone pb sdk (\<lambda>_ c. c) (CreateRootOperation g d a) c) (\<lambda>(st, c'). si_client S c' \<and>
    (if st = OK then OK = OK \<and> represents pb f (si_db S c') (spec_create_root d a ns_empty)
     else si_db S c' = si_db S c \<or> OK = OK \<and> represents pb f (si_db S c') (spec_create_root d a ns_empty)))"
    by (rule alone_idle [OF root(1) run])
  then show ?case
    using root(4) ns_reach.root [OF root(3)] by (auto simp: returns_def)
next
  case (alone c s x s' st c')
  then have c: "si_client S c" and r: "ns_reach f s" using represents_unique [OF pb] by blast+
  have "returns (RunAlone pb sdk (\<lambda>_ c. c) x c) (\<lambda>(st, c'). si_client S c' \<and>
    (if st = OK then OK = OK \<and> represents pb f (si_db S c') s'
     else si_db S c' = si_db S c \<or> OK = OK \<and> represents pb f (si_db S c') s'))"
    by (rule alone_idle [OF c])
      (use kv_scan_txn.Run_refines [OF in_txn_kv _ pb f _ ns_reach_ok [OF r] alone(3)] alone(2) in
        \<open>auto elim!: returns_mono\<close>)
  then show ?case
    using alone(2,4) r alone_step_reach [OF r alone(3)] by (auto simp: returns_def split: if_splits)
next
  case (batch c s b results c')
  then have c: "si_client S c" and r: "ns_reach f s" using represents_unique [OF pb] by blast+
  have b: "bo_fs_id b = f" using batch(3) by (simp add: batch_guard_def)
  obtain pa where pa: "inodes s (bo_ino b) = Some pa" using batch(3) by (auto simp: batch_guard_def)
  have "at_fs_id pa = f" "at_ino pa = bo_ino b"
    using ns_reach_ok [OF r] pa by (auto simp: ns_ok_def fs_ok_def inode_ok_def)
  then have "returns (ExecuteBatchOperation pb sdk (\<lambda>_ c. c) b c) (\<lambda>(results, c').
      si_client S c' \<and> batch_done pb b s (si_db S c) results (si_db S c'))"
    using execute_idle [of b pb c s pa] pb f batch(2) batch_guard_wf [OF batch(3)] c pa b by simp
  then show ?case
    using batch(2,4) r ns_reach_batch [OF r batch(3)] b
    by (auto simp: returns_def batch_done_def split: if_splits)
qed

end

subsection \<open>Races\<close>

context si_contract
begin

text \<open>An attempt whose write set others have touched is undone and repeated.\<close>

lemma alone_attempt_conflict:
  assumes c: "si_client S c" and iso: "isolated S env"
    and run: "\<And>t. in_txn S (si_db S c) (sdk_txn t) \<Longrightarrow> si_view S (sdk_txn t) = si_db S c \<Longrightarrow>
      returns (run t) (\<lambda>(st, t'). in_txn S (si_db S c) (sdk_txn t') \<and> st = OK
        \<and> si_view S (sdk_txn t') k \<noteq> si_db S c k)"
    and env: "\<And>e. si_open S e \<Longrightarrow> si_client S e \<Longrightarrow> si_db S e = si_db S c \<Longrightarrow>
      si_db S (env r e) k \<noteq> si_db S c k \<and> P (si_db S (env r e))"
  shows "\<exists>c'. alone_attempt sdk env run r () c = Some (True, ESTORE_MAYBE_RETRY, (), c')
    \<and> si_client S c' \<and> P (si_db S c')"
proof -
  let ?d = "si_db S c"
  obtain t where t: "DingodbStorage_NewTxn sdk c = Some t" "in_txn S ?d (sdk_txn t)" "si_view S (sdk_txn t) = ?d"
    using new_txn [OF c] by blast
  obtain t1 where t1: "run t = Some (OK, t1)" "in_txn S ?d (sdk_txn t1)" "si_view S (sdk_txn t1) k \<noteq> ?d k"
    using run [OF t(2,3)] by (auto simp: returns_def)
  have e: "si_open S (sdk_txn t1)" "si_client S (sdk_txn t1)" "si_db S (sdk_txn t1) = ?d"
    using t1(2) by (simp_all add: in_txn_def)
  obtain st t2 where c2: "Commit (DingodbTxn sdk) (t1\<lparr>sdk_txn := env r (sdk_txn t1)\<rparr>) = (st, t2)"
    by (cases "Commit (DingodbTxn sdk) (t1\<lparr>sdk_txn := env r (sdk_txn t1)\<rparr>)")
  note cc = commit_env [OF t1(2) iso c2]
  have "st = ESTORE_MAYBE_RETRY" using cc(5) [OF t1(3)] env [OF e] by blast
  then show ?thesis
    using t(1) t1(1) c2 cc(1,3) env [OF e] by (auto simp: alone_attempt_def)
qed

text \<open>An attempt that reads an error ends the run; its transaction is dropped.\<close>

lemma alone_attempt_error:
  assumes c: "si_client S c" and iso: "isolated S env" and "st \<noteq> OK"
    and run: "\<And>t. in_txn S (si_db S c) (sdk_txn t) \<Longrightarrow> si_view S (sdk_txn t) = si_db S c \<Longrightarrow>
      returns (run t) (\<lambda>(st', t'). in_txn S (si_db S c) (sdk_txn t') \<and> st' = st)"
    and env: "\<And>e. si_open S e \<Longrightarrow> si_client S e \<Longrightarrow> si_db S e = si_db S c \<Longrightarrow> P (si_db S (env r e))"
  shows "\<exists>c'. alone_attempt sdk env run r () c = Some (False, st, (), c') \<and> si_client S c' \<and> P (si_db S c')"
proof -
  let ?d = "si_db S c"
  obtain t where t: "DingodbStorage_NewTxn sdk c = Some t" "in_txn S ?d (sdk_txn t)" "si_view S (sdk_txn t) = ?d"
    using new_txn [OF c] by blast
  obtain t1 where t1: "run t = Some (st, t1)" "in_txn S ?d (sdk_txn t1)"
    using run [OF t(2,3)] by (auto simp: returns_def)
  have e: "si_open S (sdk_txn t1)" "si_client S (sdk_txn t1)" "si_db S (sdk_txn t1) = ?d"
    using t1(2) by (simp_all add: in_txn_def)
  show ?thesis
    using t(1) t1(1) \<open>st \<noteq> OK\<close> isolatedD(2) [OF iso e(1,2)] env [OF e] by (auto simp: alone_attempt_def)
qed

end

lemma txn_loop_retry_once:
  assumes "attempt 0 x c = Some (True, st, x1, c1)" and "attempt 1 x1 c1 = Some (False, st', x2, c2)"
  shows "txn_loop attempt FLAGS_txn_max_retry_times 0 x c = Some (st', x2, c2)"
  using assms by (simp add: txn_loop.simps [of attempt] FLAGS_txn_max_retry_times_def)

text \<open>The effect of one create in the directory \<open>i\<close>, as a batch commits it.\<close>

lemma spec_create_in_dir:
  fixes f :: u32
  assumes "IsCreateType x" and "op_wf i x" and "inodes s i = Some a"
  defines "s1 \<equiv> spec_batch \<lparr>bo_fs_id = f, bo_ino = i, setattr_operations = [], create_operations = [x]\<rparr> s"
  shows "\<not> dir_empty s1 i" and "\<exists>a1. inodes s1 i = Some a1 \<and> a1 \<noteq> a"
proof -
  obtain time d y where d: "spec_in_batch i x s = spec_create time d y a s" "d_parent d = i" "d_ino d \<noteq> i"
    using assms(1-3) by (cases x) (auto simp: IsCreateType_def)
  have s1: "s1 = (spec_create time d y a s)\<lparr>inodes := (inodes (spec_create time d y a s))
      (i \<mapsto> bump (the (inodes (spec_create time d y a s) i)))\<rparr>"
    by (simp add: s1_def spec_batch_def d(1) Let_def)
  show "\<not> dir_empty s1 i" using d by (auto simp: s1 dir_empty_def spec_create_def)
  have "at_version (bump (the (inodes (spec_create time d y a s) i))) \<noteq> at_version a"
    using d by (simp add: spec_create_def bump_def touch_def)
  then show "\<exists>a1. inodes s1 i = Some a1 \<and> a1 \<noteq> a" by (auto simp: s1)
qed

subsection \<open>Properties\<close>


definition ex_mv0 :: "val mv_client" where
  "ex_mv0 = \<lparr>mv_db = [], mv_base = [], mv_work = [], mv_writes = []\<rparr>"

lemmas mv_run_defs = RunAlone_def alone_attempt_def DingodbStorage_NewTxn_def NewSdkTxn_def DingodbTxn_def
  DingodbTxn_Commit_def DingodbTxn_Put_def DingodbTxn_Delete_def DingodbTxn_write_def mv_sdk_def
  sdk_success_def sdk_write_conflict_def tx_put_def tx_delete_def status_of_def Let_def


text \<open>C21: a batch is atomic and acts as its operations in order, those on attributes before the
  creates. Run without contention it answers; with status OK the store holds the file system after all of
  them and every operation gets the attributes of the shared inode; with an error all operations get it.\<close>

theorem execute_batch_correct:
  assumes "si_contract sdk S" and "pb_ok pb" and "bo_fs_id batch > 0" and "si_client S c"
    and "represents pb (bo_fs_id batch) (si_db S c) s" and "batch_wf batch"
    and "inodes s (bo_ino batch) = Some pa" and "at_fs_id pa = bo_fs_id batch" and "at_ino pa = bo_ino batch"
  shows "\<exists>results c'. ExecuteBatchOperation pb sdk (\<lambda>_ c. c) batch c = Some (results, c')
           \<and> batch_done pb batch s (si_db S c) results (si_db S c')"
  using si_contract.execute_idle [OF assms(1,3,2,5,6,4,7-9)] by (auto simp: returns_def)

definition ex_mv :: "val mv_client" where
  "ex_mv = \<lparr>mv_db = ex_store, mv_base = [], mv_work = [], mv_writes = []\<rparr>"

definition ex_batch :: BatchOperation where
  "ex_batch = \<lparr>bo_fs_id = 1, bo_ino = 3, setattr_operations = [UpdateXAttrOperation 7 1 3 [([1], [2])]],
    create_operations = [MkNodOperation 8 (ex_entry 3 100 5 FILE) (ex_attr 5 FILE 1),
                         MkDirOperation 9 (ex_entry 3 102 6 DIRECTORY) (ex_attr 6 DIRECTORY 2)]\<rparr>"

lemma ex_mv_facts:
  "si_client mv_si ex_mv" "represents val_pb 1 (si_db mv_si ex_mv) ex_ns"
  using ex_represents ex_inv by (simp_all add: mv_si_def ex_mv_def ref_view_def ref_inv_def ex_txn_def)

theorem execute_batch_correct_witness:
  "\<exists>results c'. ExecuteBatchOperation val_pb mv_sdk (\<lambda>_ c. c) ex_batch ex_mv = Some (results, c')
     \<and> batch_done val_pb ex_batch ex_ns (si_db mv_si ex_mv) results (si_db mv_si c')"
  by (rule execute_batch_correct [OF mv_contract pb_ok_val, where pa = "ex_attr 3 DIRECTORY 3"])
    (use ex_mv_facts in \<open>simp_all add: ex_batch_def batch_wf_def IsSetAttrType_def\<close>, simp_all add: ex_defs)

text \<open>C22: a directory cannot be removed while someone creates an entry in it. When another client
  commits a create in the directory while the removal's transaction is open, the removal's commit conflicts,
  its second attempt sees the entry, and it answers ENOT_EMPTY with the create's store unchanged.\<close>

theorem rmdir_loses_to_create:
  assumes "si_contract sdk S" and "pb_ok pb" and f: "f > 0" and "si_client S c"
    and rep: "represents pb f (si_db S c) s" and ok: "ns_ok f s"
    and "rmdir_guard f d pa s" and d: "d_parent d \<noteq> d_ino d" "d_ino d \<noteq> - 1"
    and x: "IsCreateType x" "op_wf (d_ino d) x" and iso: "isolated S env"
    and s1: "s1 = spec_batch \<lparr>bo_fs_id = f, bo_ino = d_ino d, setattr_operations = [], create_operations = [x]\<rparr> s"
    and env0: "\<forall>e. si_open S e \<longrightarrow> si_client S e \<longrightarrow> si_db S e = si_db S c \<longrightarrow> represents pb f (si_db S (env 0 e)) s1"
    and env1: "\<forall>e. si_open S e \<longrightarrow> si_client S e \<longrightarrow> si_db S (env 1 e) = si_db S e"
  shows "\<exists>c'. RunAlone pb sdk env (RmDirOperation time d) c = Some (ENOT_EMPTY, c')
           \<and> represents pb f (si_db S c') s1"
proof -
  let ?run = "Run pb (DingodbTxn sdk) (RmDirOperation time d)" and ?k = "inode_key f (d_ino d)"
  have n: "d_fs_id d = f" "d_name d \<noteq> []" "inodes s (d_ino d) \<noteq> None"
    using assms(7) ns_ok_names(1,5) [OF ok, of "d_parent d" "d_name d"] by (auto simp: rmdir_guard_def)
  then obtain a where a: "inodes s (d_ino d) = Some a" by blast
  obtain a1 where a1: "inodes s1 (d_ino d) = Some a1" "a1 \<noteq> a" and ne: "\<not> dir_empty s1 (d_ino d)"
    using spec_create_in_dir [OF x a, of f] unfolding s1 by blast
  have "EncodeInodeValue pb a1 \<noteq> EncodeInodeValue pb a"
    using a1(2) pb_ok_simps(1) [OF assms(2)] by (metis option.inject)
  then have e0: "si_db S (env 0 e) ?k \<noteq> si_db S c ?k \<and> represents pb f (si_db S (env 0 e)) s1"
    if "si_open S e" "si_client S e" "si_db S e = si_db S c" for e
    using that env0 represents_inodeD [OF rep] a a1(1) represents_inodeD [of pb f "si_db S (env 0 e)" s1] by auto
  have gone: "v ?k \<noteq> si_db S c ?k" if "represents pb f v (spec_rmdir time d pa s)" for v
    using represents_inodeD [OF that, of "d_ino d"] represents_inodeD [OF rep, of "d_ino d"] a
    by (simp add: spec_rmdir_def)
  have run0: "returns (?run t) (\<lambda>(st, t'). in_txn S (si_db S c) (sdk_txn t') \<and> st = OK
      \<and> si_view S (sdk_txn t') ?k \<noteq> si_db S c ?k)"
    if "in_txn S (si_db S c) (sdk_txn t)" "si_view S (sdk_txn t) = si_db S c" for t
    by (rule returns_mono [OF kv_scan_txn.Run_refines [OF si_contract.in_txn_kv [OF assms(1)] that(1) assms(2) f
          rep [folded that(2)] ok alone_step.rmdir [OF assms(7) d]]])
      (use gone in auto)
  have "\<exists>c1. alone_attempt sdk env ?run 0 () c = Some (True, ESTORE_MAYBE_RETRY, (), c1)
      \<and> si_client S c1 \<and> represents pb f (si_db S c1) s1"
    by (rule si_contract.alone_attempt_conflict [OF assms(1,4) iso]) (use run0 e0 in blast)+
  then obtain c1 where c1: "alone_attempt sdk env ?run 0 () c = Some (True, ESTORE_MAYBE_RETRY, (), c1)"
      "si_client S c1" "represents pb f (si_db S c1) s1"
    by blast
  have run1: "returns (?run t) (\<lambda>(st, t'). in_txn S (si_db S c1) (sdk_txn t') \<and> st = ENOT_EMPTY)"
    if "in_txn S (si_db S c1) (sdk_txn t)" "si_view S (sdk_txn t) = si_db S c1" for t
    using kv_scan_txn.rmdir_refines [OF si_contract.in_txn_kv [OF assms(1)] that(1) assms(2) f
        c1(3) [folded that(2)] n(1) d(1) n(2) d(2), of time] a1(1) ne
    by (auto simp: status_of_returns elim!: returns_mono)
  have "\<exists>c2. alone_attempt sdk env ?run 1 () c1 = Some (False, ENOT_EMPTY, (), c2)
      \<and> si_client S c2 \<and> represents pb f (si_db S c2) s1"
    by (rule si_contract.alone_attempt_error [OF assms(1) c1(2) iso]) (use run1 env1 c1(3) in auto)
  then show ?thesis
    using txn_loop_retry_once [where attempt = "alone_attempt sdk env ?run", OF c1(1)] by (auto simp: RunAlone_def)
qed

text \<open>Another client commits a create, or a link, while the first attempt is open.\<close>

definition ex_other :: "(bytes, val) omap \<Rightarrow> nat \<Rightarrow> val mv_client \<Rightarrow> val mv_client" where
  "ex_other db r e = (if r = 0 then e\<lparr>mv_db := db\<rparr> else e)"

definition ex_new :: Operation where
  "ex_new = MkNodOperation 8 (ex_entry 4 100 5 FILE) (ex_attr 5 FILE 1)"

definition ex_created :: "(bytes, val) omap" where
  "ex_created =
     om_insert (inode_key 1 4) (EncodeInodeValue val_pb (bump (touch 8 (ex_attr 4 DIRECTORY 2))))
     (om_insert (inode_key 1 5) (EncodeInodeValue val_pb (ex_attr 5 FILE 1))
     (om_insert (dentry_key 1 4 [100]) (EncodeDentryValue val_pb (CopyTo (ex_entry 4 100 5 FILE))) ex_store))"

lemma ex_created_represents:
  "represents val_pb 1 (om_find ex_created)
     (spec_batch \<lparr>bo_fs_id = 1, bo_ino = 4, setattr_operations = [], create_operations = [ex_new]\<rparr> ex_ns)"
proof -
  let ?a = "bump (touch 8 (ex_attr 4 DIRECTORY 2))"
  let ?s = "ex_ns\<lparr>inodes := (inodes ex_ns)(5 \<mapsto> ex_attr 5 FILE 1, 4 \<mapsto> ?a),
    dents := (dents ex_ns)((4, [100]) \<mapsto> CopyTo (ex_entry 4 100 5 FILE))\<rparr>"
  have r: "rep val_pb 1 (om_find ex_store) (inodes ex_ns) (dents ex_ns) (delfiles ex_ns)"
    using ex_represents by (simp add: represents_def ref_view_def ex_txn_def)
  have "rep val_pb 1 (om_find ex_created) ((inodes ex_ns)(5 \<mapsto> ex_attr 5 FILE 1, 4 \<mapsto> ?a))
      ((dents ex_ns)((4, [100]) \<mapsto> CopyTo (ex_entry 4 100 5 FILE))) (delfiles ex_ns)"
    unfolding ex_created_def om_find_insert by (intro rep_intros r; simp)
  then have "represents val_pb 1 (om_find ex_created) ?s" by (simp add: represents_def)
  moreover have "spec_batch \<lparr>bo_fs_id = 1, bo_ino = 4, setattr_operations = [], create_operations = [ex_new]\<rparr> ex_ns = ?s"
    by (simp add: spec_batch_def ex_new_def Let_def spec_create_def ex_entry_def)
  ultimately show ?thesis by (simp only:)
qed

theorem rmdir_loses_to_create_witness:
  "\<exists>c'. RunAlone val_pb mv_sdk (ex_other ex_created) (RmDirOperation 5 ex_e) ex_mv = Some (ENOT_EMPTY, c')
     \<and> represents val_pb 1 (si_db mv_si c')
        (spec_batch \<lparr>bo_fs_id = 1, bo_ino = 4, setattr_operations = [], create_operations = [ex_new]\<rparr> ex_ns)"
proof -
  have e: "d_ino ex_e = 4" by (simp add: ex_defs)
  have g: "rmdir_guard 1 ex_e (ex_attr 3 DIRECTORY 3) ex_ns"
    using ex_ns_simps(9) ex_dir_empty by (simp add: rmdir_guard_def ex_e_def ex_entry_def)
  have i: "isolated mv_si (ex_other ex_created)"
    unfolding isolated_def ex_other_def ex_created_def mv_si_def ex_store_def Si.simps
    by (simp del: om_insert.simps)
  have o: "\<forall>e. si_open mv_si e \<longrightarrow> si_client mv_si e \<longrightarrow> si_db mv_si e = si_db mv_si ex_mv \<longrightarrow>
      represents val_pb 1 (si_db mv_si (ex_other ex_created 0 e))
        (spec_batch \<lparr>bo_fs_id = 1, bo_ino = d_ino ex_e, setattr_operations = [], create_operations = [ex_new]\<rparr> ex_ns)"
    using ex_created_represents unfolding e by (simp add: mv_si_def ex_other_def)
  have w: "op_wf (d_ino ex_e) ex_new" "IsCreateType ex_new" "d_parent ex_e \<noteq> d_ino ex_e" "d_ino ex_e \<noteq> - 1"
    by (simp_all add: ex_new_def IsCreateType_def ex_defs)
  have o1: "\<forall>e. si_open mv_si e \<longrightarrow> si_client mv_si e \<longrightarrow> si_db mv_si (ex_other ex_created 1 e) = si_db mv_si e"
    by (simp add: ex_other_def)
  have "(0 :: u32) < 1" by simp
  from rmdir_loses_to_create [OF mv_contract pb_ok_val this ex_mv_facts ns_reach_ok [OF ex_reach] g w(3,4,2,1) i refl o o1,
      of 5] show ?thesis unfolding e .
qed

text \<open>The client \<open>mv_sdk\<close> commits when no key of the transaction has changed.\<close>

lemma mv_commit_ok:
  "\<not> mv_conflict (sdk_txn t) \<Longrightarrow> Commit (DingodbTxn mv_sdk) t =
     (OK, t\<lparr>sdk_txn := (sdk_txn t)\<lparr>mv_db := fold (mv_apply (sdk_txn t)) (mv_writes (sdk_txn t)) (mv_db (sdk_txn t))\<rparr>\<rparr>)"
  by (simp add: DingodbTxn_def DingodbTxn_Commit_def mv_sdk_def sdk_success_def)

lemma mv_new_txn:
  "DingodbStorage_NewTxn mv_sdk c =
     Some \<lparr>sdk_txn = c\<lparr>mv_base := mv_db c, mv_work := mv_db c, mv_writes := []\<rparr>, is_conflict = False\<rparr>"
  by (simp add: DingodbStorage_NewTxn_def NewSdkTxn_def mv_sdk_def sdk_success_def)

lemma mv_writes_simps:
  "Put (DingodbTxn mv_sdk) k v t = Some (OK, t\<lparr>sdk_txn := (sdk_txn t)
     \<lparr>mv_work := om_insert k v (mv_work (sdk_txn t)), mv_writes := k # mv_writes (sdk_txn t)\<rparr>\<rparr>)"
  "Delete (DingodbTxn mv_sdk) k t = Some (OK, t\<lparr>sdk_txn := (sdk_txn t)
     \<lparr>mv_work := om_erase k (mv_work (sdk_txn t)), mv_writes := k # mv_writes (sdk_txn t)\<rparr>\<rparr>)"
  by (simp_all add: DingodbTxn_def DingodbTxn_Put_def DingodbTxn_Delete_def DingodbTxn_write_def mv_sdk_def
      sdk_success_def)

lemma mv_alone_ok:
  assumes "DingodbStorage_NewTxn mv_sdk c = Some t" and "Run pb (DingodbTxn mv_sdk) x t = Some (OK, t1)"
    and "\<not> mv_conflict (env 0 (sdk_txn t1))"
  shows "RunAlone pb mv_sdk env x c = Some (OK, let e = env 0 (sdk_txn t1) in
    e\<lparr>mv_db := fold (mv_apply e) (mv_writes e) (mv_db e)\<rparr>)"
  using assms by (simp add: RunAlone_def txn_loop.simps [of _ _ 0] alone_attempt_def mv_commit_ok Let_def)

lemma ex_link_run:
  "\<exists>l. RunAlone val_pb mv_sdk (\<lambda>_ c. c) (HardLinkOperation 5 (ex_entry 4 100 2 FILE)) ex_mv = Some (OK, l)
     \<and> om_ok (mv_db l) \<and> represents val_pb 1 (om_find (mv_db l)) (spec_hard_link 5 (ex_entry 4 100 2 FILE) ex_file ex_ns)"
proof -
  let ?t = "\<lparr>sdk_txn = ex_mv\<lparr>mv_base := mv_db ex_mv, mv_work := mv_db ex_mv, mv_writes := []\<rparr>, is_conflict = False\<rparr>"
  let ?x = "HardLinkOperation 5 (ex_entry 4 100 2 FILE)" and ?s = "spec_hard_link 5 (ex_entry 4 100 2 FILE) ex_file ex_ns"
  have g: "link_guard 1 (ex_entry 4 100 2 FILE) ex_file (ex_attr 4 DIRECTORY 2) ex_ns"
    by (simp add: ex_guard_defs)
  have t: "in_txn mv_si (si_db mv_si ex_mv) (sdk_txn ?t)" "si_view mv_si (sdk_txn ?t) = si_db mv_si ex_mv"
    using ex_mv_facts(1) by (simp_all add: in_txn_def mv_si_def)
  have "(0 :: u32) < 1" by simp
  from kv_scan_txn.Run_refines [OF mv_si.in_txn_kv t(1) pb_ok_val this ex_mv_facts(2) [folded t(2)]
      ns_reach_ok [OF ex_reach] alone_step.link [OF g, of 5]]
  obtain t1 where t1: "Run val_pb (DingodbTxn mv_sdk) ?x ?t = Some (OK, t1)"
      "in_txn mv_si (si_db mv_si ex_mv) (sdk_txn t1)" "represents val_pb 1 (si_view mv_si (sdk_txn t1)) ?s"
    by (auto simp: returns_def)
  let ?e = "sdk_txn t1"
  have e: "om_ok (mv_db ?e)" "om_find (mv_db ?e) = om_find (mv_base ?e)"
      "\<forall>k. k \<notin> set (mv_writes ?e) \<longrightarrow> om_find (mv_work ?e) k = om_find (mv_db ?e) k"
    using t1(2) by (auto simp: in_txn_def mv_si_def)
  have nc: "\<not> mv_conflict ((\<lambda>_ c. c) (0 :: nat) ?e)" by (simp add: mv_conflict_def e(2) list_ex_iff)
  have "om_find (fold (mv_apply ?e) (mv_writes ?e) (mv_db ?e)) = si_view mv_si ?e"
    using e(3) mv_commit(2) [OF e(1)] by (auto simp: mv_si_def fun_eq_iff)
  then show ?thesis
    using mv_alone_ok [where env = "\<lambda>_ c. c", OF mv_new_txn t1(1) nc] t1(3) mv_commit(1) [OF e(1)] by (auto simp: Let_def)
qed

text \<open>The removal of the empty directory writes the parent, the directory and its entry.\<close>

lemma ex_rmdir_run:
  defines "e0 \<equiv> ex_mv\<lparr>mv_base := mv_db ex_mv, mv_work := mv_db ex_mv, mv_writes := []\<rparr>"
  shows "\<exists>w. om_ok w \<and> om_find w (inode_key 1 4) = None \<and>
    Run val_pb (DingodbTxn mv_sdk) (RmDirOperation 5 ex_e) \<lparr>sdk_txn = e0, is_conflict = False\<rparr>
      = Some (OK, \<lparr>sdk_txn = e0\<lparr>mv_work := w, mv_writes := [dentry_key 1 3 [101], inode_key 1 4, inode_key 1 3]\<rparr>,
                   is_conflict = False\<rparr>)"
proof -
  let ?t = "\<lparr>sdk_txn = e0, is_conflict = False\<rparr>"
  let ?pa = "bump (touch 5 (ex_attr 3 DIRECTORY 3\<lparr>at_nlink := at_nlink (ex_attr 3 DIRECTORY 3) - 1\<rparr>))"
  let ?w = "om_erase (dentry_key 1 3 [101]) (om_erase (inode_key 1 4)
    (om_insert (inode_key 1 3) (EncodeInodeValue val_pb ?pa) ex_store))"
  have w: "mv_work e0 = ex_store" "mv_writes e0 = []" by (simp_all add: e0_def ex_mv_def)
  have ok: "om_ok ex_store" using ex_inv by (simp add: ref_inv_def ex_txn_def)
  have r: "represents val_pb 1 (om_find (mv_work (sdk_txn ?t))) ex_ns"
    using ex_represents by (simp add: w ref_view_def ex_txn_def)
  have em: "CheckDirEmpty (DingodbTxn mv_sdk) 1 4 ?t = Inr True"
    using mv.dingo.CheckDirEmpty_eq [of ?t val_pb 1 ex_ns 4] r ok ex_dir_empty(1) by (simp add: w)
  have g: "Get (DingodbTxn mv_sdk) (inode_key 1 3) ?t = Inr (EncodeInodeValue val_pb (ex_attr 3 DIRECTORY 3))"
    using mv.dingo.get_law [of ?t] represents_inodeD [OF r] ok by (simp add: w)
  have "Run val_pb (DingodbTxn mv_sdk) (RmDirOperation 5 ex_e) ?t
      = Some (OK, \<lparr>sdk_txn = e0\<lparr>mv_work := ?w, mv_writes := [dentry_key 1 3 [101], inode_key 1 4, inode_key 1 3]\<rparr>,
                   is_conflict = False\<rparr>)"
    using em g pb_ok_simps(1) [OF pb_ok_val] unfolding Run.simps RmDirOperation_Run_def
    by (simp add: ex_e_def ex_entry_def EncodeInodeKey_eq EncodeDentryKey_eq status_of_def tx_put_def tx_delete_def
        mv_writes_simps attr_simps w del: om_insert.simps om_erase.simps)
  moreover have "om_ok ?w" "om_find ?w (inode_key 1 4) = None"
    using ok by (simp_all add: om_find_erase om_find_insert del: om_insert.simps om_erase.simps)
  ultimately show ?thesis by blast
qed

text \<open>C23: a directory can be removed while someone links a file into it. A hard link writes the file
  and the new entry but not its directory, so the two transactions do not conflict: both answer OK, and the
  entry stays behind in a directory that no longer exists.\<close>

theorem rmdir_hard_link_race:
  "\<exists>l c'. RunAlone val_pb mv_sdk (\<lambda>_ c. c) (HardLinkOperation 5 (ex_entry 4 100 2 FILE)) ex_mv = Some (OK, l)
     \<and> RunAlone val_pb mv_sdk (ex_other (mv_db l)) (RmDirOperation 5 ex_e) ex_mv = Some (OK, c')
     \<and> si_db mv_si c' (dentry_key 1 4 [100]) \<noteq> None \<and> si_db mv_si c' (inode_key 1 4) = None"
proof -
  let ?s = "spec_hard_link 5 (ex_entry 4 100 2 FILE) ex_file ex_ns"
  obtain l where l: "RunAlone val_pb mv_sdk (\<lambda>_ c. c) (HardLinkOperation 5 (ex_entry 4 100 2 FILE)) ex_mv = Some (OK, l)"
      "om_ok (mv_db l)" "represents val_pb 1 (om_find (mv_db l)) ?s"
    using ex_link_run by blast
  obtain w t1 where w: "om_find w (inode_key 1 4) = None"
    and t1: "Run val_pb (DingodbTxn mv_sdk) (RmDirOperation 5 ex_e)
        \<lparr>sdk_txn = ex_mv\<lparr>mv_base := mv_db ex_mv, mv_work := mv_db ex_mv, mv_writes := []\<rparr>, is_conflict = False\<rparr> = Some (OK, t1)"
      "mv_db (sdk_txn t1) = ex_store" "mv_base (sdk_txn t1) = ex_store" "mv_work (sdk_txn t1) = w"
      "mv_writes (sdk_txn t1) = [dentry_key 1 3 [101], inode_key 1 4, inode_key 1 3]"
    using ex_rmdir_run by (auto simp: ex_mv_def)
  let ?e = "ex_other (mv_db l) 0 (sdk_txn t1)"
  have e: "mv_db ?e = mv_db l" "mv_base ?e = ex_store" "mv_work ?e = w"
      "mv_writes ?e = [dentry_key 1 3 [101], inode_key 1 4, inode_key 1 3]"
    by (simp_all add: ex_other_def t1)
  have s: "represents val_pb 1 (om_find ex_store) ex_ns" using ex_mv_facts(2) by (simp add: mv_si_def ex_mv_def)
  have n: "inodes ?s 3 = inodes ex_ns 3" "inodes ?s 4 = inodes ex_ns 4" "dents ?s (3, [101]) = dents ex_ns (3, [101])"
      "dents ?s (4, [100]) \<noteq> None"
    by (simp_all add: spec_hard_link_def ex_entry_def)
  have nc: "\<not> mv_conflict ?e"
    by (simp add: mv_conflict_def e represents_inodeD [OF l(3)] represents_inodeD [OF s]
        represents_dentryD [OF l(3)] represents_dentryD [OF s] n)
  have "om_find (fold (mv_apply ?e) (mv_writes ?e) (mv_db ?e))
      = (\<lambda>k. if k \<in> set (mv_writes ?e) then om_find w k else om_find (mv_db l) k)"
    unfolding e(1) mv_commit(2) [OF l(2)] e(3) ..
  then have "si_db mv_si (?e\<lparr>mv_db := fold (mv_apply ?e) (mv_writes ?e) (mv_db ?e)\<rparr>)
      = (\<lambda>k. if k \<in> {dentry_key 1 3 [101], inode_key 1 4, inode_key 1 3} then om_find w k else om_find (mv_db l) k)"
    unfolding mv_si_def Si.simps mv_client.simps e(4) by simp
  then have "si_db mv_si (?e\<lparr>mv_db := fold (mv_apply ?e) (mv_writes ?e) (mv_db ?e)\<rparr>) (dentry_key 1 4 [100]) \<noteq> None"
      "si_db mv_si (?e\<lparr>mv_db := fold (mv_apply ?e) (mv_writes ?e) (mv_db ?e)\<rparr>) (inode_key 1 4) = None"
    using represents_dentryD [OF l(3), of "[100]" 4] n(4) w by simp_all
  then show ?thesis
    using l(1) mv_alone_ok [where env = "ex_other (mv_db l)", OF mv_new_txn t1(1) nc] by (auto simp: Let_def)
qed

text \<open>C25: grouping splits the staged operations by file system and inode. For every key with operations
  there is one batch, with the key and its operations in their order, attribute operations and creates apart; an
  operation of another type among them is fatal.\<close>

theorem grouping_correct:
  "if list_all IsBatchRun operations
   then \<exists>m. Grouping operations = Some m \<and> om_ok m \<and> om_find m = batch_of operations
     \<and> batches_ops m = mset operations
   else Grouping operations = None"
proof (cases "list_all IsBatchRun operations")
  case True
  have "om_find [] = batch_of []" by (simp add: fun_eq_iff om_find_def batch_of_def)
  then obtain m where m: "grouping_loop operations [] = Some m" "om_ok m" "om_find m = batch_of operations"
    using grouping_loop_batches [OF True, of "[]" "[]"] by auto
  then show ?thesis using True grouping_loop_ops [OF m(1)] by (simp add: Grouping_def batches_ops_def)
qed (simp add: Grouping_def grouping_loop_fatal)

text \<open>C26: no accepted operation is lost or run twice. In every history of the processor the queued and
  the launched operations together are among the accepted ones, each at most once, and while the background
  thread runs they are exactly the accepted ones.\<close>

theorem processor_conserves_operations:
  assumes "mpsc_queue Enqueue Dequeue elems" and "elems (op_queue p) = []" and "launched p = []"
    and "proc_run Enqueue Dequeue p accepted p'"
  shows "batches_ops (launched p') + mset (elems (op_queue p')) \<subseteq># mset accepted
     \<and> (if thread_alive p' then batches_ops (launched p') + mset (elems (op_queue p')) = mset accepted else True)"
  using mpsc_queue.accounted_run [OF assms(1,4)] assms(2,3)
  by (simp add: mpsc_queue.accounted_def [OF assms(1)] batches_ops_def)

definition ex_proc :: "Operation list OperationProcessor" where
  "ex_proc = \<lparr>is_stop = False, op_queue = [], launched = [], thread_alive = True\<rparr>"

abbreviation list_enqueue :: "Operation \<Rightarrow> Operation list \<Rightarrow> Operation list" where
  "list_enqueue x q \<equiv> q @ [x]"

abbreviation list_dequeue :: "Operation list \<Rightarrow> (Operation \<times> Operation list) option" where
  "list_dequeue q \<equiv> (case q of [] \<Rightarrow> None | x # q \<Rightarrow> Some (x, q))"

lemma ex_submit:
  "proc_run list_enqueue list_dequeue ex_proc [ex_new] (ex_proc\<lparr>op_queue := [ex_new]\<rparr>)"
proof -
  have "IsBatchRun ex_new" by (simp add: ex_new_def IsBatchRun_def)
  from proc_step.submit [OF this, of list_enqueue ex_proc True "ex_proc\<lparr>op_queue := [ex_new]\<rparr>" list_dequeue]
  have "proc_step list_enqueue list_dequeue ex_proc [ex_new] (ex_proc\<lparr>op_queue := [ex_new]\<rparr>)"
    by (simp add: RunBatched_def ex_proc_def)
  from proc_run.step [OF proc_run.start this] show ?thesis by simp
qed

theorem processor_conserves_operations_witness:
  "batches_ops (launched (ex_proc\<lparr>op_queue := [ex_new]\<rparr>)) + mset [ex_new] \<subseteq># mset [ex_new]"
  using processor_conserves_operations [OF list_queue.mpsc_queue_axioms _ _ ex_submit]
  by (simp add: ex_proc_def)

text \<open>C27: what is queued gets launched. As long as the processor is not stopped, a round of its thread
  does not fail, empties the queue and launches for every key with queued operations exactly their batch.\<close>

theorem queued_operations_are_launched:
  assumes "mpsc_queue Enqueue Dequeue elems" and "\<not> is_stop p" and "list_all IsBatchRun (elems (op_queue p))"
  shows "\<exists>q m. ProcessOperation_round Dequeue p = Some (p\<lparr>op_queue := q, launched := launched p @ m\<rparr>)
     \<and> elems q = [] \<and> om_ok m \<and> om_find m = batch_of (elems (op_queue p))
     \<and> batches_ops m = mset (elems (op_queue p))"
  by (rule mpsc_queue.round_running [OF assms])

theorem queued_operations_are_launched_witness:
  "\<exists>q m. ProcessOperation_round list_dequeue (ex_proc\<lparr>op_queue := [ex_new]\<rparr>)
       = Some (ex_proc\<lparr>op_queue := q, launched := m\<rparr>) \<and> q = [] \<and> batches_ops m = {#ex_new#}"
  using queued_operations_are_launched [OF list_queue.mpsc_queue_axioms, of "ex_proc\<lparr>op_queue := [ex_new]\<rparr>"]
  by (auto simp: ex_proc_def ex_new_def IsBatchRun_def)

text \<open>C28: stopping the processor can drop an operation it has accepted: queued before the stop, it is taken
  from the queue by the thread, which then leaves without launching it.\<close>

theorem stop_drops_operation:
  "\<exists>p'. proc_run list_enqueue list_dequeue ex_proc [ex_new] p'
     \<and> op_queue p' = [] \<and> launched p' = [] \<and> \<not> thread_alive p'"
proof -
  let ?p = "ex_proc\<lparr>op_queue := [ex_new]\<rparr>"
  have "proc_run list_enqueue list_dequeue ex_proc ([ex_new] @ []) (Destroy ?p)"
    by (rule proc_run.step [OF ex_submit proc_step.stop])
  moreover have "proc_step list_enqueue list_dequeue (Destroy ?p) []
      ((Destroy ?p)\<lparr>op_queue := [], thread_alive := False\<rparr>)"
    by (rule proc_step.round) (simp_all add: ProcessOperation_round_def Destroy_def ex_proc_def)
  ultimately have "proc_run list_enqueue list_dequeue ex_proc (([ex_new] @ []) @ [])
      ((Destroy ?p)\<lparr>op_queue := [], thread_alive := False\<rparr>)"
    by (rule proc_run.step)
  then show ?thesis
    by (intro exI [of _ "(Destroy ?p)\<lparr>op_queue := [], thread_alive := False\<rparr>"]) (simp add: Destroy_def ex_proc_def)
qed

text \<open>C24: a run that meets contention ends. It answers whenever its operation does, and it makes at
  most five attempts: what other clients do later has no influence on its result.\<close>

theorem run_alone_at_most_five_attempts:
  assumes "si_contract sdk S" and "si_client S c" and "isolated S env"
    and run: "\<forall>d t. in_txn S d (sdk_txn t) \<longrightarrow>
      (\<exists>st t'. Run pb (DingodbTxn sdk) x t = Some (st, t') \<and> in_txn S d (sdk_txn t'))"
  shows "(\<exists>st c'. RunAlone pb sdk env x c = Some (st, c') \<and> si_client S c')
     \<and> RunAlone pb sdk env x c = RunAlone pb sdk (\<lambda>r. if r < 5 then env r else env' r) x c"
proof
  have "returns (txn_loop (alone_attempt sdk env (Run pb (DingodbTxn sdk) x)) FLAGS_txn_max_retry_times 0 () c)
      (\<lambda>(st, _, c'). si_client S c' \<and> (\<exists>d v d1. True \<and> True \<and> alone_outcome (\<lambda>_ _ _. True) d v d1 st (si_db S c')))"
    by (rule si_contract.alone_loop [where I = "\<lambda>_. True" and Post = "\<lambda>_ _ _. True", OF assms(1,2) _ assms(3)])
      (use run in \<open>auto simp: returns_def\<close>)
  then show "\<exists>st c'. RunAlone pb sdk env x c = Some (st, c') \<and> si_client S c'"
    by (auto simp: RunAlone_def returns_def)
  have "txn_loop (alone_attempt sdk env (Run pb (DingodbTxn sdk) x)) FLAGS_txn_max_retry_times 0 () c
      = txn_loop (alone_attempt sdk (\<lambda>r. if r < 5 then env r else env' r) (Run pb (DingodbTxn sdk) x))
          FLAGS_txn_max_retry_times 0 () c"
    by (rule txn_loop_cong) (simp add: alone_attempt_def FLAGS_txn_max_retry_times_def)
  then show "RunAlone pb sdk env x c = RunAlone pb sdk (\<lambda>r. if r < 5 then env r else env' r) x c"
    by (simp only: RunAlone_def)
qed

theorem run_alone_at_most_five_attempts_witness:
  "\<exists>st c'. RunAlone val_pb mv_sdk (ex_other ex_created) (DeleteFsQuotaOperation 1) ex_mv = Some (st, c')
     \<and> si_client mv_si c'"
proof -
  have i: "isolated mv_si (ex_other ex_created)"
    unfolding isolated_def ex_other_def ex_created_def mv_si_def ex_store_def Si.simps
    by (simp del: om_insert.simps)
  obtain k where k: "EncodeFsQuotaKey 1 = Some k" by (simp add: EncodeFsQuotaKey_def)
  have "\<forall>d t. in_txn mv_si d (sdk_txn t) \<longrightarrow>
      (\<exists>st t'. Run val_pb (DingodbTxn mv_sdk) (DeleteFsQuotaOperation 1) t = Some (st, t') \<and> in_txn mv_si d (sdk_txn t'))"
  proof (intro allI impI)
    fix d and t :: "val mv_client DingodbTxn"
    assume t: "in_txn mv_si d (sdk_txn t)"
    obtain t' where "Delete (DingodbTxn mv_sdk) k t = Some (OK, t')" "in_txn mv_si d (sdk_txn t')"
      using kv_txn.delete_law [OF mv_si.in_txn_kv1 t] by blast
    then show "\<exists>st t'. Run val_pb (DingodbTxn mv_sdk) (DeleteFsQuotaOperation 1) t = Some (st, t')
        \<and> in_txn mv_si d (sdk_txn t')"
      by (simp add: DeleteFsQuotaOperation_Run_def k tx_delete_def status_of_def)
  qed
  then show ?thesis using run_alone_at_most_five_attempts [OF mv_contract ex_mv_facts(1) i] by blast
qed

end
