(* ===== verification/Helper.thy ===== *)
theory Helper
  imports Storage
begin

text \<open>
  \<^verbatim>\<open>mdsv2/common/helper.cc\<close>: the functions on strings that do not go to the operating system:
  comparison and case of ASCII strings, hexadecimal text, the end of a prefix scan, the address of the
  coordinator, the text of a file mode. The lemmas show that hexadecimal text is read back and that the
  scan from a prefix to its \<open>PrefixNext\<close> meets exactly the keys with that prefix.
\<close>

subsection \<open>Case\<close>

text \<open>\<^verbatim>\<open>tolower\<close> and \<^verbatim>\<open>toupper\<close> in the C locale.\<close>

definition tolower :: "byte \<Rightarrow> byte" where
  "tolower c = (if 0x41 \<le> c \<and> c \<le> 0x5A then c + 32 else c)"

definition toupper :: "byte \<Rightarrow> byte" where
  "toupper c = (if 0x61 \<le> c \<and> c \<le> 0x7A then c - 32 else c)"

definition IsEqualIgnoreCase :: "bytes \<Rightarrow> bytes \<Rightarrow> bool" where
  "IsEqualIgnoreCase str1 str2 =
     (if length str1 \<noteq> length str2 then False
      else list_all2 (\<lambda>c1 c2. tolower c1 = tolower c2) str1 str2)"

definition ToUpperCase :: "bytes \<Rightarrow> bytes" where
  "ToUpperCase s = map toupper s"

definition ToLowerCase :: "bytes \<Rightarrow> bytes" where
  "ToLowerCase s = map tolower s"

definition StringToBool :: "bytes \<Rightarrow> bool" where
  "StringToBool s = (\<not> (s = str ''0'' \<or> s = str ''false''))"

lemma IsEqualIgnoreCase_iff: "IsEqualIgnoreCase s t \<longleftrightarrow> ToLowerCase s = ToLowerCase t"
  by (auto simp: IsEqualIgnoreCase_def ToLowerCase_def list_all2_conv_all_nth list_eq_iff_nth_eq)

subsection \<open>Hexadecimal text\<close>

text \<open>\<^verbatim>\<open>setw(2) << setfill('0') << hex\<close> of one byte.\<close>

definition hex_digit :: "byte \<Rightarrow> byte" where
  "hex_digit d = (if d < 10 then 0x30 + d else 0x57 + d)"

definition StringToHex :: "bytes \<Rightarrow> bytes" where
  "StringToHex s = concat (map (\<lambda>ch. [hex_digit (ch div 16), hex_digit (ch mod 16)]) s)"

text \<open>
  \<^verbatim>\<open>std::stoi(s, nullptr, 16)\<close>: white space, a sign, \<^verbatim>\<open>0x\<close> when a digit follows, digits; what comes
  after the digits is ignored. Without a digit it throws \<^verbatim>\<open>invalid_argument\<close>.
\<close>

definition is_space :: "byte \<Rightarrow> bool" where
  "is_space c \<longleftrightarrow> c = 0x20 \<or> 0x09 \<le> c \<and> c \<le> 0x0D"

definition hex_value :: "byte \<Rightarrow> nat option" where
  "hex_value c =
     (if 0x30 \<le> c \<and> c \<le> 0x39 then Some (unat c - 0x30)
      else if 0x61 \<le> c \<and> c \<le> 0x66 then Some (unat c - 0x57)
      else if 0x41 \<le> c \<and> c \<le> 0x46 then Some (unat c - 0x37)
      else None)"

fun hex_number :: "nat \<Rightarrow> bytes \<Rightarrow> nat" where
  "hex_number n [] = n"
| "hex_number n (c # s) = (case hex_value c of None \<Rightarrow> n | Some d \<Rightarrow> hex_number (16 * n + d) s)"

definition skip_0x :: "bytes \<Rightarrow> bytes" where
  "skip_0x s = (case s of
     z # x # d # s' \<Rightarrow> if z = 0x30 \<and> (x = 0x78 \<or> x = 0x58) \<and> hex_value d \<noteq> None then d # s' else s
   | _ \<Rightarrow> s)"

definition stoi16 :: "bytes \<Rightarrow> int option" where
  "stoi16 s =
     (let s = dropWhile is_space s;
          neg = (s \<noteq> [] \<and> hd s = 0x2D);
          s = (if s \<noteq> [] \<and> (hd s = 0x2D \<or> hd s = 0x2B) then tl s else s);
          s = skip_0x s
      in if s = [] \<or> hex_value (hd s) = None then None
         else Some (if neg then - int (hex_number 0 s) else int (hex_number 0 s)))"

text \<open>The loop over pairs of characters; a pair that is not a number makes the whole result empty.\<close>

function hex_bytes :: "bytes \<Rightarrow> bytes option" where
  "hex_bytes s =
     (if s = [] then Some []
      else do {
        byte_value \<leftarrow> stoi16 (take 2 s);
        rest \<leftarrow> hex_bytes (drop 2 s);
        Some (word_of_int byte_value # rest)
      })"
  by pat_completeness auto
termination
  by (relation "measure length") auto

declare hex_bytes.simps [simp del]

definition HexToString :: "bytes \<Rightarrow> bytes" where
  "HexToString hex_str = (case hex_bytes hex_str of None \<Rightarrow> [] | Some s \<Rightarrow> s)"

subsection \<open>Prefixes\<close>

text \<open>The loop of \<^verbatim>\<open>PrefixNext\<close> from the last byte to the first, with the carry.\<close>

fun prefix_next_loop :: "bytes \<Rightarrow> bytes \<times> byte" where
  "prefix_next_loop [] = ([], 1)"
| "prefix_next_loop (c # input) =
     (let (ret, carry) = prefix_next_loop input in
      if c = 0xFF \<and> carry = 1 then (0 # ret, carry) else ((c + carry) # ret, 0))"

definition PrefixNext :: "bytes \<Rightarrow> bytes" where
  "PrefixNext input = (let (ret, carry) = prefix_next_loop input in if carry = 0 then ret else input)"

subsection \<open>The address of the coordinator\<close>

definition IsValidFileAddr :: "bytes \<Rightarrow> bool" where
  "IsValidFileAddr coor_url = (take 7 coor_url = str ''file://'')"

definition IsValidListAddr :: "bytes \<Rightarrow> bool" where
  "IsValidListAddr coor_url = (take 7 coor_url = str ''list://'')"

text \<open>\<open>read_lines path\<close> are the lines of the file, \<open>None\<close> when it cannot be opened.\<close>

definition ParseFileUrl :: "(bytes \<Rightarrow> bytes list option) \<Rightarrow> bytes \<Rightarrow> bytes option" where
  "ParseFileUrl read_lines coor_url = do {
     CHECK (take 7 coor_url = str ''file://'');
     file_path \<leftarrow> substr_from 7 coor_url;
     Some (case read_lines file_path of
       None \<Rightarrow> []
     | Some lines \<Rightarrow>
         let addrs = concat (map (\<lambda>line. if line = [] then [] else if hd line = 0x23 then [] else line @ str '','') lines)
         in if addrs = [] then [] else take (length addrs - 1) addrs)
   }"

definition ParseListUrl :: "bytes \<Rightarrow> bytes option" where
  "ParseListUrl coor_url = do {
     CHECK (take 7 coor_url = str ''list://'');
     substr_from 7 coor_url
   }"

definition ParseCoorAddr :: "(bytes \<Rightarrow> bytes list option) \<Rightarrow> bytes \<Rightarrow> bytes option" where
  "ParseCoorAddr read_lines coor_url =
     (if IsValidFileAddr coor_url then ParseFileUrl read_lines coor_url
      else if IsValidListAddr coor_url then ParseListUrl coor_url
      else Some [])"

lemma take_7_length: "take 7 s = str t \<Longrightarrow> length t = 7 \<Longrightarrow> 7 \<le> length s"
  by (cases "7 \<le> length s") (auto simp: str_def)

lemma ParseCoorAddr_total: "\<exists>addrs. ParseCoorAddr read_lines coor_url = Some addrs"
  using take_7_length [of coor_url "''file://''"] take_7_length [of coor_url "''list://''"]
  by (auto simp: ParseCoorAddr_def IsValidFileAddr_def IsValidListAddr_def ParseFileUrl_def ParseListUrl_def
      substr_from_def)

subsection \<open>The text of a mode\<close>

definition S_IFMT :: "u32 \<Rightarrow> u32" where
  "S_IFMT mode = mode AND 0xF000"

definition mode_bit :: "u32 \<Rightarrow> u32 \<Rightarrow> bool" where
  "mode_bit mode m = (mode AND m \<noteq> 0)"

definition file_type_char :: "u32 \<Rightarrow> char" where
  "file_type_char mode =
     (if S_IFMT mode = 0x8000 then CHR ''-''
      else if S_IFMT mode = 0x4000 then CHR ''d''
      else if S_IFMT mode = 0xA000 then CHR ''l''
      else if S_IFMT mode = 0x1000 then CHR ''p''
      else if S_IFMT mode = 0xC000 then CHR ''s''
      else if S_IFMT mode = 0x2000 then CHR ''c''
      else if S_IFMT mode = 0x6000 then CHR ''b''
      else CHR ''-'')"

text \<open>The character of an execute bit and the special bit that goes with it.\<close>

definition exec_char :: "bool \<Rightarrow> bool \<Rightarrow> char \<Rightarrow> char \<Rightarrow> char" where
  "exec_char x special lower upper =
     (if x then (if special then lower else CHR ''x'') else if special then upper else CHR ''-'')"

definition FsModeToString :: "u32 \<Rightarrow> string" where
  "FsModeToString mode =
     (let has = mode_bit mode in
      [file_type_char mode,
       if has 0x100 then CHR ''r'' else CHR ''-'',
       if has 0x80 then CHR ''w'' else CHR ''-'',
       exec_char (has 0x40) (has 0x800) (CHR ''s'') (CHR ''S''),
       if has 0x20 then CHR ''r'' else CHR ''-'',
       if has 0x10 then CHR ''w'' else CHR ''-'',
       exec_char (has 8) (has 0x400) (CHR ''s'') (CHR ''S''),
       if has 4 then CHR ''r'' else CHR ''-'',
       if has 2 then CHR ''w'' else CHR ''-'',
       exec_char (has 1) (has 0x200) (CHR ''t'') (CHR ''T'')])"

subsection \<open>Laws\<close>

lemma unat_hex_digit: "d < 16 \<Longrightarrow> unat (hex_digit d) = (if unat d < 10 then 48 + unat d else 87 + unat d)"
  by (auto simp: hex_digit_def word_less_nat_alt unat_word_ariths)

lemma hex_value_digit: "d < 16 \<Longrightarrow> hex_value (hex_digit d) = Some (unat d)"
  by (auto simp: hex_value_def word_le_nat_alt word_less_nat_alt unat_hex_digit)

lemma hex_digit_plain:
  assumes "d < 16"
  shows "\<not> is_space (hex_digit d)" "hex_digit d \<noteq> 0x2D" "hex_digit d \<noteq> 0x2B"
  using assms unat_hex_digit [OF assms]
  by (auto simp: is_space_def word_le_nat_alt word_less_nat_alt word_unat_eq_iff split: if_splits)

lemma stoi16_pair:
  assumes "d < 16" "e < 16"
  shows "stoi16 [hex_digit d, hex_digit e] = Some (int (16 * unat d + unat e))"
  using assms by (simp add: stoi16_def hex_digit_plain hex_value_digit skip_0x_def)

lemma byte_halves: "(b :: byte) div 16 < 16" "b mod 16 < 16" "16 * unat (b div 16) + unat (b mod 16) = unat b"
  using unat_byte_less [of b] by (simp_all add: word_less_nat_alt unat_div unat_mod del: unat_byte_less)

lemma hex_bytes_StringToHex: "hex_bytes (StringToHex s) = Some s"
proof (induction s)
  case Nil
  then show ?case by (simp add: StringToHex_def hex_bytes.simps)
next
  case (Cons b s)
  have e: "StringToHex (b # s) = hex_digit (b div 16) # hex_digit (b mod 16) # StringToHex s"
    by (simp add: StringToHex_def)
  have "stoi16 [hex_digit (b div 16), hex_digit (b mod 16)] = Some (int (unat b))"
    using stoi16_pair [OF byte_halves(1,2)] byte_halves(3) [of b] by metis
  then show ?case
    using Cons.IH by (subst hex_bytes.simps) (simp add: e)
qed

lemma length_prefix_next [simp]: "length (fst (prefix_next_loop p)) = length p"
  by (induction p) (auto split: prod.splits)

lemma prefix_next_loop_val:
  "snd (prefix_next_loop p) = (if \<forall>b \<in> set p. b = 0xFF then 1 else 0)
   \<and> be_val (fst (prefix_next_loop p)) + (if \<forall>b \<in> set p. b = 0xFF then 256 ^ length p else 0) = be_val p + 1"
proof (induction p)
  case (Cons c p)
  obtain r carry where l: "prefix_next_loop p = (r, carry)" by (cases "prefix_next_loop p")
  have len: "length r = length p" using length_prefix_next [of p] by (simp add: l)
  have succ: "unat (c + 1) = unat c + 1" if "c \<noteq> 0xFF"
    using that unat_byte_less [of c]
    by (auto simp: unat_word_ariths word_unat_eq_iff simp del: unat_byte_less)
  show ?case
  proof (cases "\<forall>b \<in> set p. b = 0xFF")
    case True
    then have "carry = 1" "be_val r + 256 ^ length p = be_val p + 1" using Cons.IH by (simp_all add: l)
    moreover have "unat c = 255" if "c = 0xFF" using that by simp
    ultimately show ?thesis
      using True succ by (cases "c = 0xFF") (simp_all add: l len algebra_simps del: unsigned_numeral)
  next
    case False
    then have "carry = 0" "be_val r = be_val p + 1" using Cons.IH by (simp_all only: l if_False fst_conv snd_conv) simp
    then show ?thesis using False by (auto simp: l len)
  qed
qed simp

lemma PrefixNext_val:
  assumes "\<exists>b \<in> set p. b \<noteq> 0xFF"
  shows "length (PrefixNext p) = length p" "be_val (PrefixNext p) = be_val p + 1"
proof -
  have a: "\<not> (\<forall>b \<in> set p. b = 0xFF)" using assms by blast
  have "PrefixNext p = fst (prefix_next_loop p)"
    using prefix_next_loop_val [of p] a by (simp add: PrefixNext_def split_beta)
  then show "length (PrefixNext p) = length p" "be_val (PrefixNext p) = be_val p + 1"
    using prefix_next_loop_val [of p] a by simp_all
qed

lemma PrefixNext_last: "\<forall>b \<in> set p. b = 0xFF \<Longrightarrow> PrefixNext p = p"
  using prefix_next_loop_val [of p] by (auto simp: PrefixNext_def split: prod.splits)

subsection \<open>Properties\<close>

text \<open>C32: The scan from a prefix to its \<open>PrefixNext\<close>, as the lock in the coordinator does it, meets exactly the
  keys with that prefix, among the keys that are not shorter than it. The carry of trailing \<open>0xFF\<close> bytes is
  right; a prefix of \<open>0xFF\<close> bytes only has no successor, and then the range is empty.\<close>
theorem prefix_scan_exact:
  assumes "length p \<le> length k"
  shows "p \<le> k \<and> k < PrefixNext p \<longleftrightarrow> (\<exists>s. k = p @ s) \<and> (\<exists>b \<in> set p. b \<noteq> 0xFF)"
proof (cases "\<exists>b \<in> set p. b \<noteq> 0xFF")
  case True
  then show ?thesis using prefix_interval [OF PrefixNext_val assms] by simp
next
  case False
  then show ?thesis using PrefixNext_last [of p] by auto
qed

theorem prefix_scan_exact_witness:
  "[1, 0xFF] \<le> [1, 0xFF, 7 :: byte] \<and> [1, 0xFF, 7] < PrefixNext [1, 0xFF] \<and> PrefixNext [1, 0xFF] = [2, 0]"
proof -
  have "(\<exists>s. [1, 0xFF, 7 :: byte] = [1, 0xFF] @ s) \<and> (\<exists>b \<in> set [1, 0xFF :: byte]. b \<noteq> 0xFF)" by simp
  then show ?thesis
    using prefix_scan_exact [of "[1, 0xFF]" "[1, 0xFF, 7]"] by (simp add: PrefixNext_def)
qed

text \<open>Hexadecimal text is read back: \<open>HexToString\<close> gives every string, whatever its bytes, back from
  the text that \<open>StringToHex\<close> makes of it, through the parser of the standard library with its white
  space, signs and prefix. The text has two characters for each byte.\<close>
lemma hex_roundtrip: "HexToString (StringToHex s) = s \<and> length (StringToHex s) = 2 * length s"
  by (simp add: HexToString_def hex_bytes_StringToHex) (induction s, simp_all add: StringToHex_def)

end
