(* ===== verification/MdsMeta.thy ===== *)
theory MdsMeta
  imports Meta
begin

text \<open>
  \<^verbatim>\<open>mdsv2/mds/mds_meta.{h,cc}\<close> and \<^verbatim>\<open>mdsv2/coordinator\<close>: the description of a metadata server and
  the map of the known ones, the interface to the coordinator as far as the service uses it for
  identifiers and servers, and its in-memory implementation.
\<close>

subsection \<open>Metadata servers\<close>

datatype State = kInit | kNormal | kAbnormal

record MDSMeta =
  mm_id :: u64
  mm_host :: bytes
  mm_port :: u32
  mm_state :: State
  mm_last_online_time_ms :: u64

fun StateName :: "State \<Rightarrow> string" where
  "StateName kInit = ''INIT''"
| "StateName kNormal = ''NORMAL''"
| "StateName kAbnormal = ''ABNORMAL''"

fun ToPbMdsState :: "State \<Rightarrow> MdsState" where
  "ToPbMdsState kInit = MDS_State_INIT"
| "ToPbMdsState kNormal = MDS_State_NORMAL"
| "ToPbMdsState kAbnormal = MDS_State_ABNORMAL"

fun ToMdsState :: "MdsState \<Rightarrow> State" where
  "ToMdsState MDS_State_INIT = kInit"
| "ToMdsState MDS_State_NORMAL = kNormal"
| "ToMdsState MDS_State_ABNORMAL = kAbnormal"

definition MDSMeta_of_pb :: "MdsEntry \<Rightarrow> MDSMeta" where
  "MDSMeta_of_pb mds =
     \<lparr>mm_id = mds_id_of mds, mm_host = mds_host mds, mm_port = mds_port mds,
      mm_state = ToMdsState (mds_state mds), mm_last_online_time_ms = mds_last_online_time_ms mds\<rparr>"

definition ToProto :: "MDSMeta \<Rightarrow> MdsEntry" where
  "ToProto m =
     \<lparr>mds_id_of = mm_id m, mds_host = mm_host m, mds_port = mm_port m,
      mds_state = ToPbMdsState (mm_state m), mds_last_online_time_ms = mm_last_online_time_ms m\<rparr>"

lemma mds_meta_roundtrip [simp]: "MDSMeta_of_pb (ToProto m) = m" "ToProto (MDSMeta_of_pb e) = e"
  by (cases "mm_state m"; simp add: MDSMeta_of_pb_def ToProto_def)
    (cases "mds_state e"; simp add: MDSMeta_of_pb_def ToProto_def)

text \<open>The keys of the map are signed; the model orders them by their value as integers.\<close>

type_synonym MDSMetaMap = "(int, MDSMeta) omap"

definition UpsertMDSMeta :: "MDSMeta \<Rightarrow> MDSMetaMap \<Rightarrow> MDSMetaMap" where
  "UpsertMDSMeta mds_meta m = om_insert (sint (mm_id mds_meta)) mds_meta m"

definition DeleteMDSMeta :: "u64 \<Rightarrow> MDSMetaMap \<Rightarrow> MDSMetaMap" where
  "DeleteMDSMeta mds_id m = om_erase (sint mds_id) m"

definition GetMDSMeta :: "u64 \<Rightarrow> MDSMetaMap \<Rightarrow> MDSMeta option" where
  "GetMDSMeta mds_id m = om_find m (sint mds_id)"

definition GetAllMDSMeta :: "MDSMetaMap \<Rightarrow> MDSMeta list" where
  "GetAllMDSMeta m = map snd m"

text \<open>Every entry of the map is stored under its own identifier.\<close>

definition mds_map_ok :: "MDSMetaMap \<Rightarrow> bool" where
  "mds_map_ok m \<longleftrightarrow> om_ok m \<and> (\<forall>k x. om_find m k = Some x \<longrightarrow> k = sint (mm_id x))"

lemma mds_map_ok_ops:
  assumes "mds_map_ok m"
  shows "mds_map_ok (UpsertMDSMeta x m)" and "mds_map_ok (DeleteMDSMeta i m)"
    and "GetMDSMeta i (UpsertMDSMeta x m) = (if i = mm_id x then Some x else GetMDSMeta i m)"
    and "GetMDSMeta i (DeleteMDSMeta j m) = (if i = j then None else GetMDSMeta i m)"
  using assms
  by (auto simp: mds_map_ok_def UpsertMDSMeta_def DeleteMDSMeta_def GetMDSMeta_def om_find_insert
      om_find_erase signed_word_eqI split: if_splits)

subsection \<open>The coordinator\<close>

record AutoIncrement =
  ai_table_id :: u64
  ai_start_id :: u64
  ai_alloc_id :: u64

text \<open>
  The methods of \<^verbatim>\<open>CoordinatorClient\<close> that servers and identifiers use; \<open>'k\<close> is the state of the
  coordinator. 64-bit integers are words, read with their sign where the code does; a signed sum that
  overflows wraps around.
\<close>

record 'k CoordinatorClient =
  MDSHeartbeat :: "MDSMeta \<Rightarrow> 'k \<Rightarrow> (Status + MDSMeta list) \<times> 'k"
  GetMDSList :: "'k \<Rightarrow> (Status + MDSMeta list)"
  CreateAutoIncrement :: "u64 \<Rightarrow> u64 \<Rightarrow> 'k \<Rightarrow> Status \<times> 'k"
  DeleteAutoIncrement :: "u64 \<Rightarrow> 'k \<Rightarrow> Status \<times> 'k"
  UpdateAutoIncrement :: "u64 \<Rightarrow> u64 \<Rightarrow> 'k \<Rightarrow> Status \<times> 'k"
  GenerateAutoIncrement :: "u64 \<Rightarrow> u64 \<Rightarrow> 'k \<Rightarrow> (Status + u64 \<times> u64) \<times> 'k"
  GetAutoIncrement :: "u64 \<Rightarrow> 'k \<Rightarrow> Status + u64"
  GetAutoIncrements :: "'k \<Rightarrow> Status + AutoIncrement list"

record DummyCoordinatorClient =
  dc_mdses :: "MDSMeta list"
  dc_auto_increments :: "(int, AutoIncrement) omap"

fun replace_mds :: "MDSMeta \<Rightarrow> MDSMeta list \<Rightarrow> MDSMeta list" where
  "replace_mds mds [] = [mds]"
| "replace_mds mds (m # ms) = (if mm_id m = mm_id mds then mds # ms else m # replace_mds mds ms)"

definition Dummy_MDSHeartbeat ::
    "MDSMeta \<Rightarrow> DummyCoordinatorClient \<Rightarrow> (Status + MDSMeta list) \<times> DummyCoordinatorClient" where
  "Dummy_MDSHeartbeat mds k =
     (let k = k\<lparr>dc_mdses := replace_mds mds (dc_mdses k)\<rparr> in (Inr (dc_mdses k), k))"

definition Dummy_GetMDSList :: "DummyCoordinatorClient \<Rightarrow> Status + MDSMeta list" where
  "Dummy_GetMDSList k = Inr (dc_mdses k)"

definition Dummy_CreateAutoIncrement ::
    "u64 \<Rightarrow> u64 \<Rightarrow> DummyCoordinatorClient \<Rightarrow> Status \<times> DummyCoordinatorClient" where
  "Dummy_CreateAutoIncrement table_id start_id k =
     (case om_find (dc_auto_increments k) (sint table_id) of
        Some _ \<Rightarrow> (EEXISTED, k)
      | None \<Rightarrow> (OK, k\<lparr>dc_auto_increments := om_insert (sint table_id)
          \<lparr>ai_table_id = table_id, ai_start_id = start_id, ai_alloc_id = start_id\<rparr> (dc_auto_increments k)\<rparr>))"

definition Dummy_DeleteAutoIncrement :: "u64 \<Rightarrow> DummyCoordinatorClient \<Rightarrow> Status \<times> DummyCoordinatorClient" where
  "Dummy_DeleteAutoIncrement table_id k =
     (OK, k\<lparr>dc_auto_increments := om_erase (sint table_id) (dc_auto_increments k)\<rparr>)"

definition Dummy_UpdateAutoIncrement ::
    "u64 \<Rightarrow> u64 \<Rightarrow> DummyCoordinatorClient \<Rightarrow> Status \<times> DummyCoordinatorClient" where
  "Dummy_UpdateAutoIncrement table_id start_id k =
     (case om_find (dc_auto_increments k) (sint table_id) of
        None \<Rightarrow> (ENOT_FOUND, k)
      | Some a \<Rightarrow> (OK, k\<lparr>dc_auto_increments :=
          om_insert (sint table_id) (a\<lparr>ai_start_id := start_id\<rparr>) (dc_auto_increments k)\<rparr>))"

definition Dummy_GenerateAutoIncrement ::
    "u64 \<Rightarrow> u64 \<Rightarrow> DummyCoordinatorClient \<Rightarrow> (Status + u64 \<times> u64) \<times> DummyCoordinatorClient" where
  "Dummy_GenerateAutoIncrement table_id count k =
     (case om_find (dc_auto_increments k) (sint table_id) of
        None \<Rightarrow> (Inl ENOT_FOUND, k)
      | Some a \<Rightarrow> (Inr (ai_alloc_id a, ai_alloc_id a + count), k\<lparr>dc_auto_increments :=
          om_insert (sint table_id) (a\<lparr>ai_alloc_id := ai_alloc_id a + count\<rparr>) (dc_auto_increments k)\<rparr>))"

definition Dummy_GetAutoIncrement :: "u64 \<Rightarrow> DummyCoordinatorClient \<Rightarrow> Status + u64" where
  "Dummy_GetAutoIncrement table_id k =
     (case om_find (dc_auto_increments k) (sint table_id) of
        None \<Rightarrow> Inl ENOT_FOUND | Some a \<Rightarrow> Inr (ai_start_id a))"

definition Dummy_GetAutoIncrements :: "DummyCoordinatorClient \<Rightarrow> Status + AutoIncrement list" where
  "Dummy_GetAutoIncrements k = Inr (map snd (dc_auto_increments k))"

definition dummy_coordinator :: "DummyCoordinatorClient CoordinatorClient" where
  "dummy_coordinator =
     \<lparr>MDSHeartbeat = Dummy_MDSHeartbeat, GetMDSList = Dummy_GetMDSList,
      CreateAutoIncrement = Dummy_CreateAutoIncrement, DeleteAutoIncrement = Dummy_DeleteAutoIncrement,
      UpdateAutoIncrement = Dummy_UpdateAutoIncrement, GenerateAutoIncrement = Dummy_GenerateAutoIncrement,
      GetAutoIncrement = Dummy_GetAutoIncrement, GetAutoIncrements = Dummy_GetAutoIncrements\<rparr>"

end
