(* ===== verification/DistLock.thy ===== *)
theory DistLock
  imports Helper MdsMeta Isolation
begin

text \<open>
  \<^verbatim>\<open>mdsv2/common/distribution_lock.{h,cc}\<close>: the lock that elects one metadata server for background
  work. \<open>StoreDistributionLock\<close> keeps owner and expiry in one record of the store; \<open>CoorDistributionLock\<close> puts
  one key per server with a lease into the coordinator and orders them by revision. The first part of the
  theory is the part of the coordinator's interface that the second lock uses.
\<close>

subsection \<open>Versioned keys and leases of the coordinator\<close>

record KVWithExt =
  kx_key :: bytes
  kx_value :: bytes
  kx_create_revision :: u64
  kx_mod_revision :: u64
  kx_version :: u64
  kx_lease :: u64

record KvOptions =
  need_prev_kv :: bool
  ignore_value :: bool
  ignore_lease :: bool
  keys_only :: bool
  count_only :: bool
  lease_id_opt :: u64

definition default_options :: KvOptions where
  "default_options =
     \<lparr>need_prev_kv = False, ignore_value = False, ignore_lease = False, keys_only = False, count_only = False,
      lease_id_opt = 0\<rparr>"

record 'k VersionClient =
  KvRange :: "KvOptions \<Rightarrow> Range \<Rightarrow> u64 \<Rightarrow> 'k \<Rightarrow> Status + KVWithExt list"
  KvPut :: "KvOptions \<Rightarrow> bytes \<Rightarrow> bytes \<Rightarrow> 'k \<Rightarrow> Status \<times> 'k"
  KvDeleteRange :: "KvOptions \<Rightarrow> Range \<Rightarrow> 'k \<Rightarrow> Status \<times> 'k"
  LeaseGrant :: "u64 \<Rightarrow> u64 \<Rightarrow> 'k \<Rightarrow> (Status + u64) \<times> 'k"
  LeaseRevoke :: "u64 \<Rightarrow> 'k \<Rightarrow> Status \<times> 'k"
  LeaseRenew :: "u64 \<Rightarrow> 'k \<Rightarrow> Status \<times> 'k"
  Watch :: "bytes \<Rightarrow> u64 \<Rightarrow> 'k \<Rightarrow> Status \<times> 'k"

text \<open>The in-memory coordinator supports none of them.\<close>

definition dummy_version :: "DummyCoordinatorClient VersionClient" where
  "dummy_version =
     \<lparr>KvRange = (\<lambda>_ _ _ _. Inl ENOT_SUPPORT), KvPut = (\<lambda>_ _ _ k. (ENOT_SUPPORT, k)),
      KvDeleteRange = (\<lambda>_ _ k. (ENOT_SUPPORT, k)), LeaseGrant = (\<lambda>_ _ k. (Inl ENOT_SUPPORT, k)),
      LeaseRevoke = (\<lambda>_ k. (ENOT_SUPPORT, k)), LeaseRenew = (\<lambda>_ k. (ENOT_SUPPORT, k)),
      Watch = (\<lambda>_ _ k. (ENOT_SUPPORT, k))\<rparr>"

subsection \<open>CoorDistributionLock\<close>

definition FLAGS_distribution_lock_lease_ttl_ms :: u64 where
  "FLAGS_distribution_lock_lease_ttl_ms = 18000"

definition FLAGS_distribution_lock_scan_size :: u64 where
  "FLAGS_distribution_lock_scan_size = 1024"

record CoorDistributionLock =
  cl_lock_prefix :: bytes
  cl_mds_id :: u64
  cl_lease_id :: u64
  cl_is_locked :: bool
  cl_is_stop :: bool

definition new_CoorDistributionLock :: "bytes \<Rightarrow> u64 \<Rightarrow> CoorDistributionLock" where
  "new_CoorDistributionLock lock_prefix mds_id =
     \<lparr>cl_lock_prefix = lock_prefix, cl_mds_id = mds_id, cl_lease_id = 0, cl_is_locked = False, cl_is_stop = False\<rparr>"

text \<open>The decimal text of a number, as \<^verbatim>\<open>fmt::format\<close> writes it.\<close>

fun nat_text :: "nat \<Rightarrow> bytes" where
  "nat_text n = (if n < 10 then [0x30 + of_nat n] else nat_text (n div 10) @ [0x30 + of_nat (n mod 10)])"

declare nat_text.simps [simp del]

definition int_text :: "int \<Rightarrow> bytes" where
  "int_text i = (if i < 0 then 0x2D # nat_text (nat (- i)) else nat_text (nat i))"

definition LockKey :: "CoorDistributionLock \<Rightarrow> bytes" where
  "LockKey L = cl_lock_prefix L @ str ''/'' @ int_text (sint (cl_mds_id L))"

text \<open>Every failure of the coordinator is reported as \<^verbatim>\<open>ECOORDINATOR\<close>.\<close>

definition coordinator_status :: "Status \<Rightarrow> Status" where
  "coordinator_status status = (if \<not> ok status then ECOORDINATOR else OK)"

definition CreateLease :: "'k VersionClient \<Rightarrow> CoorDistributionLock \<Rightarrow> 'k \<Rightarrow> Status \<times> CoorDistributionLock \<times> 'k" where
  "CreateLease V L k =
     (case LeaseGrant V 0 FLAGS_distribution_lock_lease_ttl_ms k of
        (Inl _, k) \<Rightarrow> (ECOORDINATOR, L, k)
      | (Inr lease_id, k) \<Rightarrow> (OK, L\<lparr>cl_lease_id := lease_id\<rparr>, k))"

definition Coor_RenewLease :: "'k VersionClient \<Rightarrow> u64 \<Rightarrow> 'k \<Rightarrow> Status \<times> 'k" where
  "Coor_RenewLease V lease_id k = apfst coordinator_status (LeaseRenew V lease_id k)"

definition DeleteLease :: "'k VersionClient \<Rightarrow> u64 \<Rightarrow> 'k \<Rightarrow> Status \<times> 'k" where
  "DeleteLease V lease_id k = apfst coordinator_status (LeaseRevoke V lease_id k)"

definition DeleteLockKey :: "'k VersionClient \<Rightarrow> bytes \<Rightarrow> 'k \<Rightarrow> Status \<times> 'k" where
  "DeleteLockKey V key k =
     apfst coordinator_status (KvDeleteRange V default_options \<lparr>start_key = key, end_key = []\<rparr> k)"

definition PutLockKey :: "'k VersionClient \<Rightarrow> bytes \<Rightarrow> u64 \<Rightarrow> 'k \<Rightarrow> (Status \<times> 'k) option" where
  "PutLockKey V key lease_id k = do {
     CHECK (0 <s lease_id);
     let options = default_options\<lparr>lease_id_opt := lease_id\<rparr>;
     Some (apfst coordinator_status (KvPut V options key (str ''lock'') k))
   }"

text \<open>
  The first index with the lock's own key, 0 when there is none; \<open>i\<close> counts the entries before.
\<close>

fun own_index :: "bytes \<Rightarrow> KVWithExt list \<Rightarrow> nat \<Rightarrow> nat" where
  "own_index lock_key [] i = 0"
| "own_index lock_key (kv # kvs) i = (if kx_key kv = lock_key then i else own_index lock_key kvs (Suc i))"

text \<open>
  The result is the status and the key and revision to watch, \<open>None\<close> when the lock is owned. Revisions are
  unique in the coordinator, so that the order of \<^verbatim>\<open>std::sort\<close> is determined.
\<close>

definition CheckLock ::
    "'k VersionClient \<Rightarrow> CoorDistributionLock \<Rightarrow> 'k \<Rightarrow> (Status \<times> (bytes \<times> u64) option) option" where
  "CheckLock V L k =
     (let options = default_options\<lparr>keys_only := True, count_only := False\<rparr>;
          range = \<lparr>start_key = cl_lock_prefix L, end_key = PrefixNext (cl_lock_prefix L)\<rparr>
      in case KvRange V options range FLAGS_distribution_lock_scan_size k of
        Inl _ \<Rightarrow> Some (ECOORDINATOR, None)
      | Inr kvs \<Rightarrow>
          if kvs = [] then Some (ENOT_FOUND, None)
          else
            let kvs = sort_key (\<lambda>kv. sint (kx_mod_revision kv)) kvs;
                index = own_index (LockKey L) kvs 0
            in if index = 0 then Some (OK, None)
               else do {
                 let watch = kvs ! (index - 1);
                 CHECK (kx_key watch \<noteq> []);
                 Some (OK, Some (kx_key watch, kx_mod_revision watch))
               })"

definition Coor_Watch :: "'k VersionClient \<Rightarrow> bytes \<Rightarrow> u64 \<Rightarrow> 'k \<Rightarrow> (Status \<times> 'k) option" where
  "Coor_Watch V watch_key watch_revision k = do {
     CHECK (watch_key \<noteq> []);
     Some (apfst coordinator_status (Watch V watch_key watch_revision k))
   }"

text \<open>One round of the thread that checks the lock; nothing resets the flag.\<close>

definition check_lock_round ::
    "'k VersionClient \<Rightarrow> CoorDistributionLock \<Rightarrow> 'k \<Rightarrow> (CoorDistributionLock \<times> 'k) option" where
  "check_lock_round V L k =
     (if cl_is_stop L then Some (L, k)
      else do {
        (status, watch) \<leftarrow> CheckLock V L k;
        if \<not> ok status then Some (L, k)
        else case watch of
          None \<Rightarrow> Some (L\<lparr>cl_is_locked := True\<rparr>, k)
        | Some (watch_key, watch_revision) \<Rightarrow> do {
            (_, k) \<leftarrow> Coor_Watch V watch_key watch_revision k;
            Some (L, k)
          }
      })"

text \<open>One round of the thread that renews the lease.\<close>

definition renew_lease_round :: "'k VersionClient \<Rightarrow> CoorDistributionLock \<Rightarrow> 'k \<Rightarrow> 'k" where
  "renew_lease_round V L k = (if cl_is_stop L then k else snd (Coor_RenewLease V (cl_lease_id L) k))"

definition Coor_Init ::
    "'k VersionClient \<Rightarrow> CoorDistributionLock \<Rightarrow> 'k \<Rightarrow> (bool \<times> CoorDistributionLock \<times> 'k) option" where
  "Coor_Init V L k =
     (case CreateLease V L k of (status, L, k) \<Rightarrow>
      if \<not> ok status then Some (False, L, k)
      else case DeleteLockKey V (LockKey L) k of (status, k) \<Rightarrow>
      if \<not> ok status then Some (False, L, k)
      else do {
        (status, k) \<leftarrow> PutLockKey V (LockKey L) (cl_lease_id L) k;
        if \<not> ok status then Some (False, L, k) else Some (True, L, k)
      })"

definition Coor_Destroy :: "'k VersionClient \<Rightarrow> CoorDistributionLock \<Rightarrow> 'k \<Rightarrow> CoorDistributionLock \<times> 'k" where
  "Coor_Destroy V L k =
     (if cl_is_stop L then (L, k)
      else (L\<lparr>cl_is_stop := True\<rparr>, snd (DeleteLease V (cl_lease_id L) k)))"

definition Coor_IsLocked :: "CoorDistributionLock \<Rightarrow> bool" where
  "Coor_IsLocked L = cl_is_locked L"

subsection \<open>StoreDistributionLock\<close>

record StoreDistributionLock =
  sl_name :: bytes
  sl_mds_id :: u64
  sl_is_stop :: bool
  sl_is_locked :: bool
  sl_last_lock_time_ms :: u64

definition new_StoreDistributionLock :: "bytes \<Rightarrow> u64 \<Rightarrow> StoreDistributionLock" where
  "new_StoreDistributionLock name mds_id =
     \<lparr>sl_name = name, sl_mds_id = mds_id, sl_is_stop = False, sl_is_locked = False, sl_last_lock_time_ms = 0\<rparr>"

text \<open>\<open>now_ms\<close> is the clock at the time of the call.\<close>

definition IsLocked :: "u64 \<Rightarrow> StoreDistributionLock \<Rightarrow> bool" where
  "IsLocked now_ms L =
     (if \<not> sl_is_locked L then False
      else if now_ms < sl_last_lock_time_ms L + FLAGS_distribution_lock_lease_ttl_ms then False
      else sl_is_locked L)"

text \<open>
  One attempt of \<^verbatim>\<open>RenewLease\<close>; \<open>clock retry\<close> is the time it reads. The branch for a missing record asks
  for a status other than \<^verbatim>\<open>ENOT_FOUND\<close>, which the code has excluded before, so that the expiry it writes is 0.
\<close>

definition renew_attempt ::
    "('c, bytes) Sdk \<Rightarrow> (nat \<Rightarrow> u64) \<Rightarrow> nat \<Rightarrow> StoreDistributionLock \<Rightarrow> 'c
      \<Rightarrow> (bool \<times> Status \<times> StoreDistributionLock \<times> 'c) option" where
  "renew_attempt sdk clock retry L c = do {
     txn \<leftarrow> DingodbStorage_NewTxn sdk c;
     key \<leftarrow> EncodeLockKey (sl_name L);
     let r = Get (DingodbTxn sdk) key txn;
     let status = (case r of Inl status \<Rightarrow> status | Inr _ \<Rightarrow> OK);
     if \<not> ok status \<and> status \<noteq> ENOT_FOUND then Some (False, status, L, sdk_txn txn)
     else do {
       let now_ms = clock retry;
       (stop, L, expire_time_ms, need_update_last_lock_time) \<leftarrow>
         (case r of
            Inr value \<Rightarrow> do {
              (owner_mds_id, expire_time_ms) \<leftarrow> DecodeLockValue value;
              if owner_mds_id = sl_mds_id L
              then Some (False, L\<lparr>sl_is_locked := True\<rparr>, now_ms + FLAGS_distribution_lock_lease_ttl_ms, False)
              else if now_ms \<le> expire_time_ms then Some (True, L\<lparr>sl_is_locked := False\<rparr>, expire_time_ms, False)
              else Some (False, L\<lparr>sl_is_locked := False\<rparr>, now_ms + FLAGS_distribution_lock_lease_ttl_ms, True)
            }
          | Inl status \<Rightarrow>
              if status \<noteq> ENOT_FOUND then Some (False, L, now_ms + FLAGS_distribution_lock_lease_ttl_ms, True)
              else Some (False, L, 0, False));
       if stop then Some (False, status, L, sdk_txn txn)
       else do {
         txn \<leftarrow> tx_put (DingodbTxn sdk) key (EncodeLockValue (sl_mds_id L) expire_time_ms) txn;
         let (status, txn) = Commit (DingodbTxn sdk) txn;
         if ok status
         then Some (False, status,
           (if need_update_last_lock_time then L\<lparr>sl_is_locked := True, sl_last_lock_time_ms := now_ms\<rparr>
            else L\<lparr>sl_is_locked := True\<rparr>), sdk_txn txn)
         else Some (status = ESTORE_MAYBE_RETRY, status, L, sdk_txn txn)
       }
     }
   }"

definition RenewLease ::
    "('c, bytes) Sdk \<Rightarrow> (nat \<Rightarrow> u64) \<Rightarrow> StoreDistributionLock \<Rightarrow> 'c
      \<Rightarrow> (Status \<times> StoreDistributionLock \<times> 'c) option" where
  "RenewLease sdk clock L c = txn_loop (renew_attempt sdk clock) FLAGS_txn_max_retry_times 0 L c"

text \<open>One round of the thread that \<^verbatim>\<open>Init\<close> starts, and \<^verbatim>\<open>Destroy\<close>.\<close>

definition renew_round ::
    "('c, bytes) Sdk \<Rightarrow> (nat \<Rightarrow> u64) \<Rightarrow> StoreDistributionLock \<Rightarrow> 'c \<Rightarrow> (StoreDistributionLock \<times> 'c) option" where
  "renew_round sdk clock L c =
     (if sl_is_stop L then Some (L, c) else map_option snd (RenewLease sdk clock L c))"

definition StoreDistributionLock_Destroy :: "StoreDistributionLock \<Rightarrow> StoreDistributionLock" where
  "StoreDistributionLock_Destroy L = (if sl_is_stop L then L else L\<lparr>sl_is_stop := True\<rparr>)"

subsection \<open>One renewal\<close>

text \<open>The record of the lock, owner and expiry, as the store holds it.\<close>

abbreviation lock_record :: "(u64 \<times> u64) option \<Rightarrow> bytes option" where
  "lock_record v \<equiv> map_option (\<lambda>(owner, expire). EncodeLockValue owner expire) v"

lemma DecodeLockValue_Encode [simp]: "DecodeLockValue (EncodeLockValue i e) = Some (i, e)"
  by (simp add: EncodeLockValue_def DecodeLockValue_def codec_simps)

lemma EncodeLockValue_inject [simp]: "EncodeLockValue i e = EncodeLockValue i' e' \<longleftrightarrow> i = i' \<and> e = e'"
  by (metis DecodeLockValue_Encode Pair_inject option.inject)

lemma lock_record_inject [simp]: "lock_record v = lock_record v' \<longleftrightarrow> v = v'"
  by (cases v; cases v') auto

text \<open>
  What a renewal of \<open>L\<close> at the time \<open>now\<close> makes of the lock and of the record \<open>v\<close>. When the status is not OK the commit
  may have been made all the same.
\<close>

definition lock_post ::
    "u64 \<Rightarrow> StoreDistributionLock \<Rightarrow> (u64 \<times> u64) option \<Rightarrow> Status \<Rightarrow> StoreDistributionLock \<Rightarrow> (u64 \<times> u64) option \<Rightarrow> bool" where
  "lock_post now L v st L' v' \<longleftrightarrow>
     (let renewed = Some (sl_mds_id L, now + FLAGS_distribution_lock_lease_ttl_ms) in
      case v of
        None \<Rightarrow>
          if ok st then L' = L\<lparr>sl_is_locked := True\<rparr> \<and> v' = Some (sl_mds_id L, 0)
          else L' = L \<and> v' \<in> {v, Some (sl_mds_id L, 0)}
      | Some (owner, expire) \<Rightarrow>
          if owner = sl_mds_id L
          then L' = L\<lparr>sl_is_locked := True\<rparr> \<and> v' \<in> {v, renewed} \<and> (ok st \<longrightarrow> v' = renewed)
          else if now \<le> expire then ok st \<and> L' = L\<lparr>sl_is_locked := False\<rparr> \<and> v' = v
          else if ok st then L' = L\<lparr>sl_is_locked := True, sl_last_lock_time_ms := now\<rparr> \<and> v' = renewed
          else L' = L\<lparr>sl_is_locked := False\<rparr> \<and> v' \<in> {v, renewed})"

definition settled :: "StoreDistributionLock \<Rightarrow> (u64 \<times> u64) option \<Rightarrow> StoreDistributionLock" where
  "settled L v = (case v of None \<Rightarrow> L | Some (owner, _) \<Rightarrow> L\<lparr>sl_is_locked := (owner = sl_mds_id L)\<rparr>)"

lemma lock_post_settled: "lock_post now (settled L v) v st L' v' \<Longrightarrow> lock_post now L v st L' v'"
proof (cases v)
  case (Some oe)
  then show "lock_post now (settled L v) v st L' v' \<Longrightarrow> lock_post now L v st L' v'"
    by (cases oe) (simp add: lock_post_def settled_def Let_def split: if_splits)
qed (simp add: settled_def)

text \<open>The end of an attempt that writes: the record is the new one, or the commit failed.\<close>

lemma put_record:
  assumes con: "si_contract sdk S" and t: "in_txn S d (sdk_txn t)" "si_view S (sdk_txn t) = d"
    and v: "d key = lock_record v"
  shows "\<exists>t1 st t2 v'. Put (DingodbTxn sdk) key (EncodeLockValue i e) t = Some (OK, t1)
    \<and> Commit (DingodbTxn sdk) t1 = (st, t2) \<and> si_client S (sdk_txn t2) \<and> si_db S (sdk_txn t2) key = lock_record v'
    \<and> (v' = Some (i, e) \<or> st \<noteq> OK \<and> v' = v) \<and> (st = ESTORE_MAYBE_RETRY \<longrightarrow> v' = v)"
proof -
  let ?x = "EncodeLockValue i e"
  obtain t1 where t1: "Put (DingodbTxn sdk) key ?x t = Some (OK, t1)" "in_txn S d (sdk_txn t1)"
      "si_view S (sdk_txn t1) = d(key \<mapsto> ?x)"
    using kv_txn.put_law [OF si_contract.in_txn_kv1 [OF con] t(1)] t(2) by fastforce
  obtain st t2 where c: "Commit (DingodbTxn sdk) t1 = (st, t2)" by (cases "Commit (DingodbTxn sdk) t1")
  have c1: "Commit (DingodbTxn sdk) (t1\<lparr>sdk_txn := (\<lambda>_ c. c) (0 :: nat) (sdk_txn t1)\<rparr>) = (st, t2)" using c by simp
  have d: "si_db S (sdk_txn t1) = d" using t1(2) by (simp add: in_txn_def)
  note cc = si_contract.commit_env [OF con t1(2) isolated_idle c1, unfolded d t1(3) merged_same]
  let ?v = "if si_db S (sdk_txn t2) = d then v else Some (i, e)"
  have "si_db S (sdk_txn t2) key = lock_record ?v"
    using cc(4) v by auto
  moreover have "?v = Some (i, e) \<or> st \<noteq> OK \<and> ?v = v"
    using cc(2) v by (auto simp: fun_upd_def fun_eq_iff split: if_splits)
  ultimately show ?thesis
    using t1(1) c cc(1,3) by (intro exI [of _ t1] exI [of _ st] exI [of _ t2] exI [of _ ?v]) simp
qed

lemma renew_attempt_law:
  assumes con: "si_contract sdk S" and c: "si_client S c" and key: "EncodeLockKey (sl_name L) = Some key"
    and v: "si_db S c key = lock_record v"
  shows "returns (renew_attempt sdk (\<lambda>_. now) r L c) (\<lambda>(again, st, L', c'). si_client S c' \<and>
    (\<exists>v'. si_db S c' key = lock_record v' \<and> lock_post now L v st L' v' \<and>
      (again \<longrightarrow> \<not> ok st \<and> v' = v \<and> L' = settled L v)))"
proof -
  obtain t where t: "DingodbStorage_NewTxn sdk c = Some t" "in_txn S (si_db S c) (sdk_txn t)"
      "si_view S (sdk_txn t) = si_db S c"
    using si_contract.new_txn [OF con c] by blast
  have g: "Get (DingodbTxn sdk) key t = (case v of None \<Rightarrow> Inl ENOT_FOUND | Some (i, e) \<Rightarrow> Inr (EncodeLockValue i e))"
    using kv_txn.get_law [OF si_contract.in_txn_kv1 [OF con] t(2)] t(3) v by (auto split: option.splits)
  have cl: "si_client S (sdk_txn t)" "si_db S (sdk_txn t) = si_db S c" using t(2) by (simp_all add: in_txn_def)
  let ?e = "case v of None \<Rightarrow> 0 | Some _ \<Rightarrow> now + FLAGS_distribution_lock_lease_ttl_ms"
  obtain t1 st t2 v' where *: "Put (DingodbTxn sdk) key (EncodeLockValue (sl_mds_id L) ?e) t = Some (OK, t1)"
      "Commit (DingodbTxn sdk) t1 = (st, t2)" "si_client S (sdk_txn t2)" "si_db S (sdk_txn t2) key = lock_record v'"
      "v' = Some (sl_mds_id L, ?e) \<or> st \<noteq> OK \<and> v' = v" "st = ESTORE_MAYBE_RETRY \<longrightarrow> v' = v"
    using put_record [OF con t(2,3) v, of "sl_mds_id L" ?e] by blast
  note [simp] = renew_attempt_def t(1) key g cl v
  show ?thesis
  proof (cases v)
    case None
    then show ?thesis
      using * by (cases "ok st") (auto simp: tx_put_def lock_post_def settled_def intro!: exI [of _ v'])
  next
    case (Some oe)
    obtain ow e where oe: "v = Some (ow, e)" using Some by (cases oe) simp
    consider (own) "ow = sl_mds_id L" | (other) "ow \<noteq> sl_mds_id L" "now \<le> e" | (old) "ow \<noteq> sl_mds_id L" "\<not> now \<le> e"
      by blast
    then show ?thesis
    proof cases
      case other
      then show ?thesis using oe by (auto simp: lock_post_def intro!: exI [of _ v])
    qed (use oe * in \<open>cases "ok st"; auto simp: tx_put_def lock_post_def settled_def Let_def intro!: exI [of _ v']\<close>)+
  qed
qed

lemma RenewLease_law:
  assumes con: "si_contract sdk S" and c: "si_client S c" and key: "EncodeLockKey (sl_name L) = Some key"
    and v: "si_db S c key = lock_record v"
  shows "returns (RenewLease sdk (\<lambda>_. now) L c) (\<lambda>(st, L', c'). si_client S c' \<and>
    (\<exists>v'. si_db S c' key = lock_record v' \<and> lock_post now L v st L' v'))"
  unfolding RenewLease_def
proof (rule txn_loop_returns [where P = "\<lambda>_ L1 c1. si_client S c1 \<and> si_db S c1 key = lock_record v \<and> (L1 = L \<or> L1 = settled L v)"
    and Q = "\<lambda>st L' c'. si_client S c' \<and> (\<exists>v'. si_db S c' key = lock_record v' \<and> lock_post now L v st L' v')"])
  fix r L1 c1
  assume a: "si_client S c1 \<and> si_db S c1 key = lock_record v \<and> (L1 = L \<or> L1 = settled L v)"
  then have n: "sl_name L1 = sl_name L" "settled L1 v = settled L v"
    by (auto simp: settled_def split: option.splits)
  have p: "lock_post now L1 v st L' v' \<Longrightarrow> lock_post now L v st L' v'" for st L' v'
    using a lock_post_settled by blast
  show "returns (renew_attempt sdk (\<lambda>_. now) r L1 c1) (\<lambda>(again, st, L', c').
      (again \<longrightarrow> si_client S c' \<and> si_db S c' key = lock_record v \<and> (L' = L \<or> L' = settled L v)) \<and>
      si_client S c' \<and> (\<exists>v'. si_db S c' key = lock_record v' \<and> lock_post now L v st L' v'))"
    by (rule returns_mono [OF renew_attempt_law [OF con, where now = now and r = r]])
      (use a key n p in \<open>auto 4 3\<close>)
qed (use c v in simp)

subsection \<open>Servers that share a lock\<close>

text \<open>
  A group of servers \<open>'i\<close> with their locks of one name, a store and the time. \<open>ls_sync i\<close> is the time of the
  last renewal of server \<open>i\<close>. Time passes only while every server that believes to hold the lock renews in
  time, and a commit that is not confirmed has not been made. Servers have different identifiers, and read one clock.
\<close>

record ('i, 'c) LockSystem =
  ls_now :: u64
  ls_locks :: "'i \<Rightarrow> StoreDistributionLock"
  ls_store :: 'c
  ls_sync :: "'i \<Rightarrow> u64"

definition in_time :: "u64 \<Rightarrow> ('i, 'c) LockSystem \<Rightarrow> bool" where
  "in_time now s \<longleftrightarrow> unat now + 18000 < 2 ^ 64 \<and> (\<forall>i. sl_is_locked (ls_locks s i) \<longrightarrow> unat now < unat (ls_sync s i) + 18000)"

inductive lock_run ::
    "('c, bytes) Sdk \<Rightarrow> ('c, bytes) Si \<Rightarrow> bytes \<Rightarrow> bytes \<Rightarrow> ('i \<Rightarrow> u64) \<Rightarrow> ('i, 'c) LockSystem \<Rightarrow> bool"
    for sdk S name key mds where
  start: "si_client S c \<Longrightarrow> si_db S c key = lock_record v \<Longrightarrow> unat now + 18000 < 2 ^ 64 \<Longrightarrow>
    lock_run sdk S name key mds
      \<lparr>ls_now = now, ls_locks = (\<lambda>i. new_StoreDistributionLock name (mds i)), ls_store = c, ls_sync = (\<lambda>_. now)\<rparr>"
| tick: "lock_run sdk S name key mds s \<Longrightarrow> ls_now s \<le> now \<Longrightarrow> in_time now s \<Longrightarrow>
    lock_run sdk S name key mds (s\<lparr>ls_now := now\<rparr>)"
| other: "lock_run sdk S name key mds s \<Longrightarrow> si_client S c \<Longrightarrow> si_db S c key = si_db S (ls_store s) key \<Longrightarrow>
    lock_run sdk S name key mds (s\<lparr>ls_store := c\<rparr>)"
| renew: "lock_run sdk S name key mds s \<Longrightarrow>
    RenewLease sdk (\<lambda>_. ls_now s) (ls_locks s i) (ls_store s) = Some (st, L, c) \<Longrightarrow>
    ok st \<or> si_db S c key = si_db S (ls_store s) key \<Longrightarrow>
    lock_run sdk S name key mds
      (s\<lparr>ls_locks := (ls_locks s)(i := L), ls_store := c, ls_sync := (ls_sync s)(i := ls_now s)\<rparr>)"

text \<open>
  The invariant: a server that believes to hold the lock and is not its owner has not renewed since the
  owner took the lock; of two servers that both believe so, one has not renewed since the other took it.
\<close>

definition holders_ok ::
    "('i \<Rightarrow> u64) \<Rightarrow> (u64 \<times> u64) option \<Rightarrow> ('i \<Rightarrow> StoreDistributionLock) \<Rightarrow> ('i \<Rightarrow> u64) \<Rightarrow> bool" where
  "holders_ok mds v locks sync \<longleftrightarrow>
     (\<forall>j. sl_is_locked (locks j) \<longrightarrow> v \<noteq> None) \<and>
     (\<forall>i j. sl_is_locked (locks j) \<longrightarrow> i \<noteq> j \<longrightarrow> map_option fst v = Some (mds i) \<longrightarrow>
        sync j \<le> sl_last_lock_time_ms (locks i)) \<and>
     (\<forall>i j. sl_is_locked (locks i) \<longrightarrow> sl_is_locked (locks j) \<longrightarrow> i \<noteq> j \<longrightarrow>
        sync j \<le> sl_last_lock_time_ms (locks i) \<or> sync i \<le> sl_last_lock_time_ms (locks j))"

definition lock_inv :: "('c, bytes) Si \<Rightarrow> bytes \<Rightarrow> bytes \<Rightarrow> ('i \<Rightarrow> u64) \<Rightarrow> ('i, 'c) LockSystem \<Rightarrow> bool" where
  "lock_inv S name key mds s \<longleftrightarrow> si_client S (ls_store s) \<and> in_time (ls_now s) s \<and>
     (\<forall>i. sl_name (ls_locks s i) = name \<and> sl_mds_id (ls_locks s i) = mds i \<and> ls_sync s i \<le> ls_now s
        \<and> sl_last_lock_time_ms (ls_locks s i) \<le> ls_now s) \<and>
     (\<exists>v. si_db S (ls_store s) key = lock_record v \<and> holders_ok mds v (ls_locks s) (ls_sync s))"

text \<open>A server gives the lock up, gets or keeps it as its owner, or takes it over.\<close>

lemma holders_ok_unlock:
  assumes "holders_ok mds v locks sync" and "\<not> sl_is_locked L" and "sl_last_lock_time_ms L = sl_last_lock_time_ms (locks i)"
  shows "holders_ok mds v (locks(i := L)) (sync(i := now))"
  using assms by (auto simp: holders_ok_def)

lemma holders_ok_own:
  assumes h: "holders_ok mds v locks sync" and "inj mds" and "map_option fst v' = Some (mds i)"
    and v: "v = None \<or> map_option fst v = Some (mds i)"
    and "sl_last_lock_time_ms L = sl_last_lock_time_ms (locks i)"
  shows "holders_ok mds v' (locks(i := L)) (sync(i := now))"
proof -
  have "sync j \<le> sl_last_lock_time_ms (locks i)" if "sl_is_locked (locks j)" "i \<noteq> j" for j
    using h v that by (auto simp: holders_ok_def)
  then show ?thesis
    using assms by (auto simp: holders_ok_def inj_eq)
qed

lemma holders_ok_take:
  assumes h: "holders_ok mds v locks sync" and "inj mds" and "map_option fst v' = Some (mds i)"
    and "\<forall>j. sync j \<le> now" and "sl_last_lock_time_ms L = now"
  shows "holders_ok mds v' (locks(i := L)) (sync(i := now))"
  using assms by (auto simp: holders_ok_def inj_eq)

lemma holders_ok_renew:
  assumes h: "holders_ok mds v locks sync" and inj: "inj mds" and "\<forall>j. sync j \<le> now"
    and m: "sl_mds_id (locks i) = mds i" and post: "lock_post now (locks i) v st L v'" and clean: "ok st \<or> v' = v"
  shows "holders_ok mds v' (locks(i := L)) (sync(i := now))"
proof (cases v)
  case None
  then have n: "\<not> sl_is_locked (locks i)" using h by (auto simp: holders_ok_def)
  consider (yes) "ok st" "L = (locks i)\<lparr>sl_is_locked := True\<rparr>" "v' = Some (mds i, 0)" | (no) "L = locks i" "v' = v"
    using post clean None m by (auto simp: lock_post_def split: if_splits)
  then show ?thesis
  proof cases
    case yes
    then show ?thesis using None by (intro holders_ok_own [OF h inj]) simp_all
  next
    case no
    then show ?thesis using n holders_ok_unlock [OF h, of "locks i" i now] by simp
  qed
next
  case (Some oe)
  obtain ow e where v: "v = Some (ow, e)" using Some by (cases oe) simp
  consider (own) "ow = mds i" "L = (locks i)\<lparr>sl_is_locked := True\<rparr>" "map_option fst v' = Some (mds i)"
    | (give) "L = (locks i)\<lparr>sl_is_locked := False\<rparr>" "v' = v"
    | (take) "L = (locks i)\<lparr>sl_is_locked := True, sl_last_lock_time_ms := now\<rparr>" "map_option fst v' = Some (mds i)"
    using post clean v m by (auto simp: lock_post_def Let_def split: if_splits)
  then show ?thesis
  proof cases
    case own
    then show ?thesis using v by (intro holders_ok_own [OF h inj]) simp_all
  next
    case give
    then show ?thesis by (simp add: holders_ok_unlock [OF h])
  next
    case take
    then show ?thesis using assms(3) by (intro holders_ok_take [OF h inj]) simp_all
  qed
qed

lemma lock_run_inv:
  assumes con: "si_contract sdk S" and inj: "inj mds" and key: "EncodeLockKey name = Some key"
    and run: "lock_run sdk S name key mds s"
  shows "lock_inv S name key mds s"
  using run
proof (induction rule: lock_run.induct)
  case (start c v now)
  then show ?case
    by (auto simp: lock_inv_def in_time_def holders_ok_def new_StoreDistributionLock_def)
next
  case (tick s now)
  then show ?case by (auto simp: lock_inv_def in_time_def dest: order_trans)
next
  case (other s c)
  then show ?case by (auto simp: lock_inv_def in_time_def)
next
  case (renew s i st L c)
  let ?now = "ls_now s" and ?L = "ls_locks s i"
  obtain v where v: "si_db S (ls_store s) key = lock_record v" "holders_ok mds v (ls_locks s) (ls_sync s)"
      "si_client S (ls_store s)" "sl_name ?L = name" "sl_mds_id ?L = mds i" "\<forall>j. ls_sync s j \<le> ?now" "in_time ?now s"
      "sl_last_lock_time_ms ?L \<le> ?now"
    using renew.IH by (auto simp: lock_inv_def)
  obtain v' where v': "si_client S c" "si_db S c key = lock_record v'" "lock_post ?now ?L v st L v'"
    using RenewLease_law [OF con v(3) key [folded v(4)] v(1), of ?now] renew.hyps(2) by auto
  have clean: "ok st \<or> v' = v" using renew.hyps(3) v(1) v'(2) by auto
  have same: "sl_name L = name" "sl_mds_id L = mds i" "sl_last_lock_time_ms L \<le> ?now"
    using v'(3) v(4,5,8) by (auto simp: lock_post_def Let_def split: option.splits if_splits)
  note h = holders_ok_renew [OF v(2) inj v(6,5) v'(3) clean]
  show ?case
    using v v' same h renew.IH by (auto simp: lock_inv_def in_time_def)
qed

subsection \<open>The order of the keys in the coordinator\<close>

lemma own_index_eq:
  assumes "distinct (map kx_key kvs)" and "p < length kvs" and "kx_key (kvs ! p) = key"
  shows "own_index key kvs i = i + p"
  using assms
proof (induction kvs arbitrary: i p)
  case (Cons kv kvs)
  then show ?case by (cases p) (auto simp: nth_eq_iff_index_eq)
qed simp

lemma own_index_absent: "key \<notin> kx_key ` set kvs \<Longrightarrow> own_index key kvs i = 0"
  by (induction kvs arbitrary: i) auto

lemma CheckLock_absent:
  assumes "KvRange V (default_options\<lparr>keys_only := True, count_only := False\<rparr>)
      \<lparr>start_key = cl_lock_prefix L, end_key = PrefixNext (cl_lock_prefix L)\<rparr> FLAGS_distribution_lock_scan_size k = Inr kvs"
    and "kvs \<noteq> []" and "LockKey L \<notin> kx_key ` set kvs"
  shows "CheckLock V L k = Some (OK, None)"
  using assms own_index_absent [of "LockKey L" "sort_key (\<lambda>kv. sint (kx_mod_revision kv)) kvs" 0]
  by (simp add: CheckLock_def Let_def)

lemma CheckLock_present:
  fixes rv :: "KVWithExt \<Rightarrow> int"
  assumes range: "KvRange V (default_options\<lparr>keys_only := True, count_only := False\<rparr>)
      \<lparr>start_key = cl_lock_prefix L, end_key = PrefixNext (cl_lock_prefix L)\<rparr> FLAGS_distribution_lock_scan_size k = Inr kvs"
    and keys: "distinct (map kx_key kvs)" "[] \<notin> kx_key ` set kvs" and revs: "inj_on kx_mod_revision (set kvs)"
    and own: "own \<in> set kvs" "kx_key own = LockKey L"
  defines "rv \<equiv> \<lambda>kv. sint (kx_mod_revision kv)"
  shows "CheckLock V L k = Some (OK, None) \<and> (\<forall>kv \<in> set kvs. rv own \<le> rv kv)
    \<or> (\<exists>w \<in> set kvs. CheckLock V L k = Some (OK, Some (kx_key w, kx_mod_revision w)) \<and> rv w < rv own
        \<and> (\<forall>kv \<in> set kvs. rv kv < rv own \<longrightarrow> rv kv \<le> rv w))"
proof -
  define xs where "xs = sort_key rv kvs"
  have xs: "set xs = set kvs" "distinct (map kx_key xs)" "sorted (map rv xs)"
    using keys(1) by (simp_all add: xs_def distinct_map)
  obtain p where p: "p < length xs" "xs ! p = own" using own(1) in_set_conv_nth [of own xs] xs(1) by auto
  have idx: "own_index (LockKey L) xs 0 = p" using own_index_eq [OF xs(2) p(1)] p(2) own(2) by simp
  have "kvs \<noteq> []" using own(1) by auto
  then have cl: "CheckLock V L k = (if p = 0 then Some (OK, None)
      else if kx_key (xs ! (p - 1)) \<noteq> [] then Some (OK, Some (kx_key (xs ! (p - 1)), kx_mod_revision (xs ! (p - 1)))) else None)"
    using range idx by (simp add: CheckLock_def Let_def xs_def rv_def)
  have mono: "rv (xs ! q) \<le> rv (xs ! r)" if "q \<le> r" "r < length xs" for q r
    using xs(3) that sorted_nth_mono [of "map rv xs" q r] by simp
  show ?thesis
  proof (cases p)
    case 0
    then have "\<forall>kv \<in> set kvs. rv own \<le> rv kv"
      unfolding xs(1) [symmetric] using mono [of 0] p by (auto simp: in_set_conv_nth)
    then show ?thesis using cl 0 by simp
  next
    case (Suc q)
    let ?w = "xs ! q"
    have w: "?w \<in> set kvs" using Suc p(1) xs(1) by (metis Suc_lessD nth_mem)
    have "?w \<noteq> own" using xs(2) p Suc by (auto simp: distinct_map nth_eq_iff_index_eq)
    then have "rv ?w \<noteq> rv own" using inj_onD [OF revs, of ?w own] w own(1) signed_word_eqI by (auto simp: rv_def)
    then have lt: "rv ?w < rv own" using mono [of q p] Suc p by (simp add: order_less_le)
    have "rv kv \<le> rv ?w" if kv: "kv \<in> set kvs" "rv kv < rv own" for kv
    proof -
      obtain r where r: "r < length xs" "xs ! r = kv" using kv(1) in_set_conv_nth [of kv xs] xs(1) by auto
      then have "r < p" using mono [of p r] kv(2) p(2) by (intro ccontr [of "r < p"]) (simp add: not_less)
      then show ?thesis using mono [of r q] Suc p(1) r by simp
    qed
    moreover have "kx_key ?w \<noteq> []" using keys(2) w by (metis image_eqI)
    ultimately show ?thesis using cl Suc lt w by auto
  qed
qed

subsection \<open>Properties\<close>


definition ex_lock_key :: bytes where
  "ex_lock_key = kPrefix @ [key_type kTypeLock] @ [1]"

definition ex_lock_client :: "(bytes, bytes) omap \<Rightarrow> bytes \<Rightarrow> bytes mv_client" where
  "ex_lock_client base v = \<lparr>mv_db = [(ex_lock_key, v)], mv_base = base, mv_work = [(ex_lock_key, v)], mv_writes = [ex_lock_key]\<rparr>"

definition ex_empty_client :: "bytes mv_client" where
  "ex_empty_client = \<lparr>mv_db = [], mv_base = [], mv_work = [], mv_writes = []\<rparr>"

lemma ex_lock_key: "EncodeLockKey [1] = Some ex_lock_key"
  by (simp add: EncodeLockKey_def ex_lock_key_def)

lemma ex_first_renewal:
  "RenewLease mv_sdk (\<lambda>_. now) (new_StoreDistributionLock [1] me) ex_empty_client
    = Some (OK, (new_StoreDistributionLock [1] me)\<lparr>sl_is_locked := True\<rparr>, ex_lock_client [] (EncodeLockValue me 0))"
  by (simp add: RenewLease_def renew_attempt_def mv_run_defs ex_lock_key ex_lock_client_def ex_empty_client_def
      new_StoreDistributionLock_def om_find_def)

lemma ex_takeover:
  "me \<noteq> owner \<Longrightarrow> expire < now \<Longrightarrow>
   RenewLease mv_sdk (\<lambda>_. now) (new_StoreDistributionLock [1] me) (ex_lock_client base (EncodeLockValue owner expire))
    = Some (OK, (new_StoreDistributionLock [1] me)\<lparr>sl_is_locked := True, sl_last_lock_time_ms := now\<rparr>,
        ex_lock_client [(ex_lock_key, EncodeLockValue owner expire)] (EncodeLockValue me (now + 18000)))"
  by (simp add: RenewLease_def renew_attempt_def mv_run_defs ex_lock_key ex_lock_client_def
      new_StoreDistributionLock_def om_find_def FLAGS_distribution_lock_lease_ttl_ms_def linorder_not_le)

lemma ex_own_renewal:
  "RenewLease mv_sdk (\<lambda>_. now) (new_StoreDistributionLock [1] me) (ex_lock_client base (EncodeLockValue me expire))
    = Some (OK, (new_StoreDistributionLock [1] me)\<lparr>sl_is_locked := True\<rparr>,
        ex_lock_client [(ex_lock_key, EncodeLockValue me expire)] (EncodeLockValue me (now + 18000)))"
  by (simp add: RenewLease_def renew_attempt_def mv_run_defs ex_lock_key ex_lock_client_def
      new_StoreDistributionLock_def om_find_def FLAGS_distribution_lock_lease_ttl_ms_def)

definition ex_mds :: "bool \<Rightarrow> u64" where
  "ex_mds i = (if i then 1 else 2)"

definition ex_lock_system :: "(bool, bytes mv_client) LockSystem" where
  "ex_lock_system =
     \<lparr>ls_now = 1000000,
      ls_locks = (\<lambda>i. new_StoreDistributionLock [1] (ex_mds i))
        (True := (new_StoreDistributionLock [1] 1)\<lparr>sl_is_locked := True\<rparr>),
      ls_store = ex_lock_client [] (EncodeLockValue 1 0), ls_sync = (\<lambda>_. 1000000)\<rparr>"

lemma ex_lock_run: "lock_run mv_sdk mv_si [1] ex_lock_key ex_mds ex_lock_system"
proof -
  have "lock_run mv_sdk mv_si [1] ex_lock_key ex_mds
      \<lparr>ls_now = 1000000, ls_locks = (\<lambda>i. new_StoreDistributionLock [1] (ex_mds i)), ls_store = ex_empty_client,
       ls_sync = (\<lambda>_. 1000000)\<rparr>"
    by (rule lock_run.start [where v = None]) (simp_all add: mv_si_def ex_empty_client_def om_find_def)
  from lock_run.renew [OF this, where i = True] show ?thesis
    using ex_first_renewal [of 1000000 1] by (simp add: ex_mds_def ex_lock_system_def fun_upd_idem)
qed


text \<open>C34: A restart breaks the exclusion, within two milliseconds and with every server renewing in time.
  Server 1 takes the free lock; the record it writes has the expiry 0, as the branch that would set it is never
  taken. One millisecond later server 2 finds the lock expired and takes it over. Server 2 restarts and renews: it
  finds itself as the owner, so that it does not enter the period of silence. Now both answer \<open>IsLocked\<close> with true.\<close>
theorem lock_two_owners_after_restart:
  "\<exists>A B B' c1 c2 c3.
     RenewLease mv_sdk (\<lambda>_. 1000000) (new_StoreDistributionLock [1] 1) ex_empty_client = Some (OK, A, c1) \<and>
     RenewLease mv_sdk (\<lambda>_. 1000001) (new_StoreDistributionLock [1] 2) c1 = Some (OK, B, c2) \<and>
     RenewLease mv_sdk (\<lambda>_. 1000002) (new_StoreDistributionLock [1] 2) c2 = Some (OK, B', c3) \<and>
     IsLocked 1000002 A \<and> IsLocked 1000002 B'"
  by (intro exI conjI, rule ex_first_renewal, rule ex_takeover, simp, simp, rule ex_own_renewal)
    (simp_all add: IsLocked_def new_StoreDistributionLock_def FLAGS_distribution_lock_lease_ttl_ms_def)


definition ex_version :: "KVWithExt list VersionClient" where
  "ex_version =
     \<lparr>KvRange = (\<lambda>_ _ _ kvs. Inr kvs), KvPut = (\<lambda>_ _ _ k. (OK, k)), KvDeleteRange = (\<lambda>_ _ k. (OK, k)),
      LeaseGrant = (\<lambda>_ _ k. (Inr 1, k)), LeaseRevoke = (\<lambda>_ k. (OK, k)), LeaseRenew = (\<lambda>_ k. (OK, k)),
      Watch = (\<lambda>_ _ k. (OK, k))\<rparr>"

definition ex_key :: "u64 \<Rightarrow> u64 \<Rightarrow> KVWithExt" where
  "ex_key mds_id revision =
     \<lparr>kx_key = LockKey (new_CoorDistributionLock [1] mds_id), kx_value = [], kx_create_revision = revision,
      kx_mod_revision = revision, kx_version = 1, kx_lease = 1\<rparr>"


end
