(* ===== verification/Lru.thy ===== *)
theory Lru
  imports Prelude
begin

text \<open>
  The caches of \<^verbatim>\<open>utils/lru_cache.h\<close>: \<^verbatim>\<open>LRUCache\<close>, a list in order of use with a hash map from keys
  to positions in it, and \<^verbatim>\<open>TimedLRUCache\<close> on top of it. An iterator is the identity of a list node,
  so that a position kept in the map can dangle; using one that does is \<open>None\<close>. Both are shown to
  implement a plain list of entries, and never to hold more entries than they may.
\<close>

subsection \<open>LRUCache\<close>

text \<open>
  \<^verbatim>\<open>CacheMetrics\<close>, and the cache: \<^verbatim>\<open>ll_\<close> is the list of nodes with their identities, \<open>ll_fresh\<close> the
  identity of the next node. The key an item points to is the key itself, and \<open>CountBytes\<close> the sum
  of the two traits.
\<close>

record CacheMetrics =
  cacheCount :: u32
  cacheBytes :: u64
  cacheHit :: u64
  cacheMiss :: u64

record ('k, 'v) Item =
  item_key :: 'k
  item_value :: 'v

record ('k, 'v) LRUCache =
  maxCount :: u64
  ll :: "(nat \<times> ('k, 'v) Item) list"
  ll_fresh :: nat
  cache :: "('k, nat) omap"
  cacheMetrics :: "CacheMetrics option"
  CountBytes :: "'k \<Rightarrow> 'v \<Rightarrow> u64"

definition new_LRUCache ::
    "u64 \<Rightarrow> CacheMetrics option \<Rightarrow> ('k \<Rightarrow> 'v \<Rightarrow> u64) \<Rightarrow> ('k, 'v) LRUCache" where
  "new_LRUCache max_count metrics count_bytes =
     \<lparr>maxCount = max_count, ll = [], ll_fresh = 0, cache = [], cacheMetrics = metrics,
      CountBytes = count_bytes\<rparr>"

definition UpdateAddToCache :: "u64 \<Rightarrow> CacheMetrics \<Rightarrow> CacheMetrics" where
  "UpdateAddToCache n m = m\<lparr>cacheCount := cacheCount m + 1, cacheBytes := cacheBytes m + n\<rparr>"

definition UpdateRemoveFromCache :: "u64 \<Rightarrow> CacheMetrics \<Rightarrow> CacheMetrics" where
  "UpdateRemoveFromCache n m = m\<lparr>cacheCount := cacheCount m - 1, cacheBytes := cacheBytes m + (0 - n)\<rparr>"

definition OnCacheHit :: "CacheMetrics \<Rightarrow> CacheMetrics" where
  "OnCacheHit m = m\<lparr>cacheHit := cacheHit m + 1\<rparr>"

definition OnCacheMiss :: "CacheMetrics \<Rightarrow> CacheMetrics" where
  "OnCacheMiss m = m\<lparr>cacheMiss := cacheMiss m + 1\<rparr>"

definition OnTimeOut :: "CacheMetrics \<Rightarrow> CacheMetrics" where
  "OnTimeOut m = m\<lparr>cacheHit := cacheHit m - 1, cacheMiss := cacheMiss m + 1\<rparr>"

text \<open>\<^verbatim>\<open>ll_.erase\<close> and \<^verbatim>\<open>ll_.push_front\<close>.\<close>

definition erase_node :: "nat \<Rightarrow> (nat \<times> 'a) list \<Rightarrow> (nat \<times> 'a) list" where
  "erase_node elem l = filter (\<lambda>n. fst n \<noteq> elem) l"

definition push_front :: "('k, 'v) Item \<Rightarrow> ('k, 'v) LRUCache \<Rightarrow> ('k, 'v) LRUCache" where
  "push_front item c = c\<lparr>ll := (ll_fresh c, item) # ll c, ll_fresh := Suc (ll_fresh c)\<rparr>"

definition RemoveElement :: "nat \<Rightarrow> ('k::linorder, 'v) LRUCache \<Rightarrow> ('k, 'v) LRUCache option" where
  "RemoveElement elem c = do {
     item \<leftarrow> map_of (ll c) elem;
     _ \<leftarrow> om_find (cache c) (item_key item);
     Some (c\<lparr>cacheMetrics := map_option (UpdateRemoveFromCache
                (CountBytes c (item_key item) (item_value item))) (cacheMetrics c),
             cache := om_erase (item_key item) (cache c),
             ll := erase_node elem (ll c)\<rparr>)
   }"

definition RemoveOldest :: "('k::linorder, 'v) LRUCache \<Rightarrow> ('v option \<times> ('k, 'v) LRUCache) option" where
  "RemoveOldest c =
     (if ll c = [] then Some (None, c)
      else do {
        c' \<leftarrow> RemoveElement (fst (last (ll c))) c;
        Some (Some (item_value (snd (last (ll c)))), c')
      })"

definition MoveToFront :: "nat \<Rightarrow> ('k::linorder, 'v) LRUCache \<Rightarrow> ('k, 'v) LRUCache option" where
  "MoveToFront elem c = do {
     duplica \<leftarrow> map_of (ll c) elem;
     let c = push_front duplica (c\<lparr>ll := erase_node elem (ll c)\<rparr>);
     Some (c\<lparr>cache := om_insert (item_key duplica) (fst (hd (ll c))) (cache c)\<rparr>)
   }"

text \<open>\<^verbatim>\<open>PutLocked\<close> gives the value it eliminated, if any.\<close>

definition PutLocked ::
    "'k::linorder \<Rightarrow> 'v \<Rightarrow> ('k, 'v) LRUCache \<Rightarrow> ('v option \<times> ('k, 'v) LRUCache) option" where
  "PutLocked k v c = do {
     c \<leftarrow> (case om_find (cache c) k of Some elem \<Rightarrow> RemoveElement elem c | None \<Rightarrow> Some c);
     let c = push_front \<lparr>item_key = k, item_value = v\<rparr> c;
     let c = c\<lparr>cache := om_insert k (fst (hd (ll c))) (cache c)\<rparr>;
     let c = c\<lparr>cacheMetrics := map_option (UpdateAddToCache (CountBytes c k v)) (cacheMetrics c)\<rparr>;
     if maxCount c \<noteq> 0 \<and> unat (maxCount c) < length (ll c) then RemoveOldest c else Some (None, c)
   }"

definition LRUCache_Put :: "'k::linorder \<Rightarrow> 'v \<Rightarrow> ('k, 'v) LRUCache \<Rightarrow> ('k, 'v) LRUCache option" where
  "LRUCache_Put k v c = map_option snd (PutLocked k v c)"

definition LRUCache_Get ::
    "'k::linorder \<Rightarrow> ('k, 'v) LRUCache \<Rightarrow> ('v option \<times> ('k, 'v) LRUCache) option" where
  "LRUCache_Get k c =
     (case om_find (cache c) k of
        None \<Rightarrow> Some (None, c\<lparr>cacheMetrics := map_option OnCacheMiss (cacheMetrics c)\<rparr>)
      | Some elem \<Rightarrow> do {
          c \<leftarrow> MoveToFront elem (c\<lparr>cacheMetrics := map_option OnCacheHit (cacheMetrics c)\<rparr>);
          elem \<leftarrow> om_find (cache c) k;
          item \<leftarrow> map_of (ll c) elem;
          Some (Some (item_value item), c)
        })"

definition LRUCache_Remove :: "'k::linorder \<Rightarrow> ('k, 'v) LRUCache \<Rightarrow> ('k, 'v) LRUCache option" where
  "LRUCache_Remove k c =
     (case om_find (cache c) k of Some elem \<Rightarrow> RemoveElement elem c | None \<Rightarrow> Some c)"

definition LRUCache_Size :: "('k, 'v) LRUCache \<Rightarrow> nat" where
  "LRUCache_Size c = length (cache c)"

text \<open>The three overloads of \<^verbatim>\<open>GetLast\<close>: from the least recently used entry on.\<close>

definition GetLast_key :: "'v \<Rightarrow> ('k, 'v) LRUCache \<Rightarrow> 'k option" where
  "GetLast_key v c = map_option (\<lambda>n. item_key (snd n)) (find (\<lambda>n. item_value (snd n) = v) (rev (ll c)))"

definition GetLast :: "('k, 'v) LRUCache \<Rightarrow> ('k \<times> 'v) option" where
  "GetLast c =
     (if ll c = [] then None
      else let item = snd (hd (rev (ll c))) in Some (item_key item, item_value item))"

definition GetLast_if :: "('v \<Rightarrow> bool) \<Rightarrow> ('k, 'v) LRUCache \<Rightarrow> ('k \<times> 'v) option" where
  "GetLast_if f c =
     map_option (\<lambda>n. (item_key (snd n), item_value (snd n))) (find (\<lambda>n. f (item_value (snd n))) (rev (ll c)))"

fun get_all :: "('k::linorder, nat) omap \<Rightarrow> (nat \<times> ('k, 'v) Item) list \<Rightarrow> ('k, 'v) omap \<Rightarrow> ('k, 'v) omap option" where
  "get_all [] l m = Some m"
| "get_all ((k, elem) # es) l m = do {
     item \<leftarrow> map_of l elem;
     get_all es l (om_insert k (item_value item) m)
   }"

definition LRUCache_GetAll :: "('k::linorder, 'v) LRUCache \<Rightarrow> ('k, 'v) omap option" where
  "LRUCache_GetAll c = get_all (cache c) (ll c) []"

subsection \<open>TimedLRUCache\<close>

text \<open>\<^verbatim>\<open>ItemWithTimestamp\<close>; \<open>now\<close> is \<^verbatim>\<open>TimeUtility::GetTimeofDaySec()\<close> at the call.\<close>

record 'v ItemWithTimestamp =
  it_value :: 'v
  it_time :: u64

record ('k, 'v) TimedLRUCache =
  timeout :: u64
  lruImp :: "('k, 'v ItemWithTimestamp) LRUCache"

definition IsTimeout :: "u64 \<Rightarrow> 'v ItemWithTimestamp \<Rightarrow> ('k, 'v) TimedLRUCache \<Rightarrow> bool" where
  "IsTimeout now elem c = (timeout c > 0 \<and> now - it_time elem \<ge> timeout c)"

definition Timed_Put ::
    "u64 \<Rightarrow> 'k::linorder \<Rightarrow> 'v \<Rightarrow> ('k, 'v) TimedLRUCache \<Rightarrow> ('v option \<times> ('k, 'v) TimedLRUCache) option" where
  "Timed_Put now k v c = do {
     (ev, imp) \<leftarrow> PutLocked k \<lparr>it_value = v, it_time = now\<rparr> (lruImp c);
     Some (map_option it_value ev, c\<lparr>lruImp := imp\<rparr>)
   }"

text \<open>The metrics are those of the inner cache; \<^verbatim>\<open>OnCacheTimeOut\<close> dereferences them without a check.\<close>

definition Timed_Get ::
    "u64 \<Rightarrow> 'k::linorder \<Rightarrow> ('k, 'v) TimedLRUCache \<Rightarrow> ('v option \<times> ('k, 'v) TimedLRUCache) option" where
  "Timed_Get now k c = do {
     (v, imp) \<leftarrow> LRUCache_Get k (lruImp c);
     case v of
       None \<Rightarrow> Some (None, c\<lparr>lruImp := imp\<rparr>)
     | Some item \<Rightarrow>
         (if \<not> IsTimeout now item c then Some (Some (it_value item), c\<lparr>lruImp := imp\<rparr>)
          else do {
            metrics \<leftarrow> cacheMetrics imp;
            imp \<leftarrow> LRUCache_Remove k (imp\<lparr>cacheMetrics := Some (OnTimeOut metrics)\<rparr>);
            Some (None, c\<lparr>lruImp := imp\<rparr>)
          })
   }"

definition Timed_Remove :: "'k::linorder \<Rightarrow> ('k, 'v) TimedLRUCache \<Rightarrow> ('k, 'v) TimedLRUCache option" where
  "Timed_Remove k c = map_option (\<lambda>imp. c\<lparr>lruImp := imp\<rparr>) (LRUCache_Remove k (lruImp c))"

definition Timed_Size :: "('k, 'v) TimedLRUCache \<Rightarrow> nat" where
  "Timed_Size c = LRUCache_Size (lruImp c)"

subsection \<open>The contract\<close>

text \<open>
  A cache is a list of entries with distinct keys, the most recently used first. A put moves its key
  to the front and drops the last entry of a list that became too long.
\<close>

definition entries :: "('k, 'v) LRUCache \<Rightarrow> ('k \<times> 'v) list" where
  "entries c = map (\<lambda>n. (item_key (snd n), item_value (snd n))) (ll c)"

definition without :: "'k \<Rightarrow> ('k \<times> 'v) list \<Rightarrow> ('k \<times> 'v) list" where
  "without k es = filter (\<lambda>e. fst e \<noteq> k) es"

definition spec_put :: "nat \<Rightarrow> 'k \<Rightarrow> 'v \<Rightarrow> ('k \<times> 'v) list \<Rightarrow> 'v option \<times> ('k \<times> 'v) list" where
  "spec_put n k v es =
     (let es' = (k, v) # without k es in
      if n \<noteq> 0 \<and> n < length es' then (Some (snd (last es')), butlast es') else (None, es'))"

definition spec_get :: "'k \<Rightarrow> ('k \<times> 'v) list \<Rightarrow> 'v option \<times> ('k \<times> 'v) list" where
  "spec_get k es =
     (case map_of es k of None \<Rightarrow> (None, es) | Some v \<Rightarrow> (Some v, (k, v) # without k es))"

definition lru_wf :: "('k::linorder, 'v) LRUCache \<Rightarrow> bool" where
  "lru_wf c \<longleftrightarrow>
     distinct (map fst (ll c)) \<and> (\<forall>i \<in> set (map fst (ll c)). i < ll_fresh c) \<and>
     distinct (map fst (entries c)) \<and> om_ok (cache c) \<and>
     om_find (cache c) = map_of (map (\<lambda>n. (item_key (snd n), fst n)) (ll c)) \<and>
     (\<forall>m. cacheMetrics c = Some m \<longrightarrow> cacheCount m = of_nat (length (ll c)))"

definition lru_ok :: "('k::linorder, 'v) LRUCache \<Rightarrow> bool" where
  "lru_ok c \<longleftrightarrow> lru_wf c \<and> (maxCount c \<noteq> 0 \<longrightarrow> length (ll c) \<le> unat (maxCount c))"

subsection \<open>The operations keep it\<close>

lemma erase_node_unique:
  assumes "distinct (map fst l)" and "distinct (map (\<lambda>n. item_key (snd n)) l)"
    and "map_of l elem = Some item"
  shows "erase_node elem l = filter (\<lambda>n. item_key (snd n) \<noteq> item_key item) l"
  unfolding erase_node_def
proof (rule filter_cong [OF refl])
  fix n assume n: "n \<in> set l"
  have e: "(elem, item) \<in> set l" using assms(3) by (rule map_of_SomeD)
  show "fst n \<noteq> elem \<longleftrightarrow> item_key (snd n) \<noteq> item_key item"
    using assms(1,2) n e unfolding distinct_map inj_on_def
    by (metis fst_conv snd_conv prod.collapse)
qed

lemma map_fst_entries: "map fst (entries c) = map (\<lambda>n. item_key (snd n)) (ll c)"
  by (simp add: entries_def o_def)

lemma entries_erase:
  "without k (map (\<lambda>n. (item_key (snd n), item_value (snd n))) l) =
     map (\<lambda>n. (item_key (snd n), item_value (snd n))) (filter (\<lambda>n. item_key (snd n) \<noteq> k) l)"
  by (simp add: without_def filter_map o_def)

lemma map_of_filter_key:
  "map_of (map (\<lambda>n. (f n, g n)) (filter (\<lambda>n. f n \<noteq> k) l)) = (map_of (map (\<lambda>n. (f n, g n)) l))(k := None)"
  by (induction l) (auto simp: fun_eq_iff)

lemma length_filter_remove:
  assumes "distinct (map f l)" and "x \<in> set l"
  shows "Suc (length (filter (\<lambda>n. f n \<noteq> f x) l)) = length l"
  using assms
proof (induction l)
  case (Cons y l)
  show ?case
  proof (cases "f y = f x")
    case True
    then have "\<forall>n \<in> set l. f n \<noteq> f x" using Cons.prems(1) by (auto simp: image_iff)
    then have "filter (\<lambda>n. f n \<noteq> f x) l = l" by simp
    then show ?thesis using True by simp
  next
    case False
    then show ?thesis using Cons by auto
  qed
qed simp

text \<open>The item of a key, reached through the map.\<close>

lemma lru_find:
  assumes "lru_wf c" and "om_find (cache c) k = Some elem"
  obtains item where "map_of (ll c) elem = Some item" "item_key item = k"
    "(elem, item) \<in> set (ll c)" "map_of (entries c) k = Some (item_value item)"
proof -
  let ?ns = "map (\<lambda>n. (item_key (snd n), fst n)) (ll c)"
  have "map_of ?ns k = Some elem" using assms by (simp add: lru_wf_def)
  then have "(k, elem) \<in> set ?ns" by (rule map_of_SomeD)
  then obtain item where i: "(elem, item) \<in> set (ll c)" "item_key item = k" by auto
  then have "(k, item_value item) \<in> set (entries c)" by (force simp: entries_def)
  moreover have "map_of (ll c) elem = Some item"
    using i assms(1) by (simp add: lru_wf_def)
  ultimately show ?thesis using that i assms(1) by (simp add: lru_wf_def)
qed

lemma lru_absent: "lru_wf c \<Longrightarrow> om_find (cache c) k = None \<longleftrightarrow> map_of (entries c) k = None"
  by (auto simp: lru_wf_def map_of_eq_None_iff entries_def image_iff)

lemma RemoveElement_ok:
  assumes "lru_wf c" and "om_find (cache c) k = Some elem"
  shows "returns (RemoveElement elem c) (\<lambda>c'. lru_wf c' \<and> entries c' = without k (entries c) \<and>
    om_find (cache c') k = None \<and> Suc (length (ll c')) = length (ll c) \<and> maxCount c' = maxCount c \<and>
    CountBytes c' = CountBytes c \<and> (cacheMetrics c' = None \<longleftrightarrow> cacheMetrics c = None))"
proof -
  obtain item where i: "map_of (ll c) elem = Some item" "item_key item = k"
    "(elem, item) \<in> set (ll c)" "map_of (entries c) k = Some (item_value item)"
    using lru_find [OF assms] .
  have d: "distinct (map fst (ll c))" "distinct (map (\<lambda>n. item_key (snd n)) (ll c))"
    using assms(1) by (simp_all add: lru_wf_def map_fst_entries)
  have e: "erase_node elem (ll c) = filter (\<lambda>n. item_key (snd n) \<noteq> k) (ll c)"
    using erase_node_unique [OF d i(1)] i(2) by simp
  have len: "Suc (length (filter (\<lambda>n. item_key (snd n) \<noteq> k) (ll c))) = length (ll c)"
    using length_filter_remove [OF d(2) i(3)] i(2) by simp
  have "of_nat (length (ll c)) = (1::u32) + of_nat (length (filter (\<lambda>n. item_key (snd n) \<noteq> k) (ll c)))"
    by (simp add: len [symmetric])
  with assms i e len d show ?thesis
    by (auto simp: RemoveElement_def lru_wf_def om_find_erase entries_erase entries_def
      map_of_filter_key [where f = "\<lambda>n. item_key (snd n)" and g = fst] distinct_map_filter o_def
      UpdateRemoveFromCache_def)
qed

lemma push_front_ok:
  assumes "lru_wf c" and "om_find (cache c) k = None"
    and "c' = push_front \<lparr>item_key = k, item_value = v\<rparr> c"
  shows "lru_wf (c'\<lparr>cache := om_insert k (fst (hd (ll c'))) (cache c'),
     cacheMetrics := map_option (UpdateAddToCache b) (cacheMetrics c')\<rparr>)"
proof -
  have "map_of (entries c) k = None" using lru_absent [OF assms(1), of k] assms(2) by simp
  then have k: "k \<notin> set (map fst (entries c))" by (simp add: map_of_eq_None_iff)
  have fresh: "ll_fresh c \<notin> set (map fst (ll c))" using assms(1) by (auto simp: lru_wf_def)
  have l: "ll c' = (ll_fresh c, \<lparr>item_key = k, item_value = v\<rparr>) # ll c" "ll_fresh c' = Suc (ll_fresh c)"
    "cache c' = cache c" "cacheMetrics c' = cacheMetrics c" "entries c' = (k, v) # entries c"
    by (simp_all add: assms(3) push_front_def entries_def)
  have e: "entries (c'\<lparr>cache := x, cacheMetrics := y\<rparr>) = entries c'" for x y by (simp add: entries_def)
  show ?thesis using assms(1) k fresh unfolding lru_wf_def e
    by (simp add: l om_find_insert UpdateAddToCache_def less_Suc_eq) (auto simp: UpdateAddToCache_def)
qed

lemma RemoveOldest_ok:
  assumes "lru_wf c" and "ll c \<noteq> []"
  shows "returns (RemoveOldest c) (\<lambda>(ev, c'). lru_wf c' \<and> entries c' = butlast (entries c) \<and>
    ev = Some (snd (last (entries c))) \<and> Suc (length (ll c')) = length (ll c) \<and> maxCount c' = maxCount c \<and>
    (cacheMetrics c' = None \<longleftrightarrow> cacheMetrics c = None))"
proof -
  obtain l n where l: "ll c = l @ [n]" using assms(2) by (cases "ll c" rule: rev_cases) auto
  have d: "distinct (map fst (entries c))" and f: "om_find (cache c) = map_of (map (\<lambda>n. (item_key (snd n), fst n)) (ll c))"
    using assms(1) by (simp_all add: lru_wf_def)
  have "om_find (cache c) (item_key (snd n)) = Some (fst n)"
    using d f by (simp add: l map_fst_entries map_add_Some_iff map_of_eq_None_iff image_image)
  from RemoveElement_ok [OF assms(1) this]
  have "returns (RemoveElement (fst n) c) (\<lambda>c'. lru_wf c' \<and> entries c' = without (item_key (snd n)) (entries c) \<and>
    Suc (length (ll c')) = length (ll c) \<and> maxCount c' = maxCount c \<and> (cacheMetrics c' = None \<longleftrightarrow> cacheMetrics c = None))"
    by (rule returns_mono) simp
  moreover have "without (item_key (snd n)) (entries c) = butlast (entries c)"
    using d by (auto simp: entries_def l without_def butlast_append intro!: filter_True)
  ultimately show ?thesis
    by (cases "RemoveElement (fst n) c") (auto simp: RemoveOldest_def l entries_def)
qed

lemma PutLocked_ok:
  assumes "lru_ok c"
  shows "returns (PutLocked k v c) (\<lambda>(ev, c'). lru_ok c' \<and> maxCount c' = maxCount c \<and>
    (cacheMetrics c' = None \<longleftrightarrow> cacheMetrics c = None) \<and>
    (ev, entries c') = spec_put (unat (maxCount c)) k v (entries c))"
proof -
  define d where "d = (case om_find (cache c) k of Some elem \<Rightarrow> RemoveElement elem c | None \<Rightarrow> Some c)"
  have wf: "lru_wf c" using assms by (simp add: lru_ok_def)
  have "returns d (\<lambda>c'. lru_wf c' \<and> entries c' = without k (entries c) \<and> om_find (cache c') k = None \<and>
    maxCount c' = maxCount c \<and> length (ll c') \<le> length (ll c) \<and> (cacheMetrics c' = None \<longleftrightarrow> cacheMetrics c = None))"
  proof (cases "om_find (cache c) k")
    case None
    then have "k \<notin> fst ` set (entries c)" using lru_absent [OF wf, of k] by (metis map_of_eq_None_iff)
    then have "without k (entries c) = entries c" by (auto simp: without_def intro!: filter_True)
    then show ?thesis using None wf by (simp add: d_def)
  next
    case (Some elem)
    show ?thesis
      by (simp add: d_def Some) (rule returns_mono [OF RemoveElement_ok [OF wf Some]], auto)
  qed
  then obtain c1 where c1: "d = Some c1" "lru_wf c1" "entries c1 = without k (entries c)"
    "om_find (cache c1) k = None" "maxCount c1 = maxCount c" "length (ll c1) \<le> length (ll c)"
    "cacheMetrics c1 = None \<longleftrightarrow> cacheMetrics c = None"
    by (cases d) auto
  define c2 where "c2 = push_front \<lparr>item_key = k, item_value = v\<rparr> c1"
  define c3 where "c3 = c2\<lparr>cache := om_insert k (fst (hd (ll c2))) (cache c2),
    cacheMetrics := map_option (UpdateAddToCache (CountBytes c2 k v)) (cacheMetrics c2)\<rparr>"
  have c3: "lru_wf c3" "entries c3 = (k, v) # without k (entries c)" "length (ll c3) = Suc (length (ll c1))"
    "maxCount c3 = maxCount c" "ll c3 \<noteq> []" "cacheMetrics c3 = None \<longleftrightarrow> cacheMetrics c = None"
    using push_front_ok [OF c1(2,4) c2_def] c1 by (simp_all add: c3_def c2_def push_front_def entries_def)
  have len: "length (entries c3) = length (ll c3)" by (simp add: entries_def)
  have put: "PutLocked k v c =
     (if maxCount c \<noteq> 0 \<and> unat (maxCount c) < length (ll c3) then RemoveOldest c3 else Some (None, c3))"
    using c1(1,5) by (simp add: PutLocked_def d_def c2_def c3_def Let_def push_front_def)
  have nz: "maxCount c \<noteq> 0 \<longleftrightarrow> unat (maxCount c) \<noteq> 0" by (simp add: unat_eq_zero)
  have spec: "spec_put (unat (maxCount c)) k v (entries c) =
     (if unat (maxCount c) \<noteq> 0 \<and> unat (maxCount c) < length (entries c3)
      then (Some (snd (last (entries c3))), butlast (entries c3)) else (None, entries c3))"
    by (simp add: spec_put_def c3(2))
  show ?thesis
  proof (cases "maxCount c \<noteq> 0 \<and> unat (maxCount c) < length (ll c3)")
    case True
    have le: "length (ll c) \<le> unat (maxCount c)" using assms True by (simp add: lru_ok_def)
    have s: "spec_put (unat (maxCount c)) k v (entries c) =
        (Some (snd (last (entries c3))), butlast (entries c3))"
      unfolding spec using True nz len by simp
    have p: "PutLocked k v c = RemoveOldest c3" using True put by simp
    show ?thesis unfolding s p
      by (rule returns_mono [OF RemoveOldest_ok [OF c3(1,5)]]) (use le c1(6) c3(3,4,6) in \<open>auto simp: lru_ok_def\<close>)
  next
    case False
    then show ?thesis unfolding put spec using nz len c3 by (auto simp: lru_ok_def)
  qed
qed


lemma LRUCache_Get_ok:
  assumes "lru_ok c"
  shows "returns (LRUCache_Get k c) (\<lambda>(r, c'). lru_ok c' \<and> maxCount c' = maxCount c \<and>
    (cacheMetrics c' = None \<longleftrightarrow> cacheMetrics c = None) \<and> (r, entries c') = spec_get k (entries c))"
proof (cases "om_find (cache c) k")
  case None
  then have "map_of (entries c) k = None" using assms lru_absent [of c k] by (simp add: lru_ok_def)
  then show ?thesis using None assms
    by (auto simp: LRUCache_Get_def spec_get_def lru_ok_def lru_wf_def entries_def OnCacheMiss_def)
next
  case (Some elem)
  have wf: "lru_wf c" using assms by (simp add: lru_ok_def)
  obtain item where i: "map_of (ll c) elem = Some item" "item_key item = k"
    "(elem, item) \<in> set (ll c)" "map_of (entries c) k = Some (item_value item)"
    using lru_find [OF wf Some] .
  have d: "distinct (map fst (ll c))" "distinct (map (\<lambda>n. item_key (snd n)) (ll c))"
    using wf by (simp_all add: lru_wf_def map_fst_entries)
  have e: "erase_node elem (ll c) = filter (\<lambda>n. item_key (snd n) \<noteq> k) (ll c)"
    using erase_node_unique [OF d i(1)] i(2) by simp
  have len: "Suc (length (filter (\<lambda>n. item_key (snd n) \<noteq> k) (ll c))) = length (ll c)"
    using length_filter_remove [OF d(2) i(3)] i(2) by simp
  define c' where "c' = c\<lparr>cacheMetrics := map_option OnCacheHit (cacheMetrics c),
    ll := (ll_fresh c, item) # filter (\<lambda>n. item_key (snd n) \<noteq> k) (ll c), ll_fresh := Suc (ll_fresh c),
    cache := om_insert k (ll_fresh c) (cache c)\<rparr>"
  have get: "LRUCache_Get k c = Some (Some (item_value item), c')"
    using i(1,2) by (simp add: LRUCache_Get_def Some MoveToFront_def push_front_def e c'_def om_find_insert)
  have es: "entries c' = (k, item_value item) # without k (entries c)"
    using i(2) by (simp add: entries_def c'_def entries_erase)
  have "ll_fresh c \<notin> fst ` set (ll c)" using wf by (auto simp: lru_wf_def)
  then have "lru_wf c'" using wf d i(2) len
    by (auto simp: lru_wf_def c'_def entries_def om_find_insert less_Suc_eq OnCacheHit_def distinct_map_filter o_def
      map_of_filter_key [where f = "\<lambda>n. item_key (snd n)" and g = fst])
  then show ?thesis using assms i(4) len es
    by (simp add: get spec_get_def lru_ok_def) (simp add: c'_def)
qed

lemma LRUCache_Remove_ok:
  assumes "lru_ok c"
  shows "returns (LRUCache_Remove k c) (\<lambda>c'. lru_ok c' \<and> maxCount c' = maxCount c \<and>
    (cacheMetrics c' = None \<longleftrightarrow> cacheMetrics c = None) \<and> entries c' = without k (entries c))"
proof (cases "om_find (cache c) k")
  case None
  then have "k \<notin> fst ` set (entries c)"
    using assms lru_absent [of c k] by (metis map_of_eq_None_iff lru_ok_def)
  then have "without k (entries c) = entries c" by (auto simp: without_def intro!: filter_True)
  then show ?thesis using None assms by (simp add: LRUCache_Remove_def)
next
  case (Some elem)
  have wf: "lru_wf c" using assms by (simp add: lru_ok_def)
  show ?thesis using assms
    by (simp add: LRUCache_Remove_def Some) (rule returns_mono [OF RemoveElement_ok [OF wf Some]], auto simp: lru_ok_def)
qed


subsection \<open>Runs of a cache\<close>

datatype ('k, 'v) lru_cmd = PutC 'k 'v | GetC 'k | RemoveC 'k

fun lru_exec :: "('k::linorder, 'v) lru_cmd \<Rightarrow> ('k, 'v) LRUCache \<Rightarrow> ('v option \<times> ('k, 'v) LRUCache) option" where
  "lru_exec (PutC k v) c = PutLocked k v c"
| "lru_exec (GetC k) c = LRUCache_Get k c"
| "lru_exec (RemoveC k) c = map_option (Pair None) (LRUCache_Remove k c)"

fun lru_run ::
    "('k::linorder, 'v) lru_cmd list \<Rightarrow> ('k, 'v) LRUCache \<Rightarrow> ('v option list \<times> ('k, 'v) LRUCache) option" where
  "lru_run [] c = Some ([], c)"
| "lru_run (cmd # cmds) c = do {
     (r, c) \<leftarrow> lru_exec cmd c;
     (rs, c) \<leftarrow> lru_run cmds c;
     Some (r # rs, c)
   }"

fun spec_exec :: "nat \<Rightarrow> ('k, 'v) lru_cmd \<Rightarrow> ('k \<times> 'v) list \<Rightarrow> 'v option \<times> ('k \<times> 'v) list" where
  "spec_exec n (PutC k v) es = spec_put n k v es"
| "spec_exec n (GetC k) es = spec_get k es"
| "spec_exec n (RemoveC k) es = (None, without k es)"

fun spec_run :: "nat \<Rightarrow> ('k, 'v) lru_cmd list \<Rightarrow> ('k \<times> 'v) list \<Rightarrow> 'v option list \<times> ('k \<times> 'v) list" where
  "spec_run n [] es = ([], es)"
| "spec_run n (cmd # cmds) es =
     (let (r, es) = spec_exec n cmd es; (rs, es) = spec_run n cmds es in (r # rs, es))"

definition no_metrics :: CacheMetrics where
  "no_metrics = \<lparr>cacheCount = 0, cacheBytes = 0, cacheHit = 0, cacheMiss = 0\<rparr>"

lemma lru_exec_ok:
  assumes "lru_ok c"
  shows "returns (lru_exec cmd c) (\<lambda>(r, c'). lru_ok c' \<and> maxCount c' = maxCount c \<and>
    (cacheMetrics c' = None \<longleftrightarrow> cacheMetrics c = None) \<and>
    (r, entries c') = spec_exec (unat (maxCount c)) cmd (entries c))"
proof (cases cmd)
  case (RemoveC k)
  then show ?thesis using LRUCache_Remove_ok [OF assms, of k] by (cases "LRUCache_Remove k c") auto
qed (use PutLocked_ok [OF assms] LRUCache_Get_ok [OF assms] in simp_all)

lemma lru_run_ok:
  assumes "lru_ok c"
  shows "returns (lru_run cmds c) (\<lambda>(rs, c'). lru_ok c' \<and> maxCount c' = maxCount c \<and>
    (cacheMetrics c' = None \<longleftrightarrow> cacheMetrics c = None) \<and>
    (rs, entries c') = spec_run (unat (maxCount c)) cmds (entries c))"
  using assms
proof (induction cmds arbitrary: c)
  case (Cons cmd cmds)
  obtain r c1 where c1: "lru_exec cmd c = Some (r, c1)" "lru_ok c1" "maxCount c1 = maxCount c"
    "cacheMetrics c1 = None \<longleftrightarrow> cacheMetrics c = None"
    "spec_exec (unat (maxCount c)) cmd (entries c) = (r, entries c1)"
    using lru_exec_ok [OF Cons.prems, of cmd] by (cases "lru_exec cmd c") auto
  show ?case using Cons.IH [OF c1(2)] c1
    by (cases "lru_run cmds c1") (auto split: prod.splits)
qed simp

lemma lru_ok_new: "lru_ok (new_LRUCache n (Some no_metrics) cb)"
  by (simp add: lru_ok_def lru_wf_def new_LRUCache_def entries_def no_metrics_def om_find_def fun_eq_iff)

lemma lru_size: "lru_ok c \<Longrightarrow> LRUCache_Size c = length (entries c)"
proof -
  assume "lru_ok c"
  then have o: "om_ok (cache c)" and f: "om_find (cache c) = map_of (map (\<lambda>n. (item_key (snd n), fst n)) (ll c))"
    and d: "distinct (map (\<lambda>n. item_key (snd n)) (ll c))"
    by (simp_all add: lru_ok_def lru_wf_def map_fst_entries)
  have "dom (om_find (cache c)) = set (map (\<lambda>n. item_key (snd n)) (ll c))"
    by (simp add: f dom_map_of_conv_image_fst image_image)
  then have "set (map fst (cache c)) = set (map (\<lambda>n. item_key (snd n)) (ll c))"
    by (simp add: dom_om_find)
  then have "length (map fst (cache c)) = length (map (\<lambda>n. item_key (snd n)) (ll c))"
    using om_ok_distinct [OF o] d by (metis distinct_card)
  then show ?thesis by (simp add: LRUCache_Size_def entries_def)
qed


subsection \<open>What the users of a cache rely on\<close>

text \<open>
  A cache holds some of the entries put into it: a put may drop others, a get changes nothing that
  can be looked up. A property of all cached entries is kept by every operation.
\<close>

locale cache_contract =
  fixes put :: "'k \<Rightarrow> 'v \<Rightarrow> 's \<Rightarrow> 's option" and get :: "'k \<Rightarrow> 's \<Rightarrow> ('v option \<times> 's) option"
    and remove :: "'k \<Rightarrow> 's \<Rightarrow> 's option" and view :: "'s \<Rightarrow> 'k \<rightharpoonup> 'v" and invar :: "'s \<Rightarrow> bool"
  assumes put_view: "invar s \<Longrightarrow> returns (put k v s) (\<lambda>s'. invar s' \<and> view s' \<subseteq>\<^sub>m (view s)(k \<mapsto> v) \<and> view s' k = Some v)"
    and get_view: "invar s \<Longrightarrow> returns (get k s) (\<lambda>(r, s'). invar s' \<and> r = view s k \<and> view s' = view s)"
    and remove_view: "invar s \<Longrightarrow> returns (remove k s) (\<lambda>s'. invar s' \<and> view s' = (view s)(k := None))"
begin

definition each :: "('k \<Rightarrow> 'v \<Rightarrow> bool) \<Rightarrow> 's \<Rightarrow> bool" where
  "each P s \<longleftrightarrow> (\<forall>k v. view s k = Some v \<longrightarrow> P k v)"

lemma each_mono: "each P s \<Longrightarrow> (\<And>k v. P k v \<Longrightarrow> Q k v) \<Longrightarrow> each Q s"
  by (auto simp: each_def)

lemma put_each:
  assumes "invar s" and "each P s" and "P k v"
  shows "returns (put k v s) (\<lambda>s'. invar s' \<and> each P s' \<and> view s' k = Some v)"
proof (rule returns_mono [OF put_view [OF assms(1)]])
  fix s' assume s': "invar s' \<and> view s' \<subseteq>\<^sub>m (view s)(k \<mapsto> v) \<and> view s' k = Some v"
  have "P j w" if "view s' j = Some w" for j w
  proof -
    have "((view s)(k \<mapsto> v)) j = Some w" using s' that by (auto simp: map_le_def dom_def)
    then show ?thesis using assms(2,3) by (auto simp: each_def split: if_splits)
  qed
  then show "invar s' \<and> each P s' \<and> view s' k = Some v" using s' by (simp add: each_def)
qed

lemma get_each:
  assumes "invar s" and "each P s"
  shows "returns (get k s) (\<lambda>(r, s'). invar s' \<and> each P s' \<and> view s' = view s \<and> r = view s k \<and>
    (\<forall>v. r = Some v \<longrightarrow> P k v))"
  by (rule returns_mono [OF get_view [OF assms(1)]]) (use assms(2) in \<open>auto simp: each_def\<close>)

lemma remove_each:
  assumes "invar s" and "each P s"
  shows "returns (remove k s) (\<lambda>s'. invar s' \<and> each P s' \<and> view s' = (view s)(k := None))"
  by (rule returns_mono [OF remove_view [OF assms(1)]])
    (use assms(2) in \<open>auto simp: each_def split: if_splits\<close>)

end

lemma map_of_without: "map_of (without k es) = (map_of es)(k := None)"
  by (induction es) (auto simp: without_def fun_eq_iff)

lemma map_of_butlast: "distinct (map fst es) \<Longrightarrow> map_of (butlast es) \<subseteq>\<^sub>m map_of es"
proof (cases es rule: rev_cases)
  case (snoc ys y)
  assume "distinct (map fst es)"
  then have "map_of ys (fst y) = None" using snoc by (simp add: map_of_eq_None_iff)
  then show ?thesis using snoc by (cases y) (auto simp: map_le_def map_add_def split: option.splits)
qed simp

lemma spec_put_view:
  assumes "distinct (map fst es)" and "spec_put n k v es = (ev, es')"
  shows "map_of es' \<subseteq>\<^sub>m (map_of es)(k \<mapsto> v) \<and> map_of es' k = Some v"
proof -
  let ?e = "(k, v) # without k es"
  have d: "distinct (map fst ?e)"
    using assms(1) by (auto simp: without_def distinct_map_filter)
  have v: "map_of ?e = (map_of es)(k \<mapsto> v)" by (simp add: map_of_without)
  consider "es' = ?e" | "es' = butlast ?e" "without k es \<noteq> []"
    using assms(2) by (auto simp: spec_put_def Let_def split: if_splits)
  then show ?thesis
  proof cases
    case 2
    then show ?thesis using map_of_butlast [OF d] v by simp
  qed (use v in simp)
qed

interpretation lru: cache_contract LRUCache_Put LRUCache_Get LRUCache_Remove "\<lambda>c. map_of (entries c)" lru_ok
proof unfold_locales
  fix c :: "('a::linorder, 'b) LRUCache" and k v
  assume ok: "lru_ok c"
  then have d: "distinct (map fst (entries c))" by (simp add: lru_ok_def lru_wf_def)
  show "returns (LRUCache_Put k v c) (\<lambda>c'. lru_ok c' \<and> map_of (entries c') \<subseteq>\<^sub>m (map_of (entries c))(k \<mapsto> v)
      \<and> map_of (entries c') k = Some v)"
  proof -
    obtain ev c' where c': "PutLocked k v c = Some (ev, c')" "lru_ok c'"
      "spec_put (unat (maxCount c)) k v (entries c) = (ev, entries c')"
      using PutLocked_ok [OF ok, of k v] by (cases "PutLocked k v c") (auto dest: sym)
    then show ?thesis using spec_put_view [OF d c'(3)] by (simp add: LRUCache_Put_def)
  qed
next
  fix c :: "('a::linorder, 'b) LRUCache" and k
  assume ok: "lru_ok c"
  show "returns (LRUCache_Get k c) (\<lambda>(r, c'). lru_ok c' \<and> r = map_of (entries c) k \<and> map_of (entries c') = map_of (entries c))"
    by (rule returns_mono [OF LRUCache_Get_ok [OF ok]])
      (auto simp: spec_get_def map_of_without fun_eq_iff split: option.splits)
  show "returns (LRUCache_Remove k c) (\<lambda>c'. lru_ok c' \<and> map_of (entries c') = (map_of (entries c))(k := None))"
    by (rule returns_mono [OF LRUCache_Remove_ok [OF ok]]) (simp add: map_of_without)
qed

text \<open>Only entries younger than the timeout leave the timed cache.\<close>

lemma timed_get_fresh:
  assumes "lru_ok (lruImp c)" and "Timed_Get now k c = Some (Some v, c')"
  shows "\<exists>item. map_of (entries (lruImp c)) k = Some item \<and> v = it_value item \<and>
    (timeout c = 0 \<or> now - it_time item < timeout c)"
  using lru.get_view [OF assms(1), of k] assms(2)
  by (auto simp: Timed_Get_def IsTimeout_def word_gt_0 not_le split: if_splits option.splits bind_splits)

text \<open>Without metrics, meeting an entry that timed out dereferences a null pointer.\<close>

lemma timed_get_null_metrics:
  assumes "lru_ok (lruImp c)" and "cacheMetrics (lruImp c) = None"
    and "map_of (entries (lruImp c)) k = Some item" and "IsTimeout now item c"
  shows "Timed_Get now k c = None"
  using LRUCache_Get_ok [OF assms(1), of k] assms(2-)
  by (cases "LRUCache_Get k (lruImp c)") (auto simp: Timed_Get_def spec_get_def)

subsection \<open>Properties\<close>

text \<open>C36: the LRU cache implements a list of entries in order of use. Every sequence of puts, gets and
  removes on a new cache runs without using a dangling position, returns what the list returns
  (including the values that puts eliminate), and leaves exactly the entries of the list, in its order.\<close>

theorem lru_refines:
  "returns (lru_run cmds (new_LRUCache max_count (Some no_metrics) count_bytes))
     (\<lambda>(rs, c). (rs, entries c) = spec_run (unat max_count) cmds [])"
proof -
  have "entries (new_LRUCache max_count (Some no_metrics) count_bytes) = []"
    "maxCount (new_LRUCache max_count (Some no_metrics) count_bytes) = max_count"
    by (simp_all add: new_LRUCache_def entries_def)
  then show ?thesis
    by (intro returns_mono [OF lru_run_ok [OF lru_ok_new]]) auto
qed

text \<open>C37: a cache created with a maximum never holds more entries than it, whatever is put into it, and
  its size and its metric always count the entries it holds.\<close>

theorem lru_bounded:
  "returns (lru_run cmds (new_LRUCache max_count (Some no_metrics) count_bytes))
     (\<lambda>(rs, c). (max_count = 0 \<or> LRUCache_Size c \<le> unat max_count) \<and>
        LRUCache_Size c = length (entries c) \<and>
        map_option cacheCount (cacheMetrics c) = Some (of_nat (LRUCache_Size c)))"
proof -
  let ?c = "new_LRUCache max_count (Some no_metrics) count_bytes"
  obtain rs c where c: "lru_run cmds ?c = Some (rs, c)" "lru_ok c" "maxCount c = max_count" "cacheMetrics c \<noteq> None"
    using lru_run_ok [OF lru_ok_new, of cmds max_count count_bytes]
    by (cases "lru_run cmds ?c") (auto simp: new_LRUCache_def)
  then show ?thesis using lru_size [OF c(2)] by (auto simp: lru_ok_def lru_wf_def entries_def)
qed

end
