(* ===== verification/Objects.thy ===== *)
theory Objects
  imports Lru NamespaceOps
begin

text \<open>
  The objects a metadata server keeps in memory: \<^verbatim>\<open>mdsv2/filesystem/inode.{h,cc}\<close>, the weak pointer
  of \<^verbatim>\<open>dentry.{h,cc}\<close>, \<^verbatim>\<open>partition.{h,cc}\<close> (a directory with its entries) and the two caches over them.
  Inodes and partitions are shared by pointer and updated in place: a pointer is an index into a list of
  objects.
\<close>

subsection \<open>Inodes\<close>

text \<open>
  An inode object is its attributes under a lock. The accessors of \<^verbatim>\<open>Inode\<close> are the fields of
  \<open>AttrType\<close>; those that compute follow.
\<close>

definition XAttr :: "bytes \<Rightarrow> AttrType \<Rightarrow> bytes" where
  "XAttr name attr = (case om_find (at_xattrs attr) name of Some v \<Rightarrow> v | None \<Rightarrow> [])"

definition Inode_Chunk :: "u64 \<Rightarrow> AttrType \<Rightarrow> Chunk option" where
  "Inode_Chunk index attr = om_find (at_chunks attr) index"

definition UpdateIf :: "AttrType \<Rightarrow> AttrType \<Rightarrow> bool \<times> AttrType" where
  "UpdateIf attr old = (if at_version attr \<le> at_version old then (False, old) else (True, attr))"

subsection \<open>Partitions\<close>

text \<open>A directory entry in memory: the fields of \<^verbatim>\<open>Dentry\<close> and its weak pointer \<^verbatim>\<open>inode_\<close>.\<close>

type_synonym CachedDentry = "Dentry \<times> nat option"

record Partition =
  parent_inode :: nat
  children :: "(bytes, CachedDentry) omap"

definition new_Partition :: "nat \<Rightarrow> Partition" where
  "new_Partition parent = \<lparr>parent_inode = parent, children = []\<rparr>"

definition PutChild :: "CachedDentry \<Rightarrow> Partition \<Rightarrow> Partition" where
  "PutChild dentry p = p\<lparr>children := om_insert (d_name (fst dentry)) dentry (children p)\<rparr>"

definition DeleteChild :: "bytes \<Rightarrow> Partition \<Rightarrow> Partition" where
  "DeleteChild name p = p\<lparr>children := om_erase name (children p)\<rparr>"

definition HasChild :: "Partition \<Rightarrow> bool" where
  "HasChild p = (children p \<noteq> [])"

definition GetChild :: "bytes \<Rightarrow> Partition \<Rightarrow> CachedDentry option" where
  "GetChild name p = om_find (children p) name"

definition GetChildren :: "bytes \<Rightarrow> u32 \<Rightarrow> bool \<Rightarrow> Partition \<Rightarrow> CachedDentry list" where
  "GetChildren start_name limit is_only_dir p =
     take (unat limit)
       (filter (\<lambda>dentry. \<not> (is_only_dir \<and> d_type (fst dentry) \<noteq> DIRECTORY))
         (map snd (om_upper_bound start_name (children p))))"

definition GetAllChildren :: "Partition \<Rightarrow> CachedDentry list" where
  "GetAllChildren p = map snd (children p)"

subsection \<open>The caches\<close>

definition FLAGS_inode_cache_max_count :: u64 where
  "FLAGS_inode_cache_max_count = 0"

definition FLAGS_partition_cache_max_count :: u64 where
  "FLAGS_partition_cache_max_count = 0"

type_synonym InodeCache = "(u64, nat) LRUCache"
type_synonym PartitionCache = "(u64, nat) LRUCache"

definition new_InodeCache :: InodeCache where
  "new_InodeCache = new_LRUCache FLAGS_inode_cache_max_count (Some no_metrics) (\<lambda>_ _. 24)"

definition PutInode :: "u64 \<Rightarrow> nat \<Rightarrow> InodeCache \<Rightarrow> InodeCache option" where
  "PutInode ino inode c = LRUCache_Put ino inode c"

definition DeleteInode :: "u64 \<Rightarrow> InodeCache \<Rightarrow> InodeCache option" where
  "DeleteInode ino c = LRUCache_Remove ino c"

definition InodeCache_GetInode :: "u64 \<Rightarrow> InodeCache \<Rightarrow> (nat option \<times> InodeCache) option" where
  "InodeCache_GetInode ino c = LRUCache_Get ino c"

fun GetInodes :: "u64 list \<Rightarrow> InodeCache \<Rightarrow> (nat list \<times> InodeCache) option" where
  "GetInodes [] c = Some ([], c)"
| "GetInodes (ino # inoes) c = do {
     (inode, c) \<leftarrow> LRUCache_Get ino c;
     (inodes, c) \<leftarrow> GetInodes inoes c;
     Some ((case inode of Some a \<Rightarrow> [a] | None \<Rightarrow> []) @ inodes, c)
   }"

definition GetAllInodes :: "InodeCache \<Rightarrow> (u64, nat) omap option" where
  "GetAllInodes c = LRUCache_GetAll c"

definition new_PartitionCache :: PartitionCache where
  "new_PartitionCache = new_LRUCache FLAGS_partition_cache_max_count (Some no_metrics) (\<lambda>_ _. 24)"

definition PartitionCache_Put :: "u64 \<Rightarrow> nat \<Rightarrow> PartitionCache \<Rightarrow> PartitionCache option" where
  "PartitionCache_Put ino part c = LRUCache_Put ino part c"

definition PartitionCache_Delete :: "u64 \<Rightarrow> PartitionCache \<Rightarrow> PartitionCache option" where
  "PartitionCache_Delete ino c = LRUCache_Remove ino c"

definition PartitionCache_Get :: "u64 \<Rightarrow> PartitionCache \<Rightarrow> (nat option \<times> PartitionCache) option" where
  "PartitionCache_Get ino c = LRUCache_Get ino c"

definition PartitionCache_GetAll :: "PartitionCache \<Rightarrow> (u64, nat) omap option" where
  "PartitionCache_GetAll c = LRUCache_GetAll c"

end
