(* ===== verification/Sessions.thy ===== *)
theory Sessions
  imports Isolation
begin

text \<open>
  \<^verbatim>\<open>mdsv2/filesystem/file_session.{h,cc}\<close>: the sessions of clients on open files, in the store and in a
  cache in memory. The locks are the atomicity of each operation, the metrics are integers.
\<close>

subsection \<open>Sessions\<close>

text \<open>The object has the fields of the message; \<^verbatim>\<open>New\<close> leaves the creation time out.\<close>

definition new_FileSession :: "u32 \<Rightarrow> bytes \<Rightarrow> u64 \<Rightarrow> bytes \<Rightarrow> FileSession" where
  "new_FileSession fs_id session_id ino client_id =
     \<lparr>fs_session_id = session_id, fs_sess_fs_id = fs_id, fs_sess_ino = ino,
      fs_sess_client_id = client_id, fs_sess_create_time_s = 0\<rparr>"

definition FileSession_of_pb :: "u32 \<Rightarrow> FileSession \<Rightarrow> FileSession" where
  "FileSession_of_pb fs_id file_session =
     new_FileSession fs_id (fs_session_id file_session) (fs_sess_ino file_session)
       (fs_sess_client_id file_session)"

definition FileSession_EncodeKey :: "FileSession \<Rightarrow> bytes" where
  "FileSession_EncodeKey s = EncodeFileSessionKey (fs_sess_fs_id s) (fs_sess_ino s) (fs_session_id s)"

definition FileSession_EncodeValue :: "'v pb \<Rightarrow> FileSession \<Rightarrow> 'v" where
  "FileSession_EncodeValue pb s =
     EncodeFileSessionValue pb
       \<lparr>fs_session_id = fs_session_id s, fs_sess_fs_id = 0, fs_sess_ino = fs_sess_ino s,
        fs_sess_client_id = fs_sess_client_id s, fs_sess_create_time_s = 0\<rparr>"

subsection \<open>FileSessionCache\<close>

datatype SessionKey = SessionKey (sk_ino: u64) (sk_session_id: bytes)

instantiation SessionKey :: linorder
begin

definition less_SessionKey :: "SessionKey \<Rightarrow> SessionKey \<Rightarrow> bool" where
  "less_SessionKey a b =
     (if sk_ino a \<noteq> sk_ino b then sk_ino a < sk_ino b else sk_session_id a < sk_session_id b)"

definition less_eq_SessionKey :: "SessionKey \<Rightarrow> SessionKey \<Rightarrow> bool" where
  "less_eq_SessionKey a b = (a < b \<or> a = b)"

instance
  by standard
    (auto simp: less_SessionKey_def less_eq_SessionKey_def SessionKey.expand not_less
      order.order_iff_strict split: if_splits)

end

record FileSessionCache =
  file_session_map :: "(SessionKey, FileSession) omap"
  cache_count_metrics :: int

definition session_key :: "FileSession \<Rightarrow> SessionKey" where
  "session_key s = SessionKey (fs_sess_ino s) (fs_session_id s)"

definition FileSessionCache_Put :: "FileSession \<Rightarrow> FileSessionCache \<Rightarrow> bool \<times> FileSessionCache" where
  "FileSessionCache_Put s c =
     (if om_find (file_session_map c) (session_key s) \<noteq> None then (False, c)
      else (True, c\<lparr>file_session_map := om_insert (session_key s) s (file_session_map c),
                    cache_count_metrics := cache_count_metrics c + 1\<rparr>))"

definition Upsert :: "FileSession \<Rightarrow> FileSessionCache \<Rightarrow> FileSessionCache" where
  "Upsert s c =
     c\<lparr>file_session_map := om_insert (session_key s) s (file_session_map c),
       cache_count_metrics :=
         (if om_find (file_session_map c) (session_key s) = None then cache_count_metrics c + 1
          else cache_count_metrics c)\<rparr>"

text \<open>The counter goes down also when there was no such session.\<close>

definition FileSessionCache_Delete :: "u64 \<Rightarrow> bytes \<Rightarrow> FileSessionCache \<Rightarrow> FileSessionCache" where
  "FileSessionCache_Delete ino session_id c =
     c\<lparr>file_session_map := om_erase (SessionKey ino session_id) (file_session_map c),
       cache_count_metrics := cache_count_metrics c - 1\<rparr>"

text \<open>The sessions of a file from the upper bound of the empty identifier on, as the loops visit them.\<close>

definition sessions_from :: "u64 \<Rightarrow> FileSessionCache \<Rightarrow> (SessionKey, FileSession) omap" where
  "sessions_from ino c =
     takeWhile (\<lambda>e. sk_ino (fst e) = ino) (om_upper_bound (SessionKey ino []) (file_session_map c))"

definition FileSessionCache_Delete_ino :: "u64 \<Rightarrow> FileSessionCache \<Rightarrow> FileSessionCache" where
  "FileSessionCache_Delete_ino ino c =
     fold (\<lambda>e c. c\<lparr>file_session_map := om_erase (fst e) (file_session_map c),
                   cache_count_metrics := cache_count_metrics c - 1\<rparr>) (sessions_from ino c) c"

definition FileSessionCache_Get :: "u64 \<Rightarrow> bytes \<Rightarrow> FileSessionCache \<Rightarrow> FileSession option" where
  "FileSessionCache_Get ino session_id c = om_find (file_session_map c) (SessionKey ino session_id)"

definition FileSessionCache_Get_ino :: "u64 \<Rightarrow> FileSessionCache \<Rightarrow> FileSession list" where
  "FileSessionCache_Get_ino ino c = map snd (sessions_from ino c)"

definition FileSessionCache_IsExist_ino :: "u64 \<Rightarrow> FileSessionCache \<Rightarrow> bool" where
  "FileSessionCache_IsExist_ino ino c = (om_upper_bound (SessionKey ino []) (file_session_map c) \<noteq> [])"

definition FileSessionCache_IsExist :: "u64 \<Rightarrow> bytes \<Rightarrow> FileSessionCache \<Rightarrow> bool" where
  "FileSessionCache_IsExist ino session_id c =
     (om_find (file_session_map c) (SessionKey ino session_id) \<noteq> None)"

subsection \<open>Scans in batches\<close>

text \<open>
  \<^verbatim>\<open>do { Scan } while (kvs.size() >= FLAGS_fs_scan_batch_size)\<close>, which leaves the loop at an error with
  what it has. The range does not move, so that a full batch is read for ever.
\<close>

partial_function (option) scan_batches ::
    "(unit \<Rightarrow> Status + 'v KeyValue list) \<Rightarrow> nat \<Rightarrow> ('v KeyValue list \<Rightarrow> 'a list option) \<Rightarrow> 'a list
      \<Rightarrow> (Status \<times> 'a list) option" where
  "scan_batches scan batch body acc =
     (case scan () of
        Inl status \<Rightarrow> Some (status, acc)
      | Inr kvs \<Rightarrow> do {
          xs \<leftarrow> body kvs;
          if length kvs \<ge> batch then scan_batches scan batch body (acc @ xs)
          else Some (OK, acc @ xs)
        })"

text \<open>\<^verbatim>\<open>push_back\<close> of every value of a batch.\<close>

fun decode_all :: "('v \<Rightarrow> 'a option) \<Rightarrow> 'v KeyValue list \<Rightarrow> 'a list option" where
  "decode_all dec [] = Some []"
| "decode_all dec (kv # kvs) = do {
     x \<leftarrow> dec (kv_value kv);
     xs \<leftarrow> decode_all dec kvs;
     Some (x # xs)
   }"

subsection \<open>FileSessionManager\<close>

record FileSessionManager =
  fm_fs_id :: u32
  file_session_cache :: FileSessionCache
  fm_total_count_metrics :: int
  fm_count_metrics :: int

definition new_FileSessionManager :: "u32 \<Rightarrow> FileSessionManager" where
  "new_FileSessionManager fs_id =
     \<lparr>fm_fs_id = fs_id, file_session_cache = \<lparr>file_session_map = [], cache_count_metrics = 0\<rparr>,
      fm_total_count_metrics = 0, fm_count_metrics = 0\<rparr>"

definition FileSessionManager_Create ::
    "'v pb \<Rightarrow> ('c, 'v) Sdk \<Rightarrow> bytes \<Rightarrow> u64 \<Rightarrow> bytes \<Rightarrow> FileSessionManager \<Rightarrow> 'c
      \<Rightarrow> ((Status + FileSession) \<times> FileSessionManager \<times> 'c) option" where
  "FileSessionManager_Create pb sdk uuid ino client_id fm c = do {
     let file_session = new_FileSession (fm_fs_id fm) uuid ino client_id;
     (status, c) \<leftarrow> DingodbStorage_Put sdk \<lparr>is_if_absent = False\<rparr>
        (FileSession_EncodeKey file_session) (FileSession_EncodeValue pb file_session) c;
     if \<not> ok status then Some (Inl status, fm, c)
     else do {
       let (b, sc) = FileSessionCache_Put file_session (file_session_cache fm);
       CHECK b;
       Some (Inr file_session,
         fm\<lparr>file_session_cache := sc, fm_total_count_metrics := fm_total_count_metrics fm + 1,
            fm_count_metrics := fm_count_metrics fm + 1\<rparr>, c)
     }
   }"

definition GetFileSessionFromStore ::
    "'v pb \<Rightarrow> ('c, 'v) Sdk \<Rightarrow> u64 \<Rightarrow> bytes \<Rightarrow> FileSessionManager \<Rightarrow> 'c
      \<Rightarrow> ((Status + FileSession) \<times> 'c) option" where
  "GetFileSessionFromStore pb sdk ino session_id fm c = do {
     (r, c) \<leftarrow> DingodbStorage_Get sdk (EncodeFileSessionKey (fm_fs_id fm) ino session_id) c;
     case r of
       Inl status \<Rightarrow> Some (Inl status, c)
     | Inr v \<Rightarrow> do {
         file_session \<leftarrow> DecodeFileSessionValue pb v;
         Some (Inr (FileSession_of_pb (fm_fs_id fm) file_session), c)
       }
   }"

text \<open>A scan that fails is logged; the status is \<^verbatim>\<open>OK\<close> all the same.\<close>

definition GetFileSessionsFromStore ::
    "'v pb \<Rightarrow> ('c, 'v) Sdk \<Rightarrow> u64 \<Rightarrow> FileSessionManager \<Rightarrow> 'c \<Rightarrow> (FileSession list \<times> 'c) option" where
  "GetFileSessionsFromStore pb sdk ino fm c = do {
     let (s, e) = GetFileSessionRange (fm_fs_id fm) ino;
     txn \<leftarrow> DingodbStorage_NewTxn sdk c;
     (_, file_sessions) \<leftarrow> scan_batches
        (\<lambda>_. Scan (DingodbTxn sdk) \<lparr>start_key = s, end_key = e\<rparr> (of_nat FLAGS_fs_scan_batch_size) txn)
        FLAGS_fs_scan_batch_size (decode_all (DecodeFileSessionValue pb)) [];
     Some (map (FileSession_of_pb (fm_fs_id fm)) file_sessions, sdk_txn txn)
   }"

definition IsExistFromStore ::
    "('c, 'v) Sdk \<Rightarrow> u64 \<Rightarrow> FileSessionManager \<Rightarrow> 'c \<Rightarrow> ((Status + bool) \<times> 'c) option" where
  "IsExistFromStore sdk ino fm c = do {
     let (s, e) = GetFileSessionRange (fm_fs_id fm) ino;
     txn \<leftarrow> DingodbStorage_NewTxn sdk c;
     Some (map_sum (\<lambda>status. status) (\<lambda>kvs. kvs \<noteq> [])
       (Scan (DingodbTxn sdk) \<lparr>start_key = s, end_key = e\<rparr> 1 txn), sdk_txn txn)
   }"

definition FileSessionManager_Get ::
    "'v pb \<Rightarrow> ('c, 'v) Sdk \<Rightarrow> u64 \<Rightarrow> bytes \<Rightarrow> bool \<Rightarrow> FileSessionManager \<Rightarrow> 'c
      \<Rightarrow> (FileSession option \<times> FileSessionManager \<times> 'c) option" where
  "FileSessionManager_Get pb sdk ino session_id just_cache fm c =
     (case FileSessionCache_Get ino session_id (file_session_cache fm) of
        Some file_session \<Rightarrow> Some (Some file_session, fm, c)
      | None \<Rightarrow>
          if just_cache then Some (None, fm, c)
          else do {
            (r, c) \<leftarrow> GetFileSessionFromStore pb sdk ino session_id fm c;
            case r of
              Inl status \<Rightarrow> Some (None, fm, c)
            | Inr file_session \<Rightarrow> do {
                let (b, sc) = FileSessionCache_Put file_session (file_session_cache fm);
                CHECK b;
                Some (Some file_session, fm\<lparr>file_session_cache := sc\<rparr>, c)
              }
          })"

definition FileSessionManager_Get_ino ::
    "'v pb \<Rightarrow> ('c, 'v) Sdk \<Rightarrow> u64 \<Rightarrow> bool \<Rightarrow> FileSessionManager \<Rightarrow> 'c \<Rightarrow> (FileSession list \<times> 'c) option" where
  "FileSessionManager_Get_ino pb sdk ino just_cache fm c =
     (let file_sessions = FileSessionCache_Get_ino ino (file_session_cache fm) in
      if file_sessions \<noteq> [] \<or> just_cache then Some (file_sessions, c)
      else GetFileSessionsFromStore pb sdk ino fm c)"

definition FileSessionManager_IsExist ::
    "('c, 'v) Sdk \<Rightarrow> u64 \<Rightarrow> bool \<Rightarrow> FileSessionManager \<Rightarrow> 'c \<Rightarrow> ((Status + bool) \<times> 'c) option" where
  "FileSessionManager_IsExist sdk ino just_cache fm c =
     (if FileSessionCache_IsExist_ino ino (file_session_cache fm) then Some (Inr True, c)
      else if just_cache then Some (Inl ENOT_FOUND, c)
      else IsExistFromStore sdk ino fm c)"

definition FileSessionManager_Delete ::
    "('c, 'v) Sdk \<Rightarrow> u64 \<Rightarrow> bytes \<Rightarrow> FileSessionManager \<Rightarrow> 'c \<Rightarrow> (Status \<times> FileSessionManager \<times> 'c) option" where
  "FileSessionManager_Delete sdk ino session_id fm c = do {
     (status, c) \<leftarrow> DingodbStorage_Delete sdk (EncodeFileSessionKey (fm_fs_id fm) ino session_id) c;
     if \<not> ok status then Some (status, fm, c)
     else Some (OK, fm\<lparr>file_session_cache := FileSessionCache_Delete ino session_id (file_session_cache fm),
                       fm_count_metrics := fm_count_metrics fm - 1\<rparr>, c)
   }"

text \<open>One attempt to delete the sessions of a file from the store, and the operation.\<close>

fun delete_keys :: "('t, 'v) Txn \<Rightarrow> bytes list \<Rightarrow> 't \<Rightarrow> 't option" where
  "delete_keys T [] t = Some t"
| "delete_keys T (k # ks) t = do { t \<leftarrow> tx_delete T k t; delete_keys T ks t }"

definition delete_attempt ::
    "('c, 'v) Sdk \<Rightarrow> (nat \<Rightarrow> 'c \<Rightarrow> 'c) \<Rightarrow> bytes list \<Rightarrow> nat \<Rightarrow> unit \<Rightarrow> 'c
      \<Rightarrow> (bool \<times> Status \<times> unit \<times> 'c) option" where
  "delete_attempt sdk env keys retry r c = do {
     txn \<leftarrow> DingodbStorage_NewTxn sdk c;
     txn \<leftarrow> delete_keys (DingodbTxn sdk) keys txn;
     let txn = txn\<lparr>sdk_txn := env retry (sdk_txn txn)\<rparr>;
     let (status, txn) = Commit (DingodbTxn sdk) txn;
     Some (status = ESTORE_MAYBE_RETRY, status, (), sdk_txn txn)
   }"

definition FileSessionManager_Delete_ino ::
    "'v pb \<Rightarrow> ('c, 'v) Sdk \<Rightarrow> (nat \<Rightarrow> 'c \<Rightarrow> 'c) \<Rightarrow> u64 \<Rightarrow> FileSessionManager \<Rightarrow> 'c
      \<Rightarrow> (Status \<times> FileSessionManager \<times> 'c) option" where
  "FileSessionManager_Delete_ino pb sdk env ino fm c = do {
     (file_sessions, c) \<leftarrow> GetFileSessionsFromStore pb sdk ino fm c;
     if file_sessions = [] then Some (OK, fm, c)
     else do {
       (status, _, c) \<leftarrow> txn_loop (delete_attempt sdk env (map FileSession_EncodeKey file_sessions))
          FLAGS_txn_max_retry_times 0 () c;
       Some (status,
         (if ok status
          then fm\<lparr>file_session_cache := FileSessionCache_Delete_ino ino (file_session_cache fm),
                  fm_count_metrics := fm_count_metrics fm + (0 - int (length file_sessions))\<rparr>
          else fm), c)
     }
   }"

end
