(* ===== verification/Results.thy ===== *)
theory Results
  imports Batch
begin

text \<open>
  What an operation hands back to the request that started it: the result members of the operation
  classes of \<^verbatim>\<open>mdsv2/filesystem/store_operation.h\<close>, the transaction loop with the results it leaves, and
  \<^verbatim>\<open>RunOperation\<close> of \<^verbatim>\<open>mdsv2/filesystem/filesystem.cc\<close>, which runs an operation in its own transaction
  or through the queue of the processor.
\<close>

subsection \<open>Results\<close>

text \<open>The members of all \<^verbatim>\<open>Result\<close> structures; the status is returned beside them.\<close>

record OpResult =
  or_attr :: AttrType
  or_child_attr :: AttrType
  or_length_delta :: u64
  or_rename :: RenameResult
  or_trash_slice_list :: TrashSliceList
  or_fs_info :: FsInfoType
  or_quota :: QuotaEntry
  or_quotas :: "(u64, QuotaEntry) omap"
  or_mds_entries :: "MdsEntry list"
  or_client_entries :: "ClientEntry list"

definition default_result :: OpResult where
  "default_result =
     \<lparr>or_attr = default_attr, or_child_attr = default_attr, or_length_delta = 0,
      or_rename = \<lparr>rr_old_parent_attr = default_attr, rr_new_parent_attr = default_attr,
         rr_old_dentry = default_dentry, rr_prev_new_dentry = default_dentry,
         rr_prev_new_attr = default_attr, rr_new_dentry = default_dentry,
         rr_old_attr = default_attr, rr_is_same_parent = False, rr_is_exist_new_dentry = False\<rparr>,
      or_trash_slice_list = [], or_fs_info = default_fs_info, or_quota = default_quota,
      or_quotas = [], or_mds_entries = [], or_client_entries = []\<rparr>"

text \<open>A run that succeeds stores its result, one that fails leaves the members as they are.\<close>

definition store_result ::
    "('r \<Rightarrow> OpResult \<Rightarrow> OpResult) \<Rightarrow> OpResult \<Rightarrow> ((Status + 'r) \<times> 't) option
      \<Rightarrow> (Status \<times> OpResult \<times> 't) option" where
  "store_result put res m =
     map_option (\<lambda>(r, t). case r of Inl status \<Rightarrow> (status, res, t) | Inr x \<Rightarrow> (OK, put x res, t)) m"

definition no_result :: "'r \<Rightarrow> OpResult \<Rightarrow> OpResult" where
  "no_result _ res = res"

definition put_link :: "AttrType \<times> AttrType \<Rightarrow> OpResult \<Rightarrow> OpResult" where
  "put_link x res = res\<lparr>or_attr := fst x, or_child_attr := snd x\<rparr>"

definition put_compact :: "TrashSliceList \<times> AttrType \<Rightarrow> OpResult \<Rightarrow> OpResult" where
  "put_compact x res = res\<lparr>or_trash_slice_list := fst x, or_attr := snd x\<rparr>"

definition put_quotas :: "(u64, QuotaEntry) omap \<Rightarrow> OpResult \<Rightarrow> OpResult" where
  "put_quotas quotas res = res\<lparr>or_quotas := fold (\<lambda>(ino, quota). om_insert ino quota) quotas (or_quotas res)\<rparr>"

text \<open>The virtual \<^verbatim>\<open>Run\<close> with the result members.\<close>

fun RunResult :: "'v pb \<Rightarrow> ('t, 'v) Txn \<Rightarrow> Operation \<Rightarrow> OpResult \<Rightarrow> 't \<Rightarrow> (Status \<times> OpResult \<times> 't) option" where
  "RunResult pb T (DeleteFsOperation now fs_name force) res t =
     store_result (\<lambda>x. or_fs_info_update (\<lambda>_. x)) res (DeleteFsOperation_Run pb T now fs_name force t)"
| "RunResult pb T (HardLinkOperation time dentry) res t =
     store_result put_link res (HardLinkOperation_Run pb T time dentry t)"
| "RunResult pb T (RmDirOperation time dentry) res t =
     store_result (\<lambda>x. or_attr_update (\<lambda>_. x)) res (RmDirOperation_Run pb T time dentry t)"
| "RunResult pb T (UnlinkOperation time dentry) res t =
     store_result put_link res (UnlinkOperation_Run pb T time dentry t)"
| "RunResult pb T (RenameOperation time fs_id op on np nn) res t =
     store_result (\<lambda>x. or_rename_update (\<lambda>_. x)) res (RenameOperation_Run pb T time fs_id op on np nn t)"
| "RunResult pb T (CompactChunkOperation now fs_info ino index) res t =
     store_result put_compact res (CompactChunkOperation_Run pb T now fs_info ino index t)"
| "RunResult pb T (GetFsQuotaOperation fs_id) res t =
     store_result (\<lambda>x. or_quota_update (\<lambda>_. x)) res (GetFsQuotaOperation_Run pb T fs_id t)"
| "RunResult pb T (FlushFsUsageOperation fs_id usage) res t =
     store_result (\<lambda>x. or_quota_update (\<lambda>_. x)) res (FlushFsUsageOperation_Run pb T fs_id usage t)"
| "RunResult pb T (GetDirQuotaOperation fs_id ino) res t =
     store_result (\<lambda>x. or_quota_update (\<lambda>_. x)) res (GetDirQuotaOperation_Run pb T fs_id ino t)"
| "RunResult pb T (LoadDirQuotasOperation fs_id) res t =
     store_result put_quotas res (LoadDirQuotasOperation_Run pb T fs_id t)"
| "RunResult pb T (FlushDirUsagesOperation fs_id usages) res t =
     store_result put_quotas res (FlushDirUsagesOperation_Run pb T fs_id usages t)"
| "RunResult pb T ScanMdsOperation res t =
     store_result (\<lambda>x. or_mds_entries_update (\<lambda>es. es @ x)) res (ScanMdsOperation_Run pb T t)"
| "RunResult pb T ScanClientOperation res t =
     store_result (\<lambda>x. or_client_entries_update (\<lambda>es. es @ x)) res (ScanClientOperation_Run pb T t)"
| "RunResult pb T operation res t = map_option (\<lambda>(status, t). (status, res, t)) (Run pb T operation t)"

text \<open>One attempt of \<^verbatim>\<open>RunAlone\<close>, and the loop, with the result members.\<close>

definition result_attempt ::
    "('c, 'v) Sdk \<Rightarrow> (nat \<Rightarrow> 'c \<Rightarrow> 'c) \<Rightarrow> (OpResult \<Rightarrow> 'c DingodbTxn \<Rightarrow> (Status \<times> OpResult \<times> 'c DingodbTxn) option)
      \<Rightarrow> nat \<Rightarrow> OpResult \<Rightarrow> 'c \<Rightarrow> (bool \<times> Status \<times> OpResult \<times> 'c) option" where
  "result_attempt sdk env run retry res c = do {
     txn \<leftarrow> DingodbStorage_NewTxn sdk c;
     (status, res, txn) \<leftarrow> run res txn;
     let txn = txn\<lparr>sdk_txn := env retry (sdk_txn txn)\<rparr>;
     if \<not> ok status then Some (False, status, res, sdk_txn txn)
     else let (status, txn) = Commit (DingodbTxn sdk) txn
          in Some (status = ESTORE_MAYBE_RETRY, status, res, sdk_txn txn)
   }"

definition RunAlone_result ::
    "'v pb \<Rightarrow> ('c, 'v) Sdk \<Rightarrow> (nat \<Rightarrow> 'c \<Rightarrow> 'c) \<Rightarrow> Operation \<Rightarrow> 'c \<Rightarrow> (Status \<times> OpResult \<times> 'c) option" where
  "RunAlone_result pb sdk env operation c =
     txn_loop (result_attempt sdk env (RunResult pb (DingodbTxn sdk) operation))
       FLAGS_txn_max_retry_times 0 default_result c"

subsection \<open>Running an operation\<close>

text \<open>
  What the surroundings do while a request runs its operation: the other clients of the store between
  the reads and the commit of each attempt, whether the processor has been stopped, and the
  operations of other requests that the processor finds in its queue before and after this one.
\<close>

record 'c Surroundings =
  su_env :: "nat \<Rightarrow> 'c \<Rightarrow> 'c"
  su_stop :: bool
  su_before :: "Operation list"
  su_after :: "Operation list"

text \<open>The place of an operation in the results of its batch, after the queued operations \<open>before\<close>.\<close>

definition batch_place :: "Operation list \<Rightarrow> Operation \<Rightarrow> BatchOperation \<Rightarrow> nat" where
  "batch_place before operation batch =
     (let same = filter (\<lambda>x. Key (GetFsId x) (GetIno x) = Key (GetFsId operation) (GetIno operation)) before
      in if IsCreateType operation
         then length (setattr_operations batch) + length (filter IsCreateType same)
         else length (filter (\<lambda>x. \<not> IsCreateType x) same))"

definition RunOperation ::
    "'v pb \<Rightarrow> ('c, 'v) Sdk \<Rightarrow> 'c Surroundings \<Rightarrow> Operation \<Rightarrow> 'c \<Rightarrow> (Status \<times> OpResult \<times> 'c) option" where
  "RunOperation pb sdk su operation c =
     (if \<not> IsBatchRun operation then RunAlone_result pb sdk (su_env su) operation c
      else if su_stop su then Some (EINTERNAL, default_result, c)
      else do {
        batches \<leftarrow> Grouping (su_before su @ operation # su_after su);
        batch \<leftarrow> om_find batches (Key (GetFsId operation) (GetIno operation));
        (results, c) \<leftarrow> ExecuteBatchOperation pb sdk (su_env su) batch c;
        let place = batch_place (su_before su) operation batch;
        CHECK (place < length results);
        let r = results ! place;
        Some (res_status r, default_result\<lparr>or_attr := res_attr r, or_length_delta := res_length_delta r\<rparr>, c)
      })"

definition quiet :: "'c Surroundings" where
  "quiet = \<lparr>su_env = (\<lambda>_ c. c), su_stop = False, su_before = [], su_after = []\<rparr>"

subsection \<open>The results are those of the run\<close>

lemma store_result_status:
  "map_option (\<lambda>(st, _, t). (st, t)) (store_result put res m) = status_of m"
  by (cases m) (auto simp: store_result_def status_of_def split: sum.splits)

lemma RunResult_status:
  "map_option (\<lambda>(st, _, t). (st, t)) (RunResult pb T operation res t) = Run pb T operation t"
proof (cases operation)
qed (simp_all add: store_result_status option.map_comp o_def case_prod_beta option.map_ident)

lemma map_option_pair_Some:
  "map_option (\<lambda>(st, _, t). (st, t)) m = Some (a, b) \<longleftrightarrow> (\<exists>r. m = Some (a, r, b))"
  by (cases m) auto

text \<open>Forgetting the results gives the loop of the processor.\<close>

lemma txn_loop_forget:
  assumes "\<And>i r c. map_option (\<lambda>(again, st, _, c). (again, st, (), c)) (attempt i r c) = attempt' i () c"
  shows "map_option (\<lambda>(st, _, c). (st, (), c)) (txn_loop attempt n i r c) = txn_loop attempt' n i () c"
  using assms
proof (induction attempt n i r c rule: txn_loop.induct)
  case (1 attempt n i r c)
  show ?case
  proof (cases "attempt i r c")
    case None
    then have "attempt' i () c = None" using "1.prems" [of i r c] by simp
    then show ?thesis by (simp add: txn_loop.simps [of _ _ i] None)
  next
    case (Some y)
    obtain again st r1 c1 where y: "y = (again, st, r1, c1)" by (cases y)
    have a: "attempt' i () c = Some (again, st, (), c1)" using "1.prems" [of i r c] Some y by simp
    have "map_option (\<lambda>(st, _, c). (st, (), c)) (txn_loop attempt n (Suc i) r1 c1) = txn_loop attempt' n (Suc i) () c1"
      if "again" "Suc i < n"
      using "1.IH" [OF Some y [symmetric] refl refl] that "1.prems" by simp
    then show ?thesis by (simp add: txn_loop.simps [of _ _ i] a Some y)
  qed
qed

lemma result_attempt_forget:
  assumes "\<And>r t. map_option (\<lambda>(st, _, t). (st, t)) (run r t) = run' t"
  shows "map_option (\<lambda>(again, st, _, c). (again, st, (), c)) (result_attempt sdk env run i r c)
    = alone_attempt sdk env run' i () c"
proof (cases "DingodbStorage_NewTxn sdk c")
  case (Some t)
  show ?thesis using assms [of r t, symmetric]
    by (cases "run r t") (auto simp: result_attempt_def alone_attempt_def Some Let_def split: prod.splits)
qed (simp add: result_attempt_def alone_attempt_def)

lemma RunAlone_result_status:
  "map_option (\<lambda>(st, _, c). (st, c)) (RunAlone_result pb sdk env operation c) = RunAlone pb sdk env operation c"
proof -
  let ?m = "txn_loop (result_attempt sdk env (RunResult pb (DingodbTxn sdk) operation)) FLAGS_txn_max_retry_times 0 default_result c"
  have "map_option (\<lambda>(st, _, c). (st, (), c)) ?m
    = txn_loop (alone_attempt sdk env (Run pb (DingodbTxn sdk) operation)) FLAGS_txn_max_retry_times 0 () c"
    by (intro txn_loop_forget result_attempt_forget RunResult_status)
  from arg_cong [OF this, of "map_option (\<lambda>(st, _, c). (st, c))"]
  show ?thesis by (simp add: RunAlone_result_def RunAlone_def option.map_comp o_def case_prod_unfold)
qed

text \<open>How a run with a result can end: as \<open>alone_outcome\<close>, with the result of the last attempt.\<close>

definition result_outcome ::
    "((bytes \<rightharpoonup> 'v) \<Rightarrow> Status \<Rightarrow> OpResult \<Rightarrow> (bytes \<rightharpoonup> 'v) \<Rightarrow> bool) \<Rightarrow> (bytes \<rightharpoonup> 'v) \<Rightarrow> (bytes \<rightharpoonup> 'v)
      \<Rightarrow> (bytes \<rightharpoonup> 'v) \<Rightarrow> Status \<Rightarrow> OpResult \<Rightarrow> (bytes \<rightharpoonup> 'v) \<Rightarrow> bool" where
  "result_outcome Post d v d1 st res d' \<longleftrightarrow>
     (if st = OK then Post d OK res v \<and> d' = merged d v d1 \<and> (\<forall>k. v k \<noteq> d k \<longrightarrow> d1 k = d k)
      else d' = d1 \<or> Post d OK res v \<and> d' = merged d v d1 \<and> (\<forall>k. v k \<noteq> d k \<longrightarrow> d1 k = d k))"

context si_contract
begin

lemma result_attempt_post:
  assumes c: "si_client S c" and iso: "isolated S env"
    and run: "\<And>t st res' t'. in_txn S (si_db S c) (sdk_txn t) \<Longrightarrow> si_view S (sdk_txn t) = si_db S c \<Longrightarrow>
      run res t = Some (st, res', t') \<Longrightarrow> in_txn S (si_db S c) (sdk_txn t') \<and> Post (si_db S c) st res' (si_view S (sdk_txn t'))"
    and a: "result_attempt sdk env run r res c = Some (again, st, res', c')"
  shows "si_client S c' \<and> (\<exists>v e. si_open S e \<and> si_client S e \<and> si_db S e = si_db S c
      \<and> result_outcome Post (si_db S c) v (si_db S (env r e)) st res' (si_db S c')
      \<and> (again \<longrightarrow> si_db S c' = si_db S (env r e)))"
proof -
  let ?d = "si_db S c"
  obtain t where t: "DingodbStorage_NewTxn sdk c = Some t" "in_txn S ?d (sdk_txn t)" "si_view S (sdk_txn t) = ?d"
    using new_txn [OF c] by blast
  obtain st1 res1 t1 where t1: "run res t = Some (st1, res1, t1)"
    using a t(1) by (auto simp: result_attempt_def bind_eq_Some_conv)
  note p = run [OF t(2,3) t1]
  let ?e = "sdk_txn t1"
  have e: "si_open S ?e" "si_client S ?e" "si_db S ?e = ?d" using p by (simp_all add: in_txn_def)
  obtain st2 t2 where c2: "Commit (DingodbTxn sdk) (t1\<lparr>sdk_txn := env r ?e\<rparr>) = (st2, t2)"
    by (cases "Commit (DingodbTxn sdk) (t1\<lparr>sdk_txn := env r ?e\<rparr>)")
  note cc = commit_env [OF conjunct1 [OF p] iso c2]
  show ?thesis
  proof (cases "ok st1")
    case False
    then have "again = False" "st = st1" "res' = res1" "c' = env r ?e"
      using a t(1) t1 by (simp_all add: result_attempt_def)
    then show ?thesis using isolatedD [OF iso e(1,2), of r] e False by (auto simp: result_outcome_def)
  next
    case True
    then have ac: "again = (st2 = ESTORE_MAYBE_RETRY)" "st = st2" "res' = res1" "c' = sdk_txn t2"
      using a t(1) t1 c2 by (auto simp: result_attempt_def)
    have "result_outcome Post ?d (si_view S ?e) (si_db S (env r ?e)) st2 res1 (si_db S (sdk_txn t2))"
      using cc(2,4) p True by (auto simp: result_outcome_def)
    then show ?thesis using ac cc(1,3) e by blast
  qed
qed

text \<open>An answered run, while the others keep the store within \<open>I\<close>.\<close>

lemma result_loop_post:
  assumes a: "RunAlone_result pb sdk env operation c = Some (st, res, c')" and c: "si_client S c" "I (si_db S c)"
    and iso: "isolated S env"
    and env: "\<And>r e. si_open S e \<Longrightarrow> si_client S e \<Longrightarrow> I (si_db S e) \<Longrightarrow> I (si_db S (env r e))"
    and run: "\<And>d t res st res' t'. I d \<Longrightarrow> in_txn S d (sdk_txn t) \<Longrightarrow> si_view S (sdk_txn t) = d \<Longrightarrow>
      RunResult pb (DingodbTxn sdk) operation res t = Some (st, res', t') \<Longrightarrow>
      in_txn S d (sdk_txn t') \<and> Post d st res' (si_view S (sdk_txn t'))"
  shows "si_client S c' \<and> (\<exists>d v d1. I d \<and> I d1 \<and> result_outcome Post d v d1 st res (si_db S c'))"
proof (rule txn_loop_post_again [OF a [unfolded RunAlone_result_def], where P = "\<lambda>c. si_client S c \<and> I (si_db S c)"
    and Q = "\<lambda>st res c'. si_client S c' \<and> (\<exists>d v d1. I d \<and> I d1 \<and> result_outcome Post d v d1 st res (si_db S c'))"])
  fix r res c again st res' c'
  assume at: "result_attempt sdk env (RunResult pb (DingodbTxn sdk) operation) r res c = Some (again, st, res', c')"
    and p: "si_client S c \<and> I (si_db S c)"
  obtain v e where v: "si_client S c'" "si_open S e" "si_client S e" "si_db S e = si_db S c"
      "result_outcome Post (si_db S c) v (si_db S (env r e)) st res' (si_db S c')"
      "again \<longrightarrow> si_db S c' = si_db S (env r e)"
    using result_attempt_post [where Post = Post, OF _ iso _ at] run p by blast
  then have "I (si_db S (env r e))" using env [of e r] p by simp
  then show "(again \<longrightarrow> si_client S c' \<and> I (si_db S c')) \<and>
      si_client S c' \<and> (\<exists>d v d1. I d \<and> I d1 \<and> result_outcome Post d v d1 st res' (si_db S c'))"
    using v p by metis
qed (use c in simp)

end

end
