(* ===== verification/Quota.thy ===== *)
theory Quota
  imports Results
begin

text \<open>
  \<^verbatim>\<open>mdsv2/quota/quota.{h,cc}\<close> and \<^verbatim>\<open>mdsv2/filesystem/parent_memo.cc\<close>: the limits on the bytes and inodes
  of a file system and of its directories. A server counts usage in memory and flushes the
  difference to the store now and then; a request charges the quotas on the way from its directory to
  the root, which it walks through remembered parents. Counters are 64-bit words: \<^verbatim>\<open>int64_t\<close> with two's
  complement.
\<close>

subsection \<open>ParentMemo\<close>

type_synonym ParentMemo = "(u64, u64) omap"

definition Remeber :: "u64 \<Rightarrow> u64 \<Rightarrow> ParentMemo \<Rightarrow> ParentMemo" where
  "Remeber ino parent memo = om_insert ino parent memo"

definition Forget :: "u64 \<Rightarrow> ParentMemo \<Rightarrow> ParentMemo" where
  "Forget ino memo = om_erase ino memo"

definition GetParent :: "u64 \<Rightarrow> ParentMemo \<Rightarrow> u64 option" where
  "GetParent ino memo = om_find memo ino"

subsection \<open>Quota\<close>

record Quota =
  qu_ino :: u64
  byte_delta :: u64
  inode_delta :: u64
  qu_quota :: QuotaEntry

definition new_Quota :: "u64 \<Rightarrow> QuotaEntry \<Rightarrow> Quota" where
  "new_Quota ino quota = \<lparr>qu_ino = ino, byte_delta = 0, inode_delta = 0, qu_quota = quota\<rparr>"

definition UpdateUsage :: "u64 \<Rightarrow> u64 \<Rightarrow> Quota \<Rightarrow> Quota" where
  "UpdateUsage b i q = q\<lparr>byte_delta := byte_delta q + b, inode_delta := inode_delta q + i\<rparr>"

definition Check :: "'v pb \<Rightarrow> u64 \<Rightarrow> u64 \<Rightarrow> Quota \<Rightarrow> bool" where
  "Check pb b i q =
     (let used_bytes = q_used_bytes (qu_quota q) + byte_delta q + b;
          used_inodes = q_used_inodes (qu_quota q) + inode_delta q + i
      in \<not> (q_gt pb (q_max_bytes (qu_quota q)) 0 \<and> q_gt pb used_bytes (q_max_bytes (qu_quota q)) \<or>
            q_gt pb (q_max_inodes (qu_quota q)) 0 \<and> q_gt pb used_inodes (q_max_inodes (qu_quota q))))"

definition GetUsage :: "Quota \<Rightarrow> UsageEntry" where
  "GetUsage q = \<lparr>us_bytes = byte_delta q, us_inodes = inode_delta q\<rparr>"

definition GetQuotaAndDelta :: "Quota \<Rightarrow> QuotaEntry" where
  "GetQuotaAndDelta q =
     (qu_quota q)\<lparr>q_used_bytes := q_used_bytes (qu_quota q) + byte_delta q,
                  q_used_inodes := q_used_inodes (qu_quota q) + inode_delta q\<rparr>"

definition Refresh :: "QuotaEntry \<Rightarrow> UsageEntry \<Rightarrow> Quota \<Rightarrow> Quota" where
  "Refresh quota minus_usage q =
     q\<lparr>byte_delta := (if us_bytes minus_usage \<noteq> 0 then byte_delta q - us_bytes minus_usage else byte_delta q),
       inode_delta := (if us_inodes minus_usage \<noteq> 0 then inode_delta q - us_inodes minus_usage else inode_delta q),
       qu_quota := quota\<rparr>"

definition no_usage :: UsageEntry where
  "no_usage = \<lparr>us_bytes = 0, us_inodes = 0\<rparr>"

subsection \<open>DirQuotaMap\<close>

text \<open>The quotas are objects behind shared pointers: a pointer is an index into \<open>quota_heap\<close>.\<close>

record DirQuotaMap =
  quota_map :: "(u64, nat) omap"
  quota_heap :: "Quota list"

definition DirQuotaMap_GetQuota :: "u64 \<Rightarrow> DirQuotaMap \<Rightarrow> nat option" where
  "DirQuotaMap_GetQuota ino m = om_find (quota_map m) ino"

text \<open>A write through a pointer, and \<^verbatim>\<open>std::make_shared\<close>.\<close>

definition at_quota :: "(Quota \<Rightarrow> Quota) \<Rightarrow> nat \<Rightarrow> DirQuotaMap \<Rightarrow> DirQuotaMap" where
  "at_quota f a m = m\<lparr>quota_heap := (quota_heap m)[a := f (quota_heap m ! a)]\<rparr>"

definition make_quota :: "u64 \<Rightarrow> QuotaEntry \<Rightarrow> DirQuotaMap \<Rightarrow> DirQuotaMap" where
  "make_quota ino quota m =
     m\<lparr>quota_map := om_insert ino (length (quota_heap m)) (quota_map m),
       quota_heap := quota_heap m @ [new_Quota ino quota]\<rparr>"

definition InsertQuota :: "u64 \<Rightarrow> QuotaEntry \<Rightarrow> DirQuotaMap \<Rightarrow> DirQuotaMap" where
  "InsertQuota ino quota m = (if om_find (quota_map m) ino = None then make_quota ino quota m else m)"

text \<open>The body of the loop of \<^verbatim>\<open>UpdateUsage\<close>, and the walks to the root: \<open>None\<close> is a walk that does not end.\<close>

definition charge :: "u64 \<Rightarrow> u64 \<Rightarrow> u64 \<Rightarrow> DirQuotaMap \<Rightarrow> DirQuotaMap" where
  "charge b i ino m =
     (case DirQuotaMap_GetQuota ino m of None \<Rightarrow> m | Some a \<Rightarrow> at_quota (UpdateUsage b i) a m)"

partial_function (option) DirQuotaMap_UpdateUsage ::
    "ParentMemo \<Rightarrow> u64 \<Rightarrow> u64 \<Rightarrow> u64 \<Rightarrow> DirQuotaMap \<Rightarrow> DirQuotaMap option" where
  "DirQuotaMap_UpdateUsage memo ino b i m =
     (let m = charge b i ino m in
      if ino = 1 then Some m
      else case GetParent ino memo of
        None \<Rightarrow> Some m
      | Some parent \<Rightarrow> DirQuotaMap_UpdateUsage memo parent b i m)"

partial_function (option) GetNearestQuota ::
    "ParentMemo \<Rightarrow> u64 \<Rightarrow> DirQuotaMap \<Rightarrow> nat option option" where
  "GetNearestQuota memo ino m =
     (case DirQuotaMap_GetQuota ino m of
        Some a \<Rightarrow> Some (Some a)
      | None \<Rightarrow>
          if ino = 1 then Some None
          else case GetParent ino memo of
            None \<Rightarrow> Some None
          | Some parent \<Rightarrow> GetNearestQuota memo parent m)"

definition DirQuotaMap_CheckQuota ::
    "'v pb \<Rightarrow> ParentMemo \<Rightarrow> u64 \<Rightarrow> u64 \<Rightarrow> u64 \<Rightarrow> DirQuotaMap \<Rightarrow> bool option" where
  "DirQuotaMap_CheckQuota pb memo ino b i m = do {
     quota \<leftarrow> GetNearestQuota memo ino m;
     Some (case quota of None \<Rightarrow> True | Some a \<Rightarrow> Check pb b i (quota_heap m ! a))
   }"

definition GetAllQuota :: "DirQuotaMap \<Rightarrow> nat list" where
  "GetAllQuota m = map snd (quota_map m)"

text \<open>The two loops of \<^verbatim>\<open>RefreshAll\<close>: over the quotas in memory, then over those of the store.\<close>

definition refresh_existing :: "(u64, QuotaEntry) omap \<Rightarrow> u64 \<times> nat \<Rightarrow> DirQuotaMap \<Rightarrow> DirQuotaMap" where
  "refresh_existing quotas e m =
     (case om_find quotas (fst e) of
        None \<Rightarrow> m\<lparr>quota_map := om_erase (fst e) (quota_map m)\<rparr>
      | Some quota \<Rightarrow> at_quota (Refresh quota no_usage) (snd e) m)"

definition RefreshAll :: "(u64, QuotaEntry) omap \<Rightarrow> DirQuotaMap \<Rightarrow> DirQuotaMap" where
  "RefreshAll quotas m =
     fold (\<lambda>(ino, quota). InsertQuota ino quota) quotas (fold (refresh_existing quotas) (quota_map m) m)"

subsection \<open>QuotaManager\<close>

record QuotaManager =
  qm_fs_id :: u32
  fs_quota :: Quota
  dir_quota_map :: DirQuotaMap

definition new_QuotaManager :: "u32 \<Rightarrow> QuotaManager" where
  "new_QuotaManager fs_id =
     \<lparr>qm_fs_id = fs_id, fs_quota = new_Quota 0 default_quota,
      dir_quota_map = \<lparr>quota_map = [], quota_heap = []\<rparr>\<rparr>"

definition UpdateFsUsage :: "u64 \<Rightarrow> u64 \<Rightarrow> QuotaManager \<Rightarrow> QuotaManager" where
  "UpdateFsUsage b i qm = qm\<lparr>fs_quota := UpdateUsage b i (fs_quota qm)\<rparr>"

definition UpdateDirUsage :: "ParentMemo \<Rightarrow> u64 \<Rightarrow> u64 \<Rightarrow> u64 \<Rightarrow> QuotaManager \<Rightarrow> QuotaManager option" where
  "UpdateDirUsage memo parent b i qm =
     map_option (\<lambda>m. qm\<lparr>dir_quota_map := m\<rparr>) (DirQuotaMap_UpdateUsage memo parent b i (dir_quota_map qm))"

definition CheckQuota :: "'v pb \<Rightarrow> ParentMemo \<Rightarrow> u64 \<Rightarrow> u64 \<Rightarrow> u64 \<Rightarrow> QuotaManager \<Rightarrow> bool option" where
  "CheckQuota pb memo ino b i qm =
     (if \<not> Check pb b i (fs_quota qm) then Some False
      else DirQuotaMap_CheckQuota pb memo ino b i (dir_quota_map qm))"

definition GetNearestDirQuota :: "ParentMemo \<Rightarrow> u64 \<Rightarrow> QuotaManager \<Rightarrow> nat option option" where
  "GetNearestDirQuota memo ino qm = GetNearestQuota memo ino (dir_quota_map qm)"

text \<open>The operations on the store. \<open>env\<close> is as in the processor.\<close>

definition SetFsQuota ::
    "'v pb \<Rightarrow> ('c, 'v) Sdk \<Rightarrow> (nat \<Rightarrow> 'c \<Rightarrow> 'c) \<Rightarrow> QuotaEntry \<Rightarrow> QuotaManager \<Rightarrow> 'c \<Rightarrow> (Status \<times> 'c) option" where
  "SetFsQuota pb sdk env quota qm c = RunAlone pb sdk env (SetFsQuotaOperation (qm_fs_id qm) quota) c"

definition GetFsQuota :: "QuotaManager \<Rightarrow> QuotaEntry" where
  "GetFsQuota qm = GetQuotaAndDelta (fs_quota qm)"

definition DeleteFsQuota ::
    "'v pb \<Rightarrow> ('c, 'v) Sdk \<Rightarrow> (nat \<Rightarrow> 'c \<Rightarrow> 'c) \<Rightarrow> QuotaManager \<Rightarrow> 'c \<Rightarrow> (Status \<times> 'c) option" where
  "DeleteFsQuota pb sdk env qm c = RunAlone pb sdk env (DeleteFsQuotaOperation (qm_fs_id qm)) c"

definition SetDirQuota ::
    "'v pb \<Rightarrow> ('c, 'v) Sdk \<Rightarrow> (nat \<Rightarrow> 'c \<Rightarrow> 'c) \<Rightarrow> u64 \<Rightarrow> QuotaEntry \<Rightarrow> QuotaManager \<Rightarrow> 'c
      \<Rightarrow> (Status \<times> QuotaManager \<times> 'c) option" where
  "SetDirQuota pb sdk env ino quota qm c = do {
     (status, c) \<leftarrow> RunAlone pb sdk env (SetDirQuotaOperation (qm_fs_id qm) ino quota) c;
     if \<not> ok status then Some (status, qm, c)
     else Some (OK, qm\<lparr>dir_quota_map := InsertQuota ino quota (dir_quota_map qm)\<rparr>, c)
   }"

definition GetDirQuota ::
    "'v pb \<Rightarrow> ('c, 'v) Sdk \<Rightarrow> (nat \<Rightarrow> 'c \<Rightarrow> 'c) \<Rightarrow> u64 \<Rightarrow> QuotaManager \<Rightarrow> 'c
      \<Rightarrow> ((Status + QuotaEntry) \<times> 'c) option" where
  "GetDirQuota pb sdk env ino qm c = do {
     (status, result, c) \<leftarrow> RunAlone_result pb sdk env (GetDirQuotaOperation (qm_fs_id qm) ino) c;
     Some (if ok status then Inr (or_quota result) else Inl status, c)
   }"

definition DeleteDirQuota ::
    "'v pb \<Rightarrow> ('c, 'v) Sdk \<Rightarrow> (nat \<Rightarrow> 'c \<Rightarrow> 'c) \<Rightarrow> u64 \<Rightarrow> QuotaManager \<Rightarrow> 'c \<Rightarrow> (Status \<times> 'c) option" where
  "DeleteDirQuota pb sdk env ino qm c = RunAlone pb sdk env (DeleteDirQuotaOperation (qm_fs_id qm) ino) c"

definition LoadDirQuotas :: "QuotaManager \<Rightarrow> (u64, QuotaEntry) omap" where
  "LoadDirQuotas qm =
     fold (\<lambda>a. let q = quota_heap (dir_quota_map qm) ! a in om_insert (qu_ino q) (GetQuotaAndDelta q))
       (GetAllQuota (dir_quota_map qm)) []"

definition LoadFsQuota ::
    "'v pb \<Rightarrow> ('c, 'v) Sdk \<Rightarrow> (nat \<Rightarrow> 'c \<Rightarrow> 'c) \<Rightarrow> QuotaManager \<Rightarrow> 'c \<Rightarrow> (Status \<times> QuotaManager \<times> 'c) option" where
  "LoadFsQuota pb sdk env qm c = do {
     (status, result, c) \<leftarrow> RunAlone_result pb sdk env (GetFsQuotaOperation (qm_fs_id qm)) c;
     if \<not> ok status then Some (if status = ENOT_FOUND then OK else status, qm, c)
     else Some (OK, qm\<lparr>fs_quota := Refresh (or_quota result) no_usage (fs_quota qm)\<rparr>, c)
   }"

definition LoadAllDirQuota ::
    "'v pb \<Rightarrow> ('c, 'v) Sdk \<Rightarrow> (nat \<Rightarrow> 'c \<Rightarrow> 'c) \<Rightarrow> QuotaManager \<Rightarrow> 'c \<Rightarrow> (Status \<times> QuotaManager \<times> 'c) option" where
  "LoadAllDirQuota pb sdk env qm c = do {
     (status, result, c) \<leftarrow> RunAlone_result pb sdk env (LoadDirQuotasOperation (qm_fs_id qm)) c;
     if \<not> ok status then Some (status, qm, c)
     else Some (OK, qm\<lparr>dir_quota_map := RefreshAll (or_quotas result) (dir_quota_map qm)\<rparr>, c)
   }"

definition LoadQuota ::
    "'v pb \<Rightarrow> ('c, 'v) Sdk \<Rightarrow> (nat \<Rightarrow> 'c \<Rightarrow> 'c) \<Rightarrow> QuotaManager \<Rightarrow> 'c \<Rightarrow> (Status \<times> QuotaManager \<times> 'c) option" where
  "LoadQuota pb sdk env qm c = do {
     (status, qm, c) \<leftarrow> LoadFsQuota pb sdk env qm c;
     if \<not> ok status then Some (status, qm, c) else LoadAllDirQuota pb sdk env qm c
   }"

definition QuotaManager_Init ::
    "'v pb \<Rightarrow> ('c, 'v) Sdk \<Rightarrow> (nat \<Rightarrow> 'c \<Rightarrow> 'c) \<Rightarrow> QuotaManager \<Rightarrow> 'c \<Rightarrow> (bool \<times> QuotaManager \<times> 'c) option" where
  "QuotaManager_Init pb sdk env qm c = do {
     CHECK (qm_fs_id qm > 0);
     (status, qm, c) \<leftarrow> LoadQuota pb sdk env qm c;
     Some (ok status, qm, c)
   }"

text \<open>
  The flushes. While the operation runs, the requests of this server go on charging the quotas:
  \<open>meanwhile\<close> is what they do to the quota of the file system or to the map.
\<close>

definition FlushFsUsage ::
    "'v pb \<Rightarrow> ('c, 'v) Sdk \<Rightarrow> (nat \<Rightarrow> 'c \<Rightarrow> 'c) \<Rightarrow> (Quota \<Rightarrow> Quota) \<Rightarrow> QuotaManager \<Rightarrow> 'c
      \<Rightarrow> (Status \<times> QuotaManager \<times> 'c) option" where
  "FlushFsUsage pb sdk env meanwhile qm c =
     (let usage = GetUsage (fs_quota qm) in
      if us_bytes usage = 0 \<and> us_inodes usage = 0 then Some (OK, qm, c)
      else do {
        (status, result, c) \<leftarrow> RunAlone_result pb sdk env (FlushFsUsageOperation (qm_fs_id qm) usage) c;
        let qm = qm\<lparr>fs_quota := meanwhile (fs_quota qm)\<rparr>;
        if \<not> ok status then Some (status, qm, c)
        else Some (OK, qm\<lparr>fs_quota := Refresh (or_quota result) usage (fs_quota qm)\<rparr>, c)
      })"

definition pending_usages :: "DirQuotaMap \<Rightarrow> nat list \<Rightarrow> (u64, UsageEntry) omap" where
  "pending_usages m quotas =
     fold (\<lambda>a usages. let q = quota_heap m ! a; usage = GetUsage q in
        if us_bytes usage = 0 \<and> us_inodes usage = 0 then usages
        else om_insert (qu_ino q) usage usages) quotas []"

fun refresh_flushed ::
    "(u64, QuotaEntry) omap \<Rightarrow> (u64, UsageEntry) omap \<Rightarrow> nat list \<Rightarrow> DirQuotaMap \<Rightarrow> DirQuotaMap option" where
  "refresh_flushed quotas usages [] m = Some m"
| "refresh_flushed quotas usages (a # as) m =
     (let ino = qu_ino (quota_heap m ! a) in
      case om_find quotas ino of
        None \<Rightarrow> refresh_flushed quotas usages as m
      | Some new_quota \<Rightarrow> do {
          usage \<leftarrow> om_find usages ino;
          refresh_flushed quotas usages as (at_quota (Refresh new_quota usage) a m)
        })"

definition FlushDirUsage ::
    "'v pb \<Rightarrow> ('c, 'v) Sdk \<Rightarrow> (nat \<Rightarrow> 'c \<Rightarrow> 'c) \<Rightarrow> (DirQuotaMap \<Rightarrow> DirQuotaMap) \<Rightarrow> QuotaManager \<Rightarrow> 'c
      \<Rightarrow> (Status \<times> QuotaManager \<times> 'c) option" where
  "FlushDirUsage pb sdk env meanwhile qm c = do {
     let quotas = GetAllQuota (dir_quota_map qm);
     let usages = pending_usages (dir_quota_map qm) quotas;
     (status, result, c) \<leftarrow> RunAlone_result pb sdk env (FlushDirUsagesOperation (qm_fs_id qm) usages) c;
     let m = meanwhile (dir_quota_map qm);
     if \<not> ok status then Some (status, qm\<lparr>dir_quota_map := m\<rparr>, c)
     else do {
       m \<leftarrow> refresh_flushed (or_quotas result) usages quotas m;
       Some (OK, qm\<lparr>dir_quota_map := m\<rparr>, c)
     }
   }"

definition FlushUsage ::
    "'v pb \<Rightarrow> ('c, 'v) Sdk \<Rightarrow> (nat \<Rightarrow> 'c \<Rightarrow> 'c) \<Rightarrow> (Quota \<Rightarrow> Quota) \<Rightarrow> (DirQuotaMap \<Rightarrow> DirQuotaMap)
      \<Rightarrow> QuotaManager \<Rightarrow> 'c \<Rightarrow> (Status \<times> QuotaManager \<times> 'c) option" where
  "FlushUsage pb sdk env fs_meanwhile dir_meanwhile qm c = do {
     (status, qm, c) \<leftarrow> FlushFsUsage pb sdk env fs_meanwhile qm c;
     if \<not> ok status then Some (status, qm, c) else FlushDirUsage pb sdk env dir_meanwhile qm c
   }"

definition QuotaManager_Destroy ::
    "'v pb \<Rightarrow> ('c, 'v) Sdk \<Rightarrow> (nat \<Rightarrow> 'c \<Rightarrow> 'c) \<Rightarrow> QuotaManager \<Rightarrow> 'c \<Rightarrow> (QuotaManager \<times> 'c) option" where
  "QuotaManager_Destroy pb sdk env qm c =
     map_option snd (FlushUsage pb sdk env (\<lambda>q. q) (\<lambda>m. m) qm c)"

subsection \<open>The walk to the root\<close>

text \<open>The inodes a walk visits: up the remembered parents, until the root or an inode without one.\<close>

inductive walk :: "ParentMemo \<Rightarrow> u64 \<Rightarrow> u64 list \<Rightarrow> bool" for memo where
  root: "walk memo 1 [1]"
| top: "ino \<noteq> 1 \<Longrightarrow> GetParent ino memo = None \<Longrightarrow> walk memo ino [ino]"
| up: "ino \<noteq> 1 \<Longrightarrow> GetParent ino memo = Some parent \<Longrightarrow> walk memo parent path \<Longrightarrow> walk memo ino (ino # path)"

lemma walk_unique: "walk memo ino path \<Longrightarrow> walk memo ino path' \<Longrightarrow> path' = path"
proof (induction arbitrary: path' rule: walk.induct)
  case root
  then show ?case by (cases rule: walk.cases) simp_all
next
  case (top ino)
  from top.prems show ?case by (cases rule: walk.cases) (use top.hyps in simp_all)
next
  case (up ino parent path)
  from up.prems obtain path1 where p: "path' = ino # path1" "walk memo parent path1"
    by (cases rule: walk.cases) (use up.hyps in simp_all)
  show ?case using up.IH [OF p(2)] p(1) by simp
qed

lemma walk_suffix:
  "walk memo ino path \<Longrightarrow> j \<in> set path \<Longrightarrow> \<exists>path'. walk memo j path' \<and> length path' \<le> length path"
proof (induction rule: walk.induct)
  case (up ino parent path)
  show ?case
  proof (cases "j = ino")
    case True
    then show ?thesis using walk.up [OF up.hyps] by auto
  next
    case False
    then show ?thesis using up.IH up.prems by (auto intro: le_SucI)
  qed
qed (auto intro: walk.intros)

lemma walk_distinct: "walk memo ino path \<Longrightarrow> distinct path"
proof (induction rule: walk.induct)
  case (up ino parent path)
  have "ino \<notin> set path"
  proof
    assume "ino \<in> set path"
    then obtain path' where p: "walk memo ino path'" "length path' \<le> length path"
      using walk_suffix [OF up.hyps(3)] by blast
    have "path' = ino # path" using walk_unique [OF walk.up [OF up.hyps] p(1)] .
    then show False using p(2) by simp
  qed
  then show ?case using up.IH by simp
qed simp_all

lemma UpdateUsage_walk:
  "walk memo ino path \<Longrightarrow> DirQuotaMap_UpdateUsage memo ino b i m = Some (fold (charge b i) path m)"
  by (induction arbitrary: m rule: walk.induct) (simp_all add: DirQuotaMap_UpdateUsage.simps)

lemma UpdateUsage_ends: "DirQuotaMap_UpdateUsage memo ino b i m = Some m' \<Longrightarrow> \<exists>path. walk memo ino path"
  by (erule DirQuotaMap_UpdateUsage.raw_induct [rotated, where P = "\<lambda>memo ino b i m m'. \<exists>path. walk memo ino path"])
    (auto simp: Let_def intro: walk.intros split: if_splits option.splits, blast intro: walk.up)

lemma GetNearestQuota_walk:
  assumes "walk memo ino path"
  shows "GetNearestQuota memo ino m =
    Some (map_option (\<lambda>j. the (DirQuotaMap_GetQuota j m)) (find (\<lambda>j. DirQuotaMap_GetQuota j m \<noteq> None) path))"
  using assms
  by (induction rule: walk.induct)
    (auto simp: GetNearestQuota.simps [of memo] split: option.splits)

text \<open>Distinct directories have distinct quota objects.\<close>

definition quotas_ok :: "DirQuotaMap \<Rightarrow> bool" where
  "quotas_ok m \<longleftrightarrow> om_ok (quota_map m) \<and> (\<forall>a \<in> set (map snd (quota_map m)). a < length (quota_heap m)) \<and>
     (\<forall>j k a. om_find (quota_map m) j = Some a \<longrightarrow> om_find (quota_map m) k = Some a \<longrightarrow> j = k)"

text \<open>What is charged to a directory and not yet flushed.\<close>

definition pending :: "u64 \<Rightarrow> DirQuotaMap \<Rightarrow> (u64 \<times> u64) option" where
  "pending j m =
     map_option (\<lambda>a. (byte_delta (quota_heap m ! a), inode_delta (quota_heap m ! a))) (DirQuotaMap_GetQuota j m)"

definition charged :: "u64 \<Rightarrow> u64 \<Rightarrow> (u64 \<times> u64) option \<Rightarrow> (u64 \<times> u64) option" where
  "charged b i p = map_option (\<lambda>(x, y). (x + b, y + i)) p"

lemma om_find_range: "om_find m j = Some a \<Longrightarrow> a \<in> set (map snd m)"
  by (force simp: om_find_def dest: map_of_SomeD)

lemma charge_ok: "quotas_ok m \<Longrightarrow> quotas_ok (charge b i ino m)"
  by (auto simp: charge_def at_quota_def quotas_ok_def split: option.splits)

lemma charge_pending:
  assumes "quotas_ok m"
  shows "pending j (charge b i ino m) = (if j = ino then charged b i (pending j m) else pending j m)"
proof (cases "DirQuotaMap_GetQuota ino m")
  case (Some a)
  then have "a < length (quota_heap m)"
    using assms om_find_range [of "quota_map m" ino a] by (auto simp: quotas_ok_def DirQuotaMap_GetQuota_def)
  moreover have "om_find (quota_map m) j = Some a \<Longrightarrow> j = ino"
    using assms Some unfolding quotas_ok_def DirQuotaMap_GetQuota_def by blast
  ultimately show ?thesis using Some
    by (cases "om_find (quota_map m) j")
      (auto simp: charge_def at_quota_def pending_def charged_def DirQuotaMap_GetQuota_def UpdateUsage_def nth_list_update)
qed (auto simp: charge_def pending_def charged_def)

lemma fold_charge:
  assumes "quotas_ok m" and "distinct path"
  shows "quotas_ok (fold (charge b i) path m) \<and>
    pending j (fold (charge b i) path m) = (if j \<in> set path then charged b i (pending j m) else pending j m)"
  using assms by (induction path arbitrary: m) (auto simp: charge_ok charge_pending)

text \<open>C38: a request charges the quotas of its directory and of all directories above it, each exactly once
  and no other, and it comes back exactly when the remembered parents lead to the root or to a
  directory without a remembered parent: on a cycle of parents it never returns.\<close>

theorem update_usage_charges_ancestors:
  assumes "quotas_ok m"
  shows "case DirQuotaMap_UpdateUsage memo ino b i m of
      None \<Rightarrow> \<not> (\<exists>path. walk memo ino path)
    | Some m' \<Rightarrow> \<exists>path. walk memo ino path \<and> quotas_ok m' \<and>
        (\<forall>j. pending j m' = (if j \<in> set path then charged b i (pending j m) else pending j m))"
proof (cases "DirQuotaMap_UpdateUsage memo ino b i m")
  case None
  then show ?thesis using UpdateUsage_walk by fastforce
next
  case (Some m')
  obtain path where p: "walk memo ino path" using UpdateUsage_ends [OF Some] by blast
  then have "m' = fold (charge b i) path m" using UpdateUsage_walk [OF p] Some by simp
  then show ?thesis using Some p fold_charge [OF assms walk_distinct [OF p]] by auto
qed

definition ex_quotas :: DirQuotaMap where
  "ex_quotas = make_quota 3 default_quota (make_quota 1 default_quota \<lparr>quota_map = [], quota_heap = []\<rparr>)"

theorem update_usage_charges_ancestors_witness:
  "quotas_ok ex_quotas \<and>
   (\<exists>m'. DirQuotaMap_UpdateUsage [(3, 5), (5, 1)] 3 7 1 ex_quotas = Some m' \<and>
      pending 1 m' = Some (7, 1) \<and> pending 3 m' = Some (7, 1)) \<and>
   DirQuotaMap_UpdateUsage [(3, 5), (5, 3)] 3 7 1 ex_quotas = None"
proof -
  have ok: "quotas_ok ex_quotas"
    by (auto simp: quotas_ok_def ex_quotas_def make_quota_def om_ok_def om_find_def split: if_splits)
  note [simp] = GetParent_def om_find_def
  have w: "walk [(3, 5), (5, 1)] 3 [3, 5, 1]" by (auto intro!: walk.intros)
  have nw: "\<not> walk [(3, 5), (5, 3)] ino path" if "ino \<in> {3, 5}" for ino path
  proof
    assume "walk [(3, 5), (5, 3)] ino path"
    then show False using that by (induction rule: walk.induct) auto
  qed
  have p: "pending 1 ex_quotas = Some (0, 0)" "pending 3 ex_quotas = Some (0, 0)"
    by (simp_all add: pending_def ex_quotas_def make_quota_def DirQuotaMap_GetQuota_def new_Quota_def)
  obtain m' where m': "DirQuotaMap_UpdateUsage [(3, 5), (5, 1)] 3 7 1 ex_quotas = Some m'"
    using UpdateUsage_walk [OF w] by blast
  with update_usage_charges_ancestors [OF ok, of "[(3, 5), (5, 1)]" 3 7 1]
  obtain path where path: "walk [(3, 5), (5, 1)] 3 path"
    and pend: "\<forall>j. pending j m' = (if j \<in> set path then charged 7 1 (pending j ex_quotas) else pending j ex_quotas)"
    by auto
  have "pending 1 m' = Some (7, 1)" "pending 3 m' = Some (7, 1)"
    using walk_unique [OF w path] p pend by (simp_all add: charged_def)
  moreover have "DirQuotaMap_UpdateUsage [(3, 5), (5, 3)] 3 7 1 ex_quotas = None"
    using UpdateUsage_ends [of "[(3, 5), (5, 3)]" 3 7 1 ex_quotas] nw by fastforce
  ultimately show ?thesis using ok m' by blast
qed


subsection \<open>Flushing keeps the balance\<close>

text \<open>The quota of the file system in the store.\<close>

definition stored_quota :: "'v pb \<Rightarrow> u32 \<Rightarrow> (bytes \<rightharpoonup> 'v) \<Rightarrow> QuotaEntry option" where
  "stored_quota pb f d = Option.bind (EncodeFsQuotaKey f) (\<lambda>k. Option.bind (d k) (DecodeFsQuotaValue pb))"

lemma refresh_delta:
  "byte_delta (Refresh quota u q) = byte_delta q - us_bytes u"
  "inode_delta (Refresh quota u q) = inode_delta q - us_inodes u"
  "qu_quota (Refresh quota u q) = quota"
  by (simp_all add: Refresh_def)

lemma fold_usage:
  "byte_delta (fold (\<lambda>(b, i). UpdateUsage b i) us q) = byte_delta q + sum_list (map fst us)"
  "inode_delta (fold (\<lambda>(b, i). UpdateUsage b i) us q) = inode_delta q + sum_list (map snd us)"
  by (induction us arbitrary: q) (auto simp: UpdateUsage_def algebra_simps)

context si_contract
begin

lemma flush_fs_run:
  assumes pb: "pb_ok pb" and t: "in_txn S d (sdk_txn t)" "si_view S (sdk_txn t) = d"
    and r: "RunResult pb (DingodbTxn sdk) (FlushFsUsageOperation f usage) res t = Some (st, res', t')"
  shows "in_txn S d (sdk_txn t') \<and> (st = OK \<longrightarrow> (\<exists>q. stored_quota pb f d = Some q \<and>
    or_quota res' = add_usage usage q \<and> stored_quota pb f (si_view S (sdk_txn t')) = Some (add_usage usage q)))"
proof -
  obtain k where k: "EncodeFsQuotaKey f = Some k"
    using r by (auto simp: store_result_def FlushFsUsageOperation_Run_def bind_eq_Some_conv)
  note get = kv_txn.get_law [OF in_txn_kv1 t(1), of k]
  show ?thesis
  proof (cases "d k")
    case None
    then show ?thesis using r t get k by (auto simp: store_result_def FlushFsUsageOperation_Run_def)
  next
    case (Some v)
    obtain q where q: "DecodeFsQuotaValue pb v = Some q"
      using r get Some t(2) k by (auto simp: store_result_def FlushFsUsageOperation_Run_def bind_eq_Some_conv)
    obtain t2 where t2: "Put (DingodbTxn sdk) k (EncodeFsQuotaValue pb (add_usage usage q)) t = Some (OK, t2)"
        "in_txn S d (sdk_txn t2)"
        "si_view S (sdk_txn t2) = (si_view S (sdk_txn t))(k \<mapsto> EncodeFsQuotaValue pb (add_usage usage q))"
      using kv_txn.put_law [OF in_txn_kv1 t(1)] by blast
    then have "st = OK" "res' = res\<lparr>or_quota := add_usage usage q\<rparr>" "t' = t2"
      using r get Some t(2) k q by (auto simp: store_result_def FlushFsUsageOperation_Run_def tx_put_def)
    then show ?thesis using t2 k Some q pb_ok_simps(4) [OF pb] by (simp add: stored_quota_def)
  qed
qed

text \<open>A flush moves the usage it took from memory to the store; what is charged meanwhile stays.\<close>

lemma flush_fs_moves:
  assumes pb: "pb_ok pb" and c: "si_client S c"
    and u: "GetUsage (fs_quota qm) \<noteq> no_usage"
    and run: "FlushFsUsage pb sdk (\<lambda>_ c. c) meanwhile qm c = Some (st, qm', c')"
  shows "si_client S c' \<and> qm_fs_id qm' = qm_fs_id qm \<and>
    (if st = OK then \<exists>q. stored_quota pb (qm_fs_id qm) (si_db S c) = Some q \<and>
        stored_quota pb (qm_fs_id qm) (si_db S c') = Some (add_usage (GetUsage (fs_quota qm)) q) \<and>
        fs_quota qm' = Refresh (add_usage (GetUsage (fs_quota qm)) q) (GetUsage (fs_quota qm)) (meanwhile (fs_quota qm))
     else fs_quota qm' = meanwhile (fs_quota qm))"
proof -
  let ?u = "GetUsage (fs_quota qm)" and ?f = "qm_fs_id qm" and ?d = "si_db S c"
  have nz: "\<not> (us_bytes ?u = 0 \<and> us_inodes ?u = 0)" using u by (auto simp: no_usage_def GetUsage_def)
  obtain res where r: "RunAlone_result pb sdk (\<lambda>_ c. c) (FlushFsUsageOperation ?f ?u) c = Some (st, res, c')"
    and qm': "qm' = (if st = OK then qm\<lparr>fs_quota := Refresh (or_quota res) ?u (meanwhile (fs_quota qm))\<rparr>
      else qm\<lparr>fs_quota := meanwhile (fs_quota qm)\<rparr>)"
    using run nz by (auto simp: FlushFsUsage_def Let_def bind_eq_Some_conv split: if_splits)
  let ?Post = "\<lambda>d st res v. st = OK \<longrightarrow> (\<exists>q. stored_quota pb ?f d = Some q \<and>
    or_quota res = add_usage ?u q \<and> stored_quota pb ?f v = Some (add_usage ?u q))"
  have "si_client S c' \<and> (\<exists>d v d1. d = ?d \<and> d1 = ?d \<and> result_outcome ?Post d v d1 st res (si_db S c'))"
    by (rule result_loop_post [where I = "\<lambda>d. d = ?d", OF r c refl isolated_idle]) (assumption | rule flush_fs_run [OF pb])+
  then show ?thesis using qm' by (auto simp: result_outcome_def)
qed

end

text \<open>
  The servers of a file system and their store: \<open>tb\<close> and \<open>ti\<close> count what was in the store at the start
  and all that requests charged since. A flush of one server, while its requests charge \<open>us\<close>, is one step;
  a failed commit that took effect nevertheless is left out, since nothing tells the server.
\<close>

inductive quota_run ::
    "'v pb \<Rightarrow> ('c, 'v) Sdk \<Rightarrow> ('c, 'v) Si \<Rightarrow> u32 \<Rightarrow> QuotaManager list \<Rightarrow> 'c \<Rightarrow> u64 \<Rightarrow> u64 \<Rightarrow> bool"
  for pb sdk S f where
  start: "si_client S c \<Longrightarrow> stored_quota pb f (si_db S c) = Some q \<Longrightarrow>
    quota_run pb sdk S f (replicate n (new_QuotaManager f)) c (q_used_bytes q) (q_used_inodes q)"
| request: "quota_run pb sdk S f qms c tb ti \<Longrightarrow> s < length qms \<Longrightarrow>
    quota_run pb sdk S f (qms[s := UpdateFsUsage b i (qms ! s)]) c (tb + b) (ti + i)"
| flush: "quota_run pb sdk S f qms c tb ti \<Longrightarrow> s < length qms \<Longrightarrow> GetUsage (fs_quota (qms ! s)) \<noteq> no_usage \<Longrightarrow>
    FlushFsUsage pb sdk (\<lambda>_ c. c) (fold (\<lambda>(b, i). UpdateUsage b i) us) (qms ! s) c = Some (st, qm, c') \<Longrightarrow>
    st = OK \<or> si_db S c' = si_db S c \<Longrightarrow>
    quota_run pb sdk S f (qms[s := qm]) c' (tb + sum_list (map fst us)) (ti + sum_list (map snd us))"

definition balance :: "(QuotaManager \<Rightarrow> u64) \<Rightarrow> QuotaManager list \<Rightarrow> u64" where
  "balance g qms = sum_list (map g qms)"

lemma balance_update:
  "s < length qms \<Longrightarrow> balance g (qms[s := x]) = balance g qms - g (qms ! s) + g x"
  unfolding balance_def
proof (induction qms arbitrary: s)
  case (Cons y ys)
  then show ?case by (cases s) auto
qed simp

lemma quota_run_balance:
  assumes con: "si_contract sdk S" and pb: "pb_ok pb" and "quota_run pb sdk S f qms c tb ti"
  shows "si_client S c \<and> (\<forall>qm \<in> set qms. qm_fs_id qm = f) \<and> (\<exists>q. stored_quota pb f (si_db S c) = Some q \<and>
    q_used_bytes q + balance (\<lambda>qm. byte_delta (fs_quota qm)) qms = tb \<and>
    q_used_inodes q + balance (\<lambda>qm. inode_delta (fs_quota qm)) qms = ti)"
  using assms(3)
proof (induction rule: quota_run.induct)
  case (start c q n)
  then show ?case by (simp add: balance_def new_QuotaManager_def new_Quota_def sum_list_replicate)
next
  case (request qms c tb ti s b i)
  then have "qm_fs_id (qms ! s) = f" by simp
  with request show ?case
    by (auto simp: balance_update UpdateFsUsage_def UpdateUsage_def algebra_simps dest: set_update_subset_insert [THEN subsetD])
next
  case (flush qms c tb ti s us st qm c')
  let ?u = "GetUsage (fs_quota (qms ! s))" and ?m = "fold (\<lambda>(b, i). UpdateUsage b i) us"
  have f: "qm_fs_id (qms ! s) = f" using flush.IH flush.hyps(2) by simp
  obtain q where q: "stored_quota pb f (si_db S c) = Some q"
    "q_used_bytes q + balance (\<lambda>qm. byte_delta (fs_quota qm)) qms = tb"
    "q_used_inodes q + balance (\<lambda>qm. inode_delta (fs_quota qm)) qms = ti" and c: "si_client S c"
    using flush.IH by blast
  note m = si_contract.flush_fs_moves [OF con pb c flush.hyps(3,4), unfolded f]
  have d: "set (qms[s := qm]) \<subseteq> insert qm (set qms)" by (rule set_update_subset_insert)
  show ?case
  proof (cases "st = OK")
    case True
    then have s: "stored_quota pb f (si_db S c') = Some (add_usage ?u q)"
      "fs_quota qm = Refresh (add_usage ?u q) ?u (?m (fs_quota (qms ! s)))" using m q(1) by auto
    show ?thesis using m d flush.IH flush.hyps(2) q(2,3)
      by (auto simp: s balance_update refresh_delta fold_usage add_usage_def GetUsage_def algebra_simps)
  next
    case False
    then have "fs_quota qm = ?m (fs_quota (qms ! s))" "si_db S c' = si_db S c"
      using m flush.hyps(5) by auto
    then show ?thesis using m d flush.IH flush.hyps(2) q
      by (auto simp: balance_update fold_usage algebra_simps)
  qed
qed


definition ex_quota_store :: "val mv_client" where
  "ex_quota_store = \<lparr>mv_db = [(the (EncodeFsQuotaKey 1), VQuota (default_quota\<lparr>q_used_inodes := 4\<rparr>))],
     mv_base = [], mv_work = [], mv_writes = []\<rparr>"

lemma ex_flush:
  "\<exists>qm c. FlushFsUsage val_pb mv_sdk (\<lambda>_ c. c) (fold (\<lambda>(b, i). UpdateUsage b i) [(5, 1)])
      (UpdateFsUsage 10 2 (new_QuotaManager 1)) ex_quota_store = Some (OK, qm, c) \<and>
     byte_delta (fs_quota qm) = 5 \<and> inode_delta (fs_quota qm) = 1"
  by (simp add: FlushFsUsage_def RunAlone_result_def result_attempt_def FlushFsUsageOperation_Run_def mv_run_defs
      ex_quota_store_def EncodeFsQuotaKey_def store_result_def om_find_def val_pb_def value_codec_defs
      UpdateFsUsage_def new_QuotaManager_def new_Quota_def GetUsage_def UpdateUsage_def Refresh_def add_usage_def
      FLAGS_txn_max_retry_times_def)


end
