(* ===== verification/IdGen.thy ===== *)
theory IdGen
  imports MdsMeta Isolation
begin

text \<open>
  \<^verbatim>\<open>mdsv2/filesystem/id_generator.{h,cc}\<close>: identifiers of file systems, inodes and slices. A
  generator takes bundles from the coordinator, or from a counter in the store, and hands out their
  numbers. The contract \<open>id_source\<close> is what it relies on of the coordinator; under it no number is handed
  out twice, by any number of generators.
\<close>

subsection \<open>AutoIncrementIdGenerator\<close>

record IdGenerator =
  ig_table_id :: u64
  ig_start_id :: u64
  ig_batch_size :: u32
  ig_bundle :: u64
  ig_bundle_end :: u64
  ig_next_id :: u64

definition AutoIncrementIdGenerator :: "u64 \<Rightarrow> u64 \<Rightarrow> u32 \<Rightarrow> IdGenerator" where
  "AutoIncrementIdGenerator table_id start_id batch_size =
     \<lparr>ig_table_id = table_id, ig_start_id = start_id, ig_batch_size = batch_size,
      ig_bundle = start_id, ig_bundle_end = start_id, ig_next_id = start_id\<rparr>"

definition IsExistAutoIncrement :: "'k CoordinatorClient \<Rightarrow> IdGenerator \<Rightarrow> 'k \<Rightarrow> Status" where
  "IsExistAutoIncrement C g k =
     (case GetAutoIncrement C (ig_table_id g) k of Inl status \<Rightarrow> status | Inr _ \<Rightarrow> OK)"

definition IdGenerator_Init :: "'k CoordinatorClient \<Rightarrow> IdGenerator \<Rightarrow> 'k \<Rightarrow> bool \<times> 'k" where
  "IdGenerator_Init C g k =
     (let status = IsExistAutoIncrement C g k in
      if ok status then (True, k)
      else if status \<noteq> ENOT_FOUND then (False, k)
      else let (status, k) = CreateAutoIncrement C (ig_table_id g) (ig_start_id g) k in (ok status, k))"

text \<open>\<^verbatim>\<open>do { ... } while (bundle < next_id_)\<close>; negative numbers fail the \<^verbatim>\<open>CHECK\<close>.\<close>

partial_function (option) take_bundle ::
    "'k CoordinatorClient \<Rightarrow> u64 \<Rightarrow> u32 \<Rightarrow> u64 \<Rightarrow> 'k \<Rightarrow> ((Status + u64 \<times> u64) \<times> 'k) option" where
  "take_bundle C table_id num next_id k =
     (case GenerateAutoIncrement C table_id (ucast num) k of
        (Inl status, k) \<Rightarrow> Some (Inl status, k)
      | (Inr (bundle, bundle_end), k) \<Rightarrow>
          if \<not> (0 \<le>s bundle \<and> 0 \<le>s bundle_end) then None
          else if bundle < next_id then take_bundle C table_id num next_id k
          else Some (Inr (bundle, bundle_end), k))"

definition AllocateIds ::
    "'k CoordinatorClient \<Rightarrow> u32 \<Rightarrow> IdGenerator \<Rightarrow> 'k \<Rightarrow> (Status \<times> IdGenerator \<times> 'k) option" where
  "AllocateIds C num g k = do {
     (r, k) \<leftarrow> take_bundle C (ig_table_id g) num (ig_next_id g) k;
     Some (case r of
       Inl status \<Rightarrow> (status, g, k)
     | Inr (bundle, bundle_end) \<Rightarrow>
         (OK, g\<lparr>ig_bundle := bundle, ig_next_id := bundle, ig_bundle_end := bundle_end\<rparr>, k))
   }"

text \<open>The result is the first identifier, or \<open>None\<close> when the call answers false.\<close>

definition GenID ::
    "'k CoordinatorClient \<Rightarrow> u32 \<Rightarrow> u64 \<Rightarrow> IdGenerator \<Rightarrow> 'k \<Rightarrow> (u64 option \<times> IdGenerator \<times> 'k) option" where
  "GenID C num min_slice_id g k = do {
     let g = (if ig_next_id g < min_slice_id then g\<lparr>ig_next_id := min_slice_id\<rparr> else g);
     (status, g, k) \<leftarrow>
       (if ig_next_id g + ucast num > ig_bundle_end g then AllocateIds C (max num (ig_batch_size g)) g k
        else Some (OK, g, k));
     if \<not> ok status then Some (None, g, k)
     else Some (Some (ig_next_id g), g\<lparr>ig_next_id := ig_next_id g + ucast num\<rparr>, k)
   }"

subsection \<open>StoreAutoIncrementIdGenerator\<close>

record StoreIdGenerator =
  sg_key :: bytes
  sg_next_id :: u64
  sg_last_alloc_id :: u64
  sg_batch_size :: u32

definition StoreAutoIncrementIdGenerator :: "bytes \<Rightarrow> u64 \<Rightarrow> u32 \<Rightarrow> StoreIdGenerator option" where
  "StoreAutoIncrementIdGenerator name start_id batch_size = do {
     key \<leftarrow> EncodeAutoIncrementKey name;
     Some \<lparr>sg_key = key, sg_next_id = start_id, sg_last_alloc_id = start_id, sg_batch_size = batch_size\<rparr>
   }"

text \<open>The counter as a transaction reads it; a missing one counts as 0.\<close>

definition read_counter :: "('t, bytes) Txn \<Rightarrow> bytes \<Rightarrow> 't \<Rightarrow> (Status + u64) option" where
  "read_counter T key t =
     (case Get T key t of
        Inl status \<Rightarrow> Some (if status \<noteq> ENOT_FOUND then Inl status else Inr 0)
      | Inr value \<Rightarrow> map_option Inr (DecodeAutoIncrementValue value))"

definition get_or_put_attempt ::
    "('c, bytes) Sdk \<Rightarrow> StoreIdGenerator \<Rightarrow> nat \<Rightarrow> u64 \<Rightarrow> 'c \<Rightarrow> (bool \<times> Status \<times> u64 \<times> 'c) option" where
  "get_or_put_attempt sdk g retry alloc_id c = do {
     txn \<leftarrow> DingodbStorage_NewTxn sdk c;
     r \<leftarrow> read_counter (DingodbTxn sdk) (sg_key g) txn;
     case r of
       Inl status \<Rightarrow> Some (False, status, alloc_id, sdk_txn txn)
     | Inr alloc_id \<Rightarrow> do {
         (alloc_id, txn) \<leftarrow>
           (if alloc_id < sg_last_alloc_id g then do {
              txn \<leftarrow> tx_put (DingodbTxn sdk) (sg_key g) (EncodeAutoIncrementValue (sg_last_alloc_id g)) txn;
              Some (sg_last_alloc_id g, txn)
            } else Some (alloc_id, txn));
         let (status, txn) = Commit (DingodbTxn sdk) txn;
         Some (status = ESTORE_MAYBE_RETRY, status, alloc_id, sdk_txn txn)
       }
   }"

definition GetOrPutAllocId ::
    "('c, bytes) Sdk \<Rightarrow> StoreIdGenerator \<Rightarrow> 'c \<Rightarrow> (Status \<times> u64 \<times> 'c) option" where
  "GetOrPutAllocId sdk g c = txn_loop (get_or_put_attempt sdk g) FLAGS_txn_max_retry_times 0 0 c"

text \<open>\<^verbatim>\<open>Init\<close> goes on with the identifier 0 when the store cannot be read.\<close>

definition StoreIdGenerator_Init ::
    "('c, bytes) Sdk \<Rightarrow> StoreIdGenerator \<Rightarrow> 'c \<Rightarrow> (bool \<times> StoreIdGenerator \<times> 'c) option" where
  "StoreIdGenerator_Init sdk g c = do {
     (_, alloc_id, c) \<leftarrow> GetOrPutAllocId sdk g c;
     Some (True, g\<lparr>sg_next_id := alloc_id, sg_last_alloc_id := alloc_id\<rparr>, c)
   }"

definition allocate_attempt ::
    "('c, bytes) Sdk \<Rightarrow> StoreIdGenerator \<Rightarrow> u32 \<Rightarrow> nat \<Rightarrow> u64 \<Rightarrow> 'c \<Rightarrow> (bool \<times> Status \<times> u64 \<times> 'c) option" where
  "allocate_attempt sdk g num retry start_alloc_id c = do {
     txn \<leftarrow> DingodbStorage_NewTxn sdk c;
     r \<leftarrow> read_counter (DingodbTxn sdk) (sg_key g) txn;
     case r of
       Inl status \<Rightarrow> Some (False, status, start_alloc_id, sdk_txn txn)
     | Inr alloced_id \<Rightarrow> do {
         let start_alloc_id = max alloced_id start_alloc_id;
         txn \<leftarrow> tx_put (DingodbTxn sdk) (sg_key g) (EncodeAutoIncrementValue (start_alloc_id + ucast num)) txn;
         let (status, txn) = Commit (DingodbTxn sdk) txn;
         Some (status = ESTORE_MAYBE_RETRY, status, start_alloc_id, sdk_txn txn)
       }
   }"

definition Store_AllocateIds ::
    "('c, bytes) Sdk \<Rightarrow> u32 \<Rightarrow> StoreIdGenerator \<Rightarrow> 'c \<Rightarrow> (Status \<times> StoreIdGenerator \<times> 'c) option" where
  "Store_AllocateIds sdk num g c = do {
     (status, start_alloc_id, c) \<leftarrow>
       txn_loop (allocate_attempt sdk g num) FLAGS_txn_max_retry_times 0
         (max (sg_next_id g) (sg_last_alloc_id g)) c;
     Some (status,
       if ok status then g\<lparr>sg_last_alloc_id := start_alloc_id + ucast num, sg_next_id := start_alloc_id\<rparr> else g, c)
   }"

text \<open>
  \<^verbatim>\<open>return -1\<close> in a function of type \<^verbatim>\<open>bool\<close> is true: the answer is always true. The second
  component is the identifier when one was written.
\<close>

definition Store_GenID ::
    "('c, bytes) Sdk \<Rightarrow> u32 \<Rightarrow> u64 \<Rightarrow> StoreIdGenerator \<Rightarrow> 'c
      \<Rightarrow> (bool \<times> u64 option \<times> StoreIdGenerator \<times> 'c) option" where
  "Store_GenID sdk num min_slice_id g c =
     (if num = 0 then Some (True, None, g, c)
      else do {
        let g = (if sg_next_id g < min_slice_id then g\<lparr>sg_next_id := min_slice_id\<rparr> else g);
        (status, g, c) \<leftarrow>
          (if sg_next_id g + ucast num > sg_last_alloc_id g
           then Store_AllocateIds sdk (max num (sg_batch_size g)) g c else Some (OK, g, c));
        if \<not> ok status then Some (True, None, g, c)
        else Some (True, Some (sg_next_id g), g\<lparr>sg_next_id := sg_next_id g + ucast num\<rparr>, c)
      })"

subsection \<open>The contract of the coordinator\<close>

text \<open>
  \<open>counter k\<close> is the first identifier of the table that the coordinator has not given away. Bundles
  are taken from there and have the size asked for; negative numbers mean that the counter has overflowed.
\<close>

locale id_source =
  fixes C :: "'k CoordinatorClient" and table_id :: u64 and counter :: "'k \<Rightarrow> nat"
  assumes generate_law: "GenerateAutoIncrement C table_id n k = (Inr (b, e), k') \<Longrightarrow> unat n < 2 ^ 32 \<Longrightarrow>
      0 \<le>s b \<Longrightarrow> 0 \<le>s e \<Longrightarrow> unat b = counter k \<and> unat e = counter k + unat n \<and> counter k' = unat e"
    and generate_room: "GenerateAutoIncrement C table_id n k = (Inr (b, e), k') \<Longrightarrow> counter k + unat n < 2 ^ 63 \<Longrightarrow>
      0 \<le>s b \<and> 0 \<le>s e"
    and generate_fail: "GenerateAutoIncrement C table_id n k = (Inl st, k') \<Longrightarrow> st \<noteq> OK \<and> counter k \<le> counter k'"
begin

text \<open>What a bundle that was taken satisfies.\<close>

definition bundle_post :: "u32 \<Rightarrow> u64 \<Rightarrow> 'k \<Rightarrow> (Status + u64 \<times> u64) \<times> 'k \<Rightarrow> bool" where
  "bundle_post num nx k y \<longleftrightarrow> (case y of
     (Inl st, k') \<Rightarrow> st \<noteq> OK \<and> counter k \<le> counter k'
   | (Inr (b, e), k') \<Rightarrow> counter k \<le> unat b \<and> nx \<le> b \<and> unat e = unat b + unat num
       \<and> counter k' = unat e \<and> 0 \<le>s e)"

lemma bundle_post_later:
  "bundle_post num nx k1 y \<Longrightarrow> counter k \<le> counter k1 \<Longrightarrow> bundle_post num nx k y"
  by (auto simp: bundle_post_def split: prod.splits sum.splits)

lemma unat_ucast_num: "unat (ucast (num :: u32) :: u64) = unat num" "unat (num :: u32) < 2 ^ 32"
  by (simp add: unsigned_ucast_eq take_bit_nat_eq_self order_less_le_trans [OF unsigned_less])
    (rule order_less_le_trans [OF unsigned_less], simp)

text \<open>One call of the coordinator.\<close>

lemma generate_cases:
  assumes "GenerateAutoIncrement C table_id (ucast (num :: u32)) k = (Inr (b, e), k1)" and "0 \<le>s b \<and> 0 \<le>s e"
  shows "unat b = counter k" "unat e = counter k + unat num" "counter k1 = unat e"
  using generate_law [OF assms(1)] assms(2) unat_ucast_num [of num] by simp_all

lemma take_bundle_law:
  assumes "take_bundle C table_id num nx k = Some y"
  shows "bundle_post num nx k y"
proof -
  have "C = C \<longrightarrow> table_id = table_id \<longrightarrow> bundle_post num nx k y"
  proof (rule take_bundle.raw_induct [OF _ assms, where P = "\<lambda>C0 t0 num nx k y.
        C0 = C \<longrightarrow> t0 = table_id \<longrightarrow> bundle_post num nx k y"], intro impI)
    fix loop C0 t0 and num :: u32 and nx :: u64 and k y
    assume IH: "\<And>C0 t0 num nx k y. loop C0 t0 num nx k = Some y \<Longrightarrow>
        C0 = C \<longrightarrow> t0 = table_id \<longrightarrow> bundle_post num nx k y"
      and run: "(case GenerateAutoIncrement C0 t0 (ucast num) k of
        (Inl status, k) \<Rightarrow> Some (Inl status, k)
      | (Inr (bundle, bundle_end), k) \<Rightarrow>
          if \<not> (0 \<le>s bundle \<and> 0 \<le>s bundle_end) then None
          else if bundle < nx then loop C0 t0 num nx k
          else Some (Inr (bundle, bundle_end), k)) = Some y"
      and eq: "C0 = C" "t0 = table_id"
    obtain x k1 where g: "GenerateAutoIncrement C table_id (ucast num) k = (x, k1)"
      by (cases "GenerateAutoIncrement C table_id (ucast num) k")
    show "bundle_post num nx k y"
    proof (cases x)
      case (Inl st)
      then show ?thesis
        using run eq g generate_fail [of "ucast num" k st k1] by (auto simp: bundle_post_def)
    next
      case (Inr be)
      obtain b e where be: "be = (b, e)" by (cases be)
      have pos: "0 \<le>s b \<and> 0 \<le>s e" using run eq g Inr be by (simp split: if_splits)
      note law = generate_cases [OF g [unfolded Inr be] pos]
      show ?thesis
      proof (cases "b < nx")
        case True
        then have "loop C table_id num nx k1 = Some y" using run eq g Inr be pos by simp
        then show ?thesis using IH law bundle_post_later [of num nx k1 y k] by auto
      next
        case False
        then have "y = (Inr (b, e), k1)" using run eq g Inr be pos by simp
        then show ?thesis using False law pos by (simp add: bundle_post_def)
      qed
    qed
  qed
  then show ?thesis by simp
qed

text \<open>The loop ends: the counter moves on by the size of the bundle until it has passed \<open>nx\<close>.\<close>

lemma take_bundle_ends:
  assumes "unat nx + 2 * unat num < 2 ^ 63" and "counter k + unat num < 2 ^ 63" and "0 < num"
  shows "\<exists>y. take_bundle C table_id num nx k = Some y"
  using assms(2)
proof (induction "unat nx - counter k" arbitrary: k rule: less_induct)
  case less
  obtain x k1 where g: "GenerateAutoIncrement C table_id (ucast num) k = (x, k1)"
    by (cases "GenerateAutoIncrement C table_id (ucast num) k")
  show ?case
  proof (cases x)
    case (Inl st)
    then show ?thesis by (simp add: take_bundle.simps [of C] g)
  next
    case (Inr be)
    obtain b e where be: "be = (b, e)" by (cases be)
    note g1 = g [unfolded Inr be]
    have pos: "0 \<le>s b \<and> 0 \<le>s e" using generate_room [OF g1] less.prems unat_ucast_num [of num] by simp
    note law = generate_cases [OF g1 pos]
    show ?thesis
    proof (cases "b < nx")
      case True
      then have lt: "counter k < unat nx" using law(1) by (simp add: word_less_nat_alt)
      have "0 < unat num" using assms(3) by (simp add: word_less_nat_alt)
      then have "unat nx - counter k1 < unat nx - counter k" "counter k1 + unat num < 2 ^ 63"
        using lt law assms(1) by linarith+
      then show ?thesis
        using less.hyps [of k1] pos True by (simp add: take_bundle.simps [of C _ _ _ k] g1)
    qed (simp add: take_bundle.simps [of C] g1 pos)
  qed
qed

end

text \<open>The in-memory coordinator keeps it.\<close>

definition dummy_counter :: "u64 \<Rightarrow> DummyCoordinatorClient \<Rightarrow> nat" where
  "dummy_counter table_id k =
     (case om_find (dc_auto_increments k) (sint table_id) of None \<Rightarrow> 0 | Some a \<Rightarrow> unat (ai_alloc_id a))"

lemma sle_zero_iff: "0 \<le>s (x :: u64) \<longleftrightarrow> unat x < 2 ^ 63"
proof -
  let ?b = "9223372036854775808 :: int"
  have x: "uint x < 2 * ?b" "0 \<le> uint x" using uint_lt2p [of x] by simp_all
  have "0 \<le>s x \<longleftrightarrow> even (uint x div ?b)"
    by (simp add: word_sle_eq sint_uint bit_iff_odd)
  also have "\<dots> \<longleftrightarrow> uint x < ?b"
  proof (cases "uint x < ?b")
    case True
    then have "uint x div ?b = 0" by (simp only: div_pos_pos_trivial x)
    then show ?thesis using True by simp
  next
    case False
    then have "uint x = ?b * 1 + (uint x - ?b)" "0 \<le> uint x - ?b" "uint x - ?b < ?b" using x by linarith+
    then have "uint x div ?b = 1" by (rule int_div_pos_eq)
    then show ?thesis using False by simp
  qed
  also have "\<dots> \<longleftrightarrow> unat x < 2 ^ 63"
  proof -
    have "int (unat x) < 2 ^ 63 \<longleftrightarrow> unat x < 2 ^ 63" by (simp only: of_nat_less_numeral_power_cancel_iff)
    then show ?thesis by simp
  qed
  finally show ?thesis .
qed

lemma unat_plus_u64: "unat (x :: u64) + unat y < 2 ^ 64 \<Longrightarrow> unat (x + y) = unat x + unat y"
  by (subst unat_plus_if') simp

interpretation dummy_ids: id_source dummy_coordinator table_id "dummy_counter table_id" for table_id
proof unfold_locales
  fix n b e :: u64 and k k'
  assume g: "GenerateAutoIncrement dummy_coordinator table_id n k = (Inr (b, e), k')"
  have *: "unat b = dummy_counter table_id k" "e = b + n" "dummy_counter table_id k' = unat e"
    using g by (auto simp: dummy_coordinator_def Dummy_GenerateAutoIncrement_def dummy_counter_def om_find_insert
        split: option.splits)
  show "unat b = dummy_counter table_id k \<and> unat e = dummy_counter table_id k + unat n
      \<and> dummy_counter table_id k' = unat e" if "unat n < 2 ^ 32" "0 \<le>s b" "0 \<le>s e"
    using * that unat_plus_u64 [of b n] by (simp add: sle_zero_iff)
  show "0 \<le>s b \<and> 0 \<le>s e" if "dummy_counter table_id k + unat n < 2 ^ 63"
    using * that unat_plus_u64 [of b n] by (simp add: sle_zero_iff)
qed (auto simp: dummy_coordinator_def Dummy_GenerateAutoIncrement_def split: option.splits)

subsection \<open>No identifier is handed out twice\<close>

text \<open>What is left of a generator's bundle, and the identifiers of one answer.\<close>

definition remaining :: "IdGenerator \<Rightarrow> nat set" where
  "remaining g = {unat (ig_next_id g) ..< unat (ig_bundle_end g)}"

definition ids_of :: "u64 \<times> u32 \<Rightarrow> nat set" where
  "ids_of x = {unat (fst x) ..< unat (fst x) + unat (snd x)}"

text \<open>A generator of the table: the numbers it holds are positive as signed ones.\<close>

definition gen_ok :: "u64 \<Rightarrow> IdGenerator \<Rightarrow> bool" where
  "gen_ok table_id g \<longleftrightarrow> ig_table_id g = table_id \<and> unat (ig_next_id g) \<le> 2 ^ 63 \<and> unat (ig_bundle_end g) < 2 ^ 63"

context id_source
begin

lemma AllocateIds_law:
  assumes "AllocateIds C n g k = Some (st, g', k')" and "ig_table_id g = table_id"
  shows "if st = OK then \<exists>b e. g' = g\<lparr>ig_bundle := b, ig_next_id := b, ig_bundle_end := e\<rparr>
      \<and> counter k \<le> unat b \<and> ig_next_id g \<le> b \<and> unat e = unat b + unat n \<and> counter k' = unat e \<and> unat e < 2 ^ 63
    else g' = g \<and> counter k \<le> counter k'"
proof -
  obtain y k1 where y: "take_bundle C table_id n (ig_next_id g) k = Some (y, k1)"
      "(st, g', k') = (case y of Inl st \<Rightarrow> (st, g, k1)
        | Inr (b, e) \<Rightarrow> (OK, g\<lparr>ig_bundle := b, ig_next_id := b, ig_bundle_end := e\<rparr>, k1))"
    using assms by (auto simp: AllocateIds_def bind_eq_Some_conv)
  then show ?thesis
    using take_bundle_law [OF y(1)]
    by (cases y) (auto simp: bundle_post_def sle_zero_iff)
qed

text \<open>The generator with its next identifier raised to the requested minimum.\<close>

lemma raise_next:
  assumes "gen_ok table_id g" and "unat m < 2 ^ 63"
  defines "g1 \<equiv> (if ig_next_id g < m then g\<lparr>ig_next_id := m\<rparr> else g)"
  shows "gen_ok table_id g1" "remaining g1 \<subseteq> remaining g" "m \<le> ig_next_id g1"
    "unat (ig_next_id g1 + ucast (num :: u32)) = unat (ig_next_id g1) + unat num"
proof -
  show g1: "gen_ok table_id g1" "remaining g1 \<subseteq> remaining g" "m \<le> ig_next_id g1"
    using assms(1,2) by (auto simp: g1_def gen_ok_def remaining_def word_less_nat_alt word_le_nat_alt)
  show "unat (ig_next_id g1 + ucast num) = unat (ig_next_id g1) + unat num"
    using unat_plus_u64 [of "ig_next_id g1" "ucast num"] g1(1) unat_ucast_num [of num] by (simp add: gen_ok_def)
qed

text \<open>An answer comes from the bundle at hand, or from a fresh one.\<close>

definition answer_post :: "u32 \<Rightarrow> u64 \<Rightarrow> IdGenerator \<Rightarrow> 'k \<Rightarrow> u64 option \<Rightarrow> IdGenerator \<Rightarrow> 'k \<Rightarrow> bool" where
  "answer_post num m g k r g' k' \<longleftrightarrow> gen_ok table_id g' \<and> counter k \<le> counter k' \<and>
     (case r of None \<Rightarrow> remaining g' \<subseteq> remaining g
      | Some x \<Rightarrow> m \<le> x \<and> ids_of (x, num) \<inter> remaining g' = {} \<and>
          (ids_of (x, num) \<union> remaining g' \<subseteq> remaining g
           \<or> ids_of (x, num) \<union> remaining g' \<subseteq> {counter k ..< counter k'}))"

lemma hand_out:
  assumes "gen_ok table_id g" "m \<le> ig_next_id g" and "counter k \<le> counter k'"
    and room: "unat (ig_next_id g) + unat num \<le> unat (ig_bundle_end g)"
    and src: "remaining g \<subseteq> remaining g0 \<or> remaining g \<subseteq> {counter k ..< counter k'}"
  shows "answer_post num m g0 k (Some (ig_next_id g)) (g\<lparr>ig_next_id := ig_next_id g + ucast num\<rparr>) k'"
proof -
  let ?x = "ig_next_id g"
  have e: "unat (?x + ucast num) = unat ?x + unat num"
    using unat_plus_u64 [of ?x "ucast num"] room assms(1) unat_ucast_num [of num] by (simp add: gen_ok_def)
  have "ids_of (?x, num) \<union> remaining (g\<lparr>ig_next_id := ?x + ucast num\<rparr>) \<subseteq> remaining g"
    using room by (auto simp: ids_of_def remaining_def e)
  moreover have "ids_of (?x, num) \<inter> remaining (g\<lparr>ig_next_id := ?x + ucast num\<rparr>) = {}"
    by (auto simp: ids_of_def remaining_def e)
  moreover have "gen_ok table_id (g\<lparr>ig_next_id := ?x + ucast num\<rparr>)"
    using assms(1) room by (simp add: gen_ok_def e)
  ultimately show ?thesis
    unfolding answer_post_def using assms(2,3) src by (simp only: option.case) blast
qed

lemma fresh_bundle:
  assumes "AllocateIds C (max num (ig_batch_size g)) g k = Some (OK, g2, k')" and g: "gen_ok table_id g"
  shows "gen_ok table_id g2" "ig_next_id g \<le> ig_next_id g2" "counter k \<le> counter k'"
    "unat (ig_next_id g2) + unat num \<le> unat (ig_bundle_end g2)" "remaining g2 \<subseteq> {counter k ..< counter k'}"
proof -
  let ?n = "max num (ig_batch_size g)"
  have t: "ig_table_id g = table_id" using g by (simp add: gen_ok_def)
  obtain b e where b: "g2 = g\<lparr>ig_bundle := b, ig_next_id := b, ig_bundle_end := e\<rparr>"
      "counter k \<le> unat b" "ig_next_id g \<le> b" "unat e = unat b + unat ?n" "counter k' = unat e" "unat e < 2 ^ 63"
    using AllocateIds_law [OF assms(1) t] by auto
  have n: "unat num \<le> unat ?n" by (simp add: max_def word_le_nat_alt)
  show "gen_ok table_id g2" "ig_next_id g \<le> ig_next_id g2" "counter k \<le> counter k'"
    using b t by (simp_all add: gen_ok_def)
  show "unat (ig_next_id g2) + unat num \<le> unat (ig_bundle_end g2)" "remaining g2 \<subseteq> {counter k ..< counter k'}"
    using b n by (simp_all add: remaining_def)
qed

lemma GenID_step:
  assumes "GenID C num m g k = Some (r, g', k')" and g: "gen_ok table_id g" and "unat m < 2 ^ 63"
  shows "answer_post num m g k r g' k'"
proof -
  define g1 where "g1 = (if ig_next_id g < m then g\<lparr>ig_next_id := m\<rparr> else g)"
  note g1 = raise_next [OF g assms(3), folded g1_def]
  have u: "GenID C num m g k = do {
      (status, g, k) \<leftarrow> (if ig_next_id g1 + ucast num > ig_bundle_end g1
         then AllocateIds C (max num (ig_batch_size g1)) g1 k else Some (OK, g1, k));
      if \<not> ok status then Some (None, g, k)
      else Some (Some (ig_next_id g), g\<lparr>ig_next_id := ig_next_id g + ucast num\<rparr>, k)}"
    by (simp only: GenID_def g1_def Let_def)
  show ?thesis
  proof (cases "ig_next_id g1 + ucast num > ig_bundle_end g1")
    case False
    then have e: "r = Some (ig_next_id g1)" "g' = g1\<lparr>ig_next_id := ig_next_id g1 + ucast num\<rparr>" "k' = k"
      using assms(1) by (simp_all add: u)
    have "unat (ig_next_id g1) + unat num \<le> unat (ig_bundle_end g1)"
      using False g1(4) [of num] by (simp add: word_less_nat_alt)
    then show ?thesis
      unfolding e using g1(1-3) by (intro hand_out) simp_all
  next
    case True
    then obtain st g2 where a: "AllocateIds C (max num (ig_batch_size g1)) g1 k = Some (st, g2, k')"
        "r = (if ok st then Some (ig_next_id g2) else None)"
        "g' = (if ok st then g2\<lparr>ig_next_id := ig_next_id g2 + ucast num\<rparr> else g2)"
      using assms(1) unfolding u by (auto simp: bind_eq_Some_conv split: if_splits)
    show ?thesis
    proof (cases "st = OK")
      case False
      have "ig_table_id g1 = table_id" using g1(1) by (simp add: gen_ok_def)
      then show ?thesis
        using AllocateIds_law [OF a(1)] a(2,3) False g1(1,2) by (simp add: answer_post_def)
    next
      case True
      note f = fresh_bundle [OF a(1) [unfolded True] g1(1)]
      have "m \<le> ig_next_id g2" using f(2) g1(3) by order
      then have "answer_post num m g k (Some (ig_next_id g2)) (g2\<lparr>ig_next_id := ig_next_id g2 + ucast num\<rparr>) k'"
        using f by (intro hand_out) simp_all
      then show ?thesis using a(2,3) True by simp
    qed
  qed
qed

end

text \<open>
  A history of generators of one table and their coordinator: the identifiers they have handed out,
  in order. Every call may ask for a minimum below \<open>2 ^ 63\<close>.
\<close>

inductive id_run ::
    "'k CoordinatorClient \<Rightarrow> u64 \<Rightarrow> ('i \<Rightarrow> IdGenerator) \<Rightarrow> 'k \<Rightarrow> (u64 \<times> u32) list \<Rightarrow> bool" for C table_id where
  start: "\<forall>i. \<exists>s n. gs i = AutoIncrementIdGenerator table_id s n \<and> unat s < 2 ^ 63 \<Longrightarrow>
    id_run C table_id gs k []"
| gen: "id_run C table_id gs k h \<Longrightarrow> unat m < 2 ^ 63 \<Longrightarrow> GenID C num m (gs i) k = Some (r, g', k') \<Longrightarrow>
    id_run C table_id (gs(i := g')) k' (case r of None \<Rightarrow> h | Some x \<Rightarrow> h @ [(x, num)])"

definition ids_ok :: "u64 \<Rightarrow> nat \<Rightarrow> ('i \<Rightarrow> IdGenerator) \<Rightarrow> (u64 \<times> u32) list \<Rightarrow> bool" where
  "ids_ok table_id n gs h \<longleftrightarrow>
     (\<forall>i. gen_ok table_id (gs i) \<and> remaining (gs i) \<subseteq> {..<n}) \<and>
     (\<forall>i j. i \<noteq> j \<longrightarrow> remaining (gs i) \<inter> remaining (gs j) = {}) \<and>
     (\<forall>x \<in> set h. ids_of x \<subseteq> {..<n}) \<and>
     (\<forall>i. \<forall>x \<in> set h. ids_of x \<inter> remaining (gs i) = {}) \<and>
     sorted_wrt (\<lambda>x y. ids_of x \<inter> ids_of y = {}) h"

lemma ids_ok_update:
  assumes ok: "ids_ok table_id n gs h" and "gen_ok table_id g'" and "n \<le> n'" and "remaining g' \<subseteq> {..<n'}"
    and "\<And>j. j \<noteq> i \<Longrightarrow> remaining g' \<inter> remaining (gs j) = {}"
    and "\<And>x. x \<in> set h \<Longrightarrow> ids_of x \<inter> remaining g' = {}"
  shows "ids_ok table_id n' (gs(i := g')) h"
proof -
  have "{..<n} \<subseteq> {..<n'}" using assms(3) by simp
  then have "\<forall>j. remaining (gs j) \<subseteq> {..<n'}" "\<forall>x \<in> set h. ids_of x \<subseteq> {..<n'}"
    using ok unfolding ids_ok_def by (meson order_trans)+
  then show ?thesis
    using ok assms by (simp add: ids_ok_def Int_commute)
qed

lemma ids_ok_shrink:
  assumes ok: "ids_ok table_id n gs h" and "gen_ok table_id g'" and s: "remaining g' \<subseteq> remaining (gs i)" and "n \<le> n'"
  shows "ids_ok table_id n' (gs(i := g')) h"
proof (rule ids_ok_update [OF ok assms(2,4)])
  have "remaining (gs i) \<subseteq> {..<n}" using ok by (simp add: ids_ok_def)
  then show "remaining g' \<subseteq> {..<n'}" using s assms(4) by auto
  show "remaining g' \<inter> remaining (gs j) = {}" if "j \<noteq> i" for j
    using ok s that unfolding ids_ok_def by blast
  show "ids_of x \<inter> remaining g' = {}" if "x \<in> set h" for x
    using ok s that unfolding ids_ok_def by blast
qed

lemma ids_ok_append:
  assumes "ids_ok table_id n gs h" and "ids_of x \<subseteq> {..<n}"
    and "\<And>j. ids_of x \<inter> remaining (gs j) = {}" and "\<And>y. y \<in> set h \<Longrightarrow> ids_of y \<inter> ids_of x = {}"
  shows "ids_ok table_id n gs (h @ [x])"
  using assms by (simp add: ids_ok_def sorted_wrt_append)

lemma ids_ok_answer:
  assumes ok: "ids_ok table_id n gs h" and "gen_ok table_id g'" and "n \<le> n'" and d: "ids_of x \<inter> remaining g' = {}"
    and s: "ids_of x \<union> remaining g' \<subseteq> remaining (gs i) \<or> ids_of x \<union> remaining g' \<subseteq> {n ..< n'}"
  shows "ids_ok table_id n' (gs(i := g')) (h @ [x])"
proof -
  have below: "ids_of y \<subseteq> {..<n}" if "y \<in> set h" for y using ok that by (simp add: ids_ok_def)
  have rem: "remaining (gs j) \<subseteq> {..<n}" for j using ok by (simp add: ids_ok_def)
  have x: "ids_of x \<union> remaining g' \<subseteq> {..<n'}" using s rem [of i] \<open>n \<le> n'\<close> by auto
  have hx: "ids_of y \<inter> (ids_of x \<union> remaining g') = {}" if "y \<in> set h" for y
  proof -
    have "ids_of y \<inter> remaining (gs i) = {}" using ok that by (simp add: ids_ok_def)
    moreover have "ids_of y \<inter> {n ..< n'} = {}" using below [OF that] by auto
    ultimately show ?thesis using s by blast
  qed
  have rx: "(ids_of x \<union> remaining g') \<inter> remaining (gs j) = {}" if "j \<noteq> i" for j
  proof -
    have "remaining (gs i) \<inter> remaining (gs j) = {}" using ok that by (simp add: ids_ok_def)
    moreover have "{n ..< n'} \<inter> remaining (gs j) = {}" using rem [of j] by auto
    ultimately show ?thesis using s by blast
  qed
  have "ids_ok table_id n' (gs(i := g')) h"
    using x rx hx by (intro ids_ok_update [OF ok assms(2,3)]) blast+
  then show ?thesis
    using x rx hx d by (intro ids_ok_append) (auto simp: Int_Un_distrib Int_Un_distrib2 simp del: split_paired_All)
qed

context id_source
begin

lemma id_run_ok: "id_run C table_id gs k h \<Longrightarrow> ids_ok table_id (counter k) gs h"
proof (induction rule: id_run.induct)
  case (start gs k)
  have "gen_ok table_id (gs i) \<and> remaining (gs i) = {}" for i
    using start by (auto simp: gen_ok_def remaining_def AutoIncrementIdGenerator_def dest!: spec [of _ i])
  then show ?case by (simp add: ids_ok_def)
next
  case (gen gs k h m num i r g' k')
  have "answer_post num m (gs i) k r g' k'"
    by (rule GenID_step [OF gen(3) _ gen(2)]) (use gen.IH in \<open>simp add: ids_ok_def\<close>)
  then show ?case
    by (cases r) (auto simp only: answer_post_def option.case
      intro!: ids_ok_shrink [OF gen.IH] ids_ok_answer [OF gen.IH])
qed

end

subsection \<open>The counter in the store\<close>

lemma EncodeAutoIncrementValue_unreadable: "DecodeAutoIncrementValue (EncodeAutoIncrementValue v) = None"
  by (simp add: EncodeAutoIncrementValue_def DecodeAutoIncrementValue_def CHECK_def)

lemma allocate_attempt_writes:
  assumes con: "si_contract sdk S" and "allocate_attempt sdk g num r x c = Some (again, st, x', c')" and "si_client S c"
  shows "si_client S c' \<and> (st = OK \<longrightarrow> (\<exists>v. si_db S c' (sg_key g) = Some (EncodeAutoIncrementValue v)))"
proof -
  obtain t where t: "DingodbStorage_NewTxn sdk c = Some t" "in_txn S (si_db S c) (sdk_txn t)"
    using si_contract.new_txn [OF con assms(3)] by blast
  obtain y where y: "read_counter (DingodbTxn sdk) (sg_key g) t = Some y"
    using assms(2) t(1) by (auto simp: allocate_attempt_def bind_eq_Some_conv)
  show ?thesis
  proof (cases y)
    case (Inl s)
    then have "s \<noteq> OK" using y by (auto simp: read_counter_def kv_txn.get_law [OF si_contract.in_txn_kv1 [OF con] t(2)] split: option.splits if_splits)
    then show ?thesis using assms(2) t y Inl by (auto simp: allocate_attempt_def in_txn_def)
  next
    case (Inr n)
    let ?v = "EncodeAutoIncrementValue (max n x + ucast num)"
    obtain t1 where t1: "Put (DingodbTxn sdk) (sg_key g) ?v t = Some (OK, t1)" "in_txn S (si_db S c) (sdk_txn t1)"
        "si_view S (sdk_txn t1) = (si_view S (sdk_txn t))(sg_key g \<mapsto> ?v)"
      using kv_txn.put_law [OF si_contract.in_txn_kv1 [OF con] t(2)] by blast
    obtain st2 t2 where c2: "Commit (DingodbTxn sdk) t1 = (st2, t2)" by (cases "Commit (DingodbTxn sdk) t1")
    have e: "st2 = st" "sdk_txn t2 = c'"
      using assms(2) t(1) y Inr t1(1) c2 by (auto simp: allocate_attempt_def tx_put_def)
    have c3: "Commit (DingodbTxn sdk) (t1\<lparr>sdk_txn := (\<lambda>_ c. c) r (sdk_txn t1)\<rparr>) = (st2, t2)" using c2 by simp
    note cc = si_contract.commit_env [OF con t1(2) isolated_idle c3]
    have "si_db S (sdk_txn t1) = si_db S c" using t1(2) by (simp add: in_txn_def)
    then show ?thesis
      using cc(1,2) t1(3) by (auto simp: e)
  qed
qed

lemma allocate_attempt_aborts:
  assumes con: "si_contract sdk S" and "si_client S c" and "si_db S c (sg_key g) = Some (EncodeAutoIncrementValue v)"
  shows "allocate_attempt sdk g num r x c = None"
proof -
  obtain t where t: "DingodbStorage_NewTxn sdk c = Some t" "in_txn S (si_db S c) (sdk_txn t)" "si_view S (sdk_txn t) = si_db S c"
    using si_contract.new_txn [OF con assms(2)] by blast
  then show ?thesis
    using kv_txn.get_law [OF si_contract.in_txn_kv1 [OF con] t(2)] assms(3)
    by (simp add: allocate_attempt_def read_counter_def EncodeAutoIncrementValue_unreadable)
qed

subsection \<open>Properties\<close>

definition ex_coordinator :: DummyCoordinatorClient where
  "ex_coordinator = \<lparr>dc_mdses = [], dc_auto_increments = [(1, \<lparr>ai_table_id = 1, ai_start_id = 1, ai_alloc_id = 1\<rparr>)]\<rparr>"

definition ex_coordinator_after :: "u64 \<Rightarrow> DummyCoordinatorClient" where
  "ex_coordinator_after n = ex_coordinator\<lparr>dc_auto_increments :=
     [(1, \<lparr>ai_table_id = 1, ai_start_id = 1, ai_alloc_id = n\<rparr>)]\<rparr>"

definition ex_gens :: "bool \<Rightarrow> IdGenerator" where
  "ex_gens i = AutoIncrementIdGenerator 1 1 4"

lemma ex_generate:
  "GenerateAutoIncrement dummy_coordinator 1 4 ex_coordinator = (Inr (1, 5), ex_coordinator_after 5)"
  "GenerateAutoIncrement dummy_coordinator 1 4 (ex_coordinator_after 5) = (Inr (5, 9), ex_coordinator_after 9)"
  by (simp_all add: dummy_coordinator_def Dummy_GenerateAutoIncrement_def ex_coordinator_def ex_coordinator_after_def om_find_def)

lemma ex_first_id:
  "GenID dummy_coordinator 2 0 (ex_gens i) ex_coordinator
    = Some (Some 1, (ex_gens i)\<lparr>ig_bundle_end := 5, ig_next_id := 3\<rparr>, ex_coordinator_after 5)"
  by (simp add: GenID_def AllocateIds_def ex_gens_def AutoIncrementIdGenerator_def take_bundle.simps ex_generate max_def sle_zero_iff)

lemma ex_second_id:
  "GenID dummy_coordinator 2 0 (ex_gens i) (ex_coordinator_after 5)
    = Some (Some 5, (ex_gens i)\<lparr>ig_bundle := 5, ig_bundle_end := 9, ig_next_id := 7\<rparr>, ex_coordinator_after 9)"
  by (simp add: GenID_def AllocateIds_def ex_gens_def AutoIncrementIdGenerator_def take_bundle.simps ex_generate max_def sle_zero_iff)

definition ex_history :: "(u64 \<times> u32) list" where
  "ex_history = [(1, 2), (5, 2)]"

definition ex_gens_after :: "bool \<Rightarrow> IdGenerator" where
  "ex_gens_after = (ex_gens(True := (ex_gens True)\<lparr>ig_bundle_end := 5, ig_next_id := 3\<rparr>))
     (False := (ex_gens False)\<lparr>ig_bundle := 5, ig_bundle_end := 9, ig_next_id := 7\<rparr>)"

lemma ex_id_run: "id_run dummy_coordinator 1 ex_gens_after (ex_coordinator_after 9) ex_history"
proof -
  have 0: "id_run dummy_coordinator 1 ex_gens ex_coordinator []"
    by (rule id_run.start) (intro allI exI [of _ 1] exI [of _ 4], simp add: ex_gens_def)
  have 1: "id_run dummy_coordinator 1 (ex_gens(True := (ex_gens True)\<lparr>ig_bundle_end := 5, ig_next_id := 3\<rparr>))
      (ex_coordinator_after 5) [(1, 2)]"
    using id_run.gen [OF 0 _ ex_first_id [of True]] by simp
  show ?thesis
    using id_run.gen [OF 1, where i = False and m = 0 and num = 2] ex_second_id [of False]
    by (simp add: ex_gens_after_def ex_history_def)
qed

text \<open>C29: Identifiers are never handed out twice. Take any number of \<open>AutoIncrementIdGenerator\<close> objects of one
  table, in any number of servers, each of which asks the same coordinator for bundles, in any interleaving,
  with any counts and any minimum below \<open>2 ^ 63\<close>, also when the coordinator fails calls. The
  intervals of identifiers of any two answers are disjoint. What is assumed of the coordinator is that
  it gives away consecutive bundles of the size asked for.
\<close>
theorem ids_never_reused:
  assumes "id_source C table_id counter" and "id_run C table_id gs k h" and "i < j" and "j < length h"
  shows "ids_of (h ! i) \<inter> ids_of (h ! j) = {}"
proof -
  have "sorted_wrt (\<lambda>x y. ids_of x \<inter> ids_of y = {}) h"
    using id_source.id_run_ok [OF assms(1,2)] by (simp add: ids_ok_def)
  then show ?thesis using assms(3,4) by (simp add: sorted_wrt_iff_nth_less)
qed

theorem ids_never_reused_witness: "ids_of (ex_history ! 0) \<inter> ids_of (ex_history ! 1) = {} \<and> ids_of (ex_history ! 0) = {1, 2}"
proof -
  have "ids_of (ex_history ! 0) \<inter> ids_of (ex_history ! 1) = {}"
    by (rule ids_never_reused [OF dummy_ids.id_source_axioms ex_id_run]) (simp_all add: ex_history_def)
  then show ?thesis by (auto simp: ids_of_def ex_history_def)
qed

text \<open>C30: A call of \<open>GenID\<close> for at least one identifier comes to an end, although its loop takes bundles
  until one starts at or above the next identifier: while the counter and the identifiers stay
  two bundles below \<open>2 ^ 63\<close>, it does not abort and it answers. An answer is not below the requested
  minimum and the generator can go on.
\<close>
theorem GenID_answers:
  assumes src: "id_source C table_id counter" and g: "gen_ok table_id g" and "0 < num"
    and n: "n = unat (max num (ig_batch_size g))"
    and "unat (max (ig_next_id g) m) + 2 * n < 2 ^ 63" and "counter k + n < 2 ^ 63"
  shows "\<exists>r g' k'. GenID C num m g k = Some (r, g', k') \<and> gen_ok table_id g' \<and> counter k \<le> counter k'
    \<and> (r = None \<or> m \<le> the r)"
proof -
  define g1 where "g1 = (if ig_next_id g < m then g\<lparr>ig_next_id := m\<rparr> else g)"
  have g1: "ig_next_id g1 = max (ig_next_id g) m" "ig_batch_size g1 = ig_batch_size g" "ig_table_id g1 = table_id"
    using g by (auto simp: g1_def gen_ok_def max_def)
  have "m \<le> max (ig_next_id g) m" by simp
  then have m: "unat m < 2 ^ 63" using assms(5) by (simp only: word_le_nat_alt)
  have "\<exists>y. take_bundle C table_id (max num (ig_batch_size g)) (max (ig_next_id g) m) k = Some y"
    using assms(3,5,6) by (intro id_source.take_bundle_ends [OF src]) (simp_all add: n less_max_iff_disj)
  then have "\<exists>y. GenID C num m g k = Some y"
    by (auto simp: GenID_def g1_def [symmetric] Let_def AllocateIds_def g1 split: prod.split)
  then obtain r g' k' where y: "GenID C num m g k = Some (r, g', k')" by auto
  then show ?thesis
    using id_source.GenID_step [OF src y g m]
    by (cases r) (auto simp: id_source.answer_post_def [OF src])
qed

theorem GenID_answers_witness:
  "\<exists>r g' k'. GenID dummy_coordinator 2 0 (ex_gens True) ex_coordinator = Some (r, g', k') \<and> gen_ok 1 g'
    \<and> dummy_counter 1 ex_coordinator \<le> dummy_counter 1 k' \<and> (r = None \<or> 0 \<le> the r)"
  by (rule GenID_answers [OF dummy_ids.id_source_axioms, where n = 4])
    (simp_all add: ex_gens_def AutoIncrementIdGenerator_def gen_ok_def dummy_counter_def ex_coordinator_def max_def om_find_def)


text \<open>C31: The identifier generator that keeps its counter in the store works once: after it has taken
  a bundle and the commit was answered with OK, the next time it, or any other generator of the same key, goes
  to the store for more it aborts, since \<open>AllocateIds\<close> writes a value of eight bytes and reads one of sixteen.
\<close>
theorem store_generator_aborts:
  assumes "si_contract sdk S" and "si_client S c"
    and "Store_AllocateIds sdk num g c = Some (OK, g1, c1)" and "sg_key g2 = sg_key g"
  shows "Store_AllocateIds sdk num2 g2 c1 = None"
proof -
  obtain x where "txn_loop (allocate_attempt sdk g num) FLAGS_txn_max_retry_times 0
      (max (sg_next_id g) (sg_last_alloc_id g)) c = Some (OK, x, c1)"
    using assms(3) by (auto simp: Store_AllocateIds_def bind_eq_Some_conv)
  from txn_loop_post [OF this, where P = "si_client S" and Q = "\<lambda>st _ c. st = OK \<longrightarrow>
      (\<exists>v. si_db S c (sg_key g) = Some (EncodeAutoIncrementValue v))"] assms(2) allocate_attempt_writes [OF assms(1)]
  obtain v where "si_client S c1" "si_db S c1 (sg_key g2) = Some (EncodeAutoIncrementValue v)"
    using assms(4) by auto
  then show ?thesis
    by (simp add: Store_AllocateIds_def txn_loop.simps allocate_attempt_aborts [OF assms(1)])
qed

definition ex_id_store :: "bytes mv_client" where
  "ex_id_store = \<lparr>mv_db = [], mv_base = [], mv_work = [], mv_writes = []\<rparr>"

definition ex_id_store_gen :: StoreIdGenerator where
  "ex_id_store_gen = \<lparr>sg_key = [1], sg_next_id = 1, sg_last_alloc_id = 1, sg_batch_size = 4\<rparr>"

definition ex_id_store_after :: "bytes mv_client" where
  "ex_id_store_after = \<lparr>mv_db = [([1], EncodeAutoIncrementValue 5)], mv_base = [],
     mv_work = [([1], EncodeAutoIncrementValue 5)], mv_writes = [[1]]\<rparr>"

theorem store_generator_aborts_witness:
  "Store_AllocateIds mv_sdk 4 ex_id_store_gen ex_id_store_after = None"
proof (rule store_generator_aborts [OF mv_contract])
  show "si_client mv_si ex_id_store" by (simp add: mv_si_def ex_id_store_def)
  show "Store_AllocateIds mv_sdk 4 ex_id_store_gen ex_id_store
      = Some (OK, ex_id_store_gen\<lparr>sg_last_alloc_id := 5, sg_next_id := 1\<rparr>, ex_id_store_after)"
    by (simp add: Store_AllocateIds_def txn_loop.simps allocate_attempt_def DingodbStorage_NewTxn_def NewSdkTxn_def
        read_counter_def DingodbTxn_def DingodbTxn_Get_def DingodbTxn_Put_def DingodbTxn_write_def
        DingodbTxn_Commit_def tx_put_def mv_sdk_def mv_apply_def mv_conflict_def sdk_success_def sdk_not_found_def
        read_error_def ex_id_store_def ex_id_store_gen_def ex_id_store_after_def om_find_def max_def Let_def)
qed simp

end
