(* ===== verification/FileSystem.thy ===== *)
theory FileSystem
  imports Objects Sessions Quota IdGen MdsMeta
begin

text \<open>
  \<^verbatim>\<open>class FileSystem\<close> of \<^verbatim>\<open>mdsv2/filesystem/filesystem.{h,cc}\<close>: the requests a metadata server answers on one
  file system. A request reads and updates the server's memory (the cached inodes and partitions, the
  remembered parents, the quotas, the sessions) and runs its operation on the store. \<open>None\<close> is an abort,
  a null dereference or a loop that does not end; \<open>Inl\<close> is the status of a request that fails.
  A server handles its requests one after the other as far as its memory is concerned; the other
  clients of the store act while an operation runs (\<open>Surroundings\<close>).
\<close>

subsection \<open>State\<close>

text \<open>\<^verbatim>\<open>class IdGenerator\<close>: \<open>'g\<close> is the state of a generator. \<^verbatim>\<open>GenID\<close> may leave the identifier unset.\<close>

record 'g IdGeneratorI =
  gen_Init :: "'g \<Rightarrow> bool \<times> 'g"
  gen_GenID :: "u32 \<Rightarrow> u64 \<Rightarrow> 'g \<Rightarrow> (bool \<times> u64 option \<times> 'g) option"

definition auto_generator :: "'k CoordinatorClient \<Rightarrow> (IdGenerator \<times> 'k) IdGeneratorI" where
  "auto_generator C =
     \<lparr>gen_Init = (\<lambda>(g, k). let (b, k) = IdGenerator_Init C g k in (b, (g, k))),
      gen_GenID = (\<lambda>num min_slice_id (g, k).
        map_option (\<lambda>(r, g, k). (r \<noteq> None, r, (g, k))) (GenID C num min_slice_id g k))\<rparr>"

record Context =
  is_bypass_cache :: bool
  inode_version :: u64
  client_id :: bytes
  get_ancestors :: "u64 list"

text \<open>
  What a request finds around it: the serializer, the store, the generator, the known servers, the
  surroundings of its operation, the clock when the handler and when its operation read it, the next
  unique identifier, whether the worker of the renamer takes tasks, and the value of the member that
  \<^verbatim>\<open>CreateRootOperation\<close> leaves unset.
\<close>

record ('c, 'v, 'g) World =
  w_pb :: "'v pb"
  w_sdk :: "('c, 'v) Sdk"
  w_gen :: "'g IdGeneratorI"
  w_mds_meta_map :: MDSMetaMap
  w_su :: "'c Surroundings"
  w_time_ns :: u64
  w_op_time_ns :: u64
  w_uuid :: bytes
  w_renamer_takes :: bool
  w_unset_fs_id :: u32

text \<open>
  The members. \<open>inode_heap\<close> and \<open>partition_heap\<close> are the objects the caches point to, \<open>refresh_sent\<close>
  the requests sent to other servers.
\<close>

record 'g FileSystem =
  self_mds_id :: u64
  fsys_info :: FsInfoType
  fsys_id :: u32
  can_serve :: bool
  id_generator :: 'g
  file_session_manager :: FileSessionManager
  partition_cache :: PartitionCache
  inode_cache :: InodeCache
  parent_memo :: ParentMemo
  quota_manager :: QuotaManager
  inode_heap :: "AttrType list"
  partition_heap :: "Partition list"
  refresh_sent :: "(MDSMeta \<times> u32 \<times> u64 list) list"

record EntryOut =
  eo_name :: bytes
  eo_attr :: AttrType

record MkParam =
  mk_name :: bytes
  mk_flag :: u32
  mk_uid :: u32
  mk_gid :: u32
  mk_mode :: u32
  mk_parent :: u64
  mk_rdev :: u64

record RenameParam =
  rp_old_parent :: u64
  rp_old_name :: bytes
  rp_new_parent :: u64
  rp_new_name :: bytes
  rp_old_ancestors :: "u64 list"
  rp_new_ancestors :: "u64 list"

definition kRootIno :: u64 where "kRootIno = 1"
definition kRootParentIno :: u64 where "kRootParentIno = 0"
definition kEmptyDirMinLinkNum :: u32 where "kEmptyDirMinLinkNum = 2"
definition FLAGS_filesystem_name_max_size :: nat where "FLAGS_filesystem_name_max_size = 1024"
definition S_IFDIR :: u32 where "S_IFDIR = 0x4000"
definition S_IFLNK :: u32 where "S_IFLNK = 0xA000"

definition IsReserveNode :: "u64 \<Rightarrow> bool" where
  "IsReserveNode ino = (ino = kRootIno)"

definition IsReserveName :: "bytes \<Rightarrow> bool" where
  "IsReserveName name = (name = str ''.stats'' \<or> name = str ''.recycle'')"

definition IsInvalidName :: "bytes \<Rightarrow> bool" where
  "IsInvalidName name = (name = [] \<or> length name > FLAGS_filesystem_name_max_size)"

definition IsDir :: "u64 \<Rightarrow> bool" where
  "IsDir ino = (ino AND 1 = 1)"

definition IsFile :: "u64 \<Rightarrow> bool" where
  "IsFile ino = (ino AND 1 = 0)"

subsection \<open>Objects\<close>

text \<open>\<^verbatim>\<open>Inode::New\<close> and \<^verbatim>\<open>Partition::New\<close>, updates through a pointer, and the caches as members.\<close>

definition new_inode :: "AttrType \<Rightarrow> 'g FileSystem \<Rightarrow> nat \<times> 'g FileSystem" where
  "new_inode attr fs = (length (inode_heap fs), fs\<lparr>inode_heap := inode_heap fs @ [attr]\<rparr>)"

definition new_partition :: "Partition \<Rightarrow> 'g FileSystem \<Rightarrow> nat \<times> 'g FileSystem" where
  "new_partition p fs = (length (partition_heap fs), fs\<lparr>partition_heap := partition_heap fs @ [p]\<rparr>)"

definition inode_at :: "'g FileSystem \<Rightarrow> nat \<Rightarrow> AttrType" where
  "inode_at fs a = inode_heap fs ! a"

definition ParentInode :: "'g FileSystem \<Rightarrow> nat \<Rightarrow> nat" where
  "ParentInode fs a = parent_inode (partition_heap fs ! a)"

definition update_inode :: "nat \<Rightarrow> AttrType \<Rightarrow> 'g FileSystem \<Rightarrow> 'g FileSystem" where
  "update_inode a attr fs = fs\<lparr>inode_heap := (inode_heap fs)[a := snd (UpdateIf attr (inode_heap fs ! a))]\<rparr>"

definition at_partition :: "(Partition \<Rightarrow> Partition) \<Rightarrow> nat \<Rightarrow> 'g FileSystem \<Rightarrow> 'g FileSystem" where
  "at_partition f a fs = fs\<lparr>partition_heap := (partition_heap fs)[a := f (partition_heap fs ! a)]\<rparr>"

definition put_inode :: "u64 \<Rightarrow> nat \<Rightarrow> 'g FileSystem \<Rightarrow> 'g FileSystem option" where
  "put_inode ino a fs = map_option (\<lambda>ic. fs\<lparr>inode_cache := ic\<rparr>) (PutInode ino a (inode_cache fs))"

definition put_partition :: "u64 \<Rightarrow> nat \<Rightarrow> 'g FileSystem \<Rightarrow> 'g FileSystem option" where
  "put_partition ino a fs =
     map_option (\<lambda>pc. fs\<lparr>partition_cache := pc\<rparr>) (PartitionCache_Put ino a (partition_cache fs))"

definition delete_partition :: "u64 \<Rightarrow> 'g FileSystem \<Rightarrow> 'g FileSystem option" where
  "delete_partition ino fs =
     map_option (\<lambda>pc. fs\<lparr>partition_cache := pc\<rparr>) (PartitionCache_Delete ino (partition_cache fs))"

definition DeleteInodeFromCache :: "u64 \<Rightarrow> 'g FileSystem \<Rightarrow> 'g FileSystem option" where
  "DeleteInodeFromCache ino fs = map_option (\<lambda>ic. fs\<lparr>inode_cache := ic\<rparr>) (DeleteInode ino (inode_cache fs))"

definition GetInodeFromCache :: "u64 \<Rightarrow> 'g FileSystem \<Rightarrow> (nat option \<times> 'g FileSystem) option" where
  "GetInodeFromCache ino fs =
     map_option (\<lambda>(a, ic). (a, fs\<lparr>inode_cache := ic\<rparr>)) (InodeCache_GetInode ino (inode_cache fs))"

definition GetPartitionFromCache :: "u64 \<Rightarrow> 'g FileSystem \<Rightarrow> (nat option \<times> 'g FileSystem) option" where
  "GetPartitionFromCache parent fs =
     map_option (\<lambda>(a, pc). (a, fs\<lparr>partition_cache := pc\<rparr>)) (PartitionCache_Get parent (partition_cache fs))"

definition GetAllInodesFromCache :: "'g FileSystem \<Rightarrow> (u64, nat) omap option" where
  "GetAllInodesFromCache fs = GetAllInodes (inode_cache fs)"

definition GetAllPartitionsFromCache :: "'g FileSystem \<Rightarrow> (u64, nat) omap option" where
  "GetAllPartitionsFromCache fs = PartitionCache_GetAll (partition_cache fs)"

text \<open>
  \<^verbatim>\<open>weak_ptr::lock\<close>: an inode is alive while the inode cache, a cached partition or a partition the
  request holds points to it.
\<close>

definition inode_alive :: "nat list \<Rightarrow> nat \<Rightarrow> 'g FileSystem \<Rightarrow> bool" where
  "inode_alive held a fs =
     (a \<in> set (map snd (entries (inode_cache fs)) @
        map (ParentInode fs) (map snd (entries (partition_cache fs)) @ held)))"

definition Dentry_Inode :: "nat list \<Rightarrow> CachedDentry \<Rightarrow> 'g FileSystem \<Rightarrow> nat option" where
  "Dentry_Inode held dentry fs =
     (case snd dentry of
        None \<Rightarrow> None
      | Some a \<Rightarrow> if inode_alive held a fs then Some a else None)"

text \<open>The usage of a request, charged to the file system and to the directories.\<close>

definition update_fs_usage :: "u64 \<Rightarrow> u64 \<Rightarrow> 'g FileSystem \<Rightarrow> 'g FileSystem" where
  "update_fs_usage b i fs = fs\<lparr>quota_manager := UpdateFsUsage b i (quota_manager fs)\<rparr>"

definition update_dir_usage :: "u64 \<Rightarrow> u64 \<Rightarrow> u64 \<Rightarrow> 'g FileSystem \<Rightarrow> 'g FileSystem option" where
  "update_dir_usage parent b i fs =
     map_option (\<lambda>qm. fs\<lparr>quota_manager := qm\<rparr>) (UpdateDirUsage (parent_memo fs) parent b i (quota_manager fs))"

definition check_quota :: "('c, 'v, 'g) World \<Rightarrow> u64 \<Rightarrow> u64 \<Rightarrow> u64 \<Rightarrow> 'g FileSystem \<Rightarrow> bool option" where
  "check_quota w ino b i fs = CheckQuota (w_pb w) (parent_memo fs) ino b i (quota_manager fs)"

definition remember :: "u64 \<Rightarrow> u64 \<Rightarrow> 'g FileSystem \<Rightarrow> 'g FileSystem" where
  "remember ino parent fs = fs\<lparr>parent_memo := Remeber ino parent (parent_memo fs)\<rparr>"

definition forget :: "u64 \<Rightarrow> 'g FileSystem \<Rightarrow> 'g FileSystem" where
  "forget ino fs = fs\<lparr>parent_memo := Forget ino (parent_memo fs)\<rparr>"

definition run_operation ::
    "('c, 'v, 'g) World \<Rightarrow> Operation \<Rightarrow> 'c \<Rightarrow> (Status \<times> OpResult \<times> 'c) option" where
  "run_operation w operation c = RunOperation (w_pb w) (w_sdk w) (w_su w) operation c"

subsection \<open>The file system and its servers\<close>

definition Epoch :: "'g FileSystem \<Rightarrow> u64" where
  "Epoch fs =
     (case fi_partition_policy (fsys_info fs) of
        MONOLITHIC_PARTITION m \<Rightarrow> mono_epoch m
      | PARENT_ID_HASH_PARTITION parent_hash \<Rightarrow> hash_epoch parent_hash
      | UNKNOWN_PARTITION \<Rightarrow> 0)"

definition IsMonoPartition :: "'g FileSystem \<Rightarrow> bool" where
  "IsMonoPartition fs =
     (case fi_partition_policy (fsys_info fs) of MONOLITHIC_PARTITION _ \<Rightarrow> True | _ \<Rightarrow> False)"

definition IsParentHashPartition :: "'g FileSystem \<Rightarrow> bool" where
  "IsParentHashPartition fs =
     (case fi_partition_policy (fsys_info fs) of PARENT_ID_HASH_PARTITION _ \<Rightarrow> True | _ \<Rightarrow> False)"

definition CanServe :: "FsInfoType \<Rightarrow> u64 \<Rightarrow> bool" where
  "CanServe fs_info mds_id =
     (case fi_partition_policy fs_info of
        MONOLITHIC_PARTITION m \<Rightarrow> mono_mds_id m = mds_id
      | PARENT_ID_HASH_PARTITION parent_hash \<Rightarrow> om_find (hash_distributions parent_hash) mds_id \<noteq> None
      | UNKNOWN_PARTITION \<Rightarrow> False)"

text \<open>\<^verbatim>\<open>FsInfo::Update\<close>: only a newer description replaces the one in memory.\<close>

definition FsInfo_Update :: "FsInfoType \<Rightarrow> FsInfoType \<Rightarrow> FsInfoType" where
  "FsInfo_Update new old =
     (if fi_last_update_time_ns new > fi_last_update_time_ns old then new else old)"

definition new_FileSystem :: "u64 \<Rightarrow> FsInfoType \<Rightarrow> 'g \<Rightarrow> 'g FileSystem" where
  "new_FileSystem mds_id fs_info generator =
     \<lparr>self_mds_id = mds_id, fsys_info = fs_info, fsys_id = fi_fs_id fs_info,
      can_serve = CanServe fs_info mds_id, id_generator = generator,
      file_session_manager = new_FileSessionManager (fi_fs_id fs_info),
      partition_cache = new_PartitionCache, inode_cache = new_InodeCache, parent_memo = [],
      quota_manager = new_QuotaManager (fi_fs_id fs_info), inode_heap = [], partition_heap = [],
      refresh_sent = []\<rparr>"

definition FileSystem_Init ::
    "('c, 'v, 'g) World \<Rightarrow> 'g FileSystem \<Rightarrow> 'c \<Rightarrow> (bool \<times> 'g FileSystem \<times> 'c) option" where
  "FileSystem_Init w fs c = do {
     let (b, g) = gen_Init (w_gen w) (id_generator fs);
     let fs = fs\<lparr>id_generator := g\<rparr>;
     if \<not> b then Some (False, fs, c)
     else do {
       (b, qm, c) \<leftarrow> QuotaManager_Init (w_pb w) (w_sdk w) (su_env (w_su w)) (quota_manager fs) c;
       Some (b, fs\<lparr>quota_manager := qm\<rparr>, c)
     }
   }"

definition FileSystem_Destroy ::
    "('c, 'v, 'g) World \<Rightarrow> 'g FileSystem \<Rightarrow> 'c \<Rightarrow> ('g FileSystem \<times> 'c) option" where
  "FileSystem_Destroy w fs c = do {
     (qm, c) \<leftarrow> QuotaManager_Destroy (w_pb w) (w_sdk w) (su_env (w_su w)) (quota_manager fs) c;
     Some (fs\<lparr>quota_manager := qm\<rparr>, c)
   }"

text \<open>Odd numbers are directories, even ones files. The variable of the caller is 0 before the call.\<close>

definition GenDirIno ::
    "('c, 'v, 'g) World \<Rightarrow> 'g FileSystem \<Rightarrow> ((Status + u64) \<times> 'g FileSystem) option" where
  "GenDirIno w fs = do {
     (ret, r, g) \<leftarrow> gen_GenID (w_gen w) 1 0 (id_generator fs);
     let ino = push_bit 1 (case r of Some i \<Rightarrow> i | None \<Rightarrow> 0) + 1;
     Some (if ret then Inr ino else Inl EGEN_FSID, fs\<lparr>id_generator := g\<rparr>)
   }"

definition GenFileIno ::
    "('c, 'v, 'g) World \<Rightarrow> 'g FileSystem \<Rightarrow> ((Status + u64) \<times> 'g FileSystem) option" where
  "GenFileIno w fs = do {
     (ret, r, g) \<leftarrow> gen_GenID (w_gen w) 1 0 (id_generator fs);
     let ino = push_bit 1 (case r of Some i \<Rightarrow> i | None \<Rightarrow> 0);
     Some (if ret then Inr ino else Inl EGEN_FSID, fs\<lparr>id_generator := g\<rparr>)
   }"

text \<open>The two loops over the distribution, in the order of the servers; a bucket number of 0 divides by zero.\<close>

fun find_bucket :: "u32 \<Rightarrow> (u64, u32 list) omap \<Rightarrow> u64" where
  "find_bucket target [] = 0"
| "find_bucket target ((mds_id, bucket_ids) # ds) =
     (if target \<in> set bucket_ids \<and> mds_id > 0 then mds_id else find_bucket target ds)"

definition GetMdsIdByIno :: "u64 \<Rightarrow> 'g FileSystem \<Rightarrow> u64 option" where
  "GetMdsIdByIno ino fs =
     (case fi_partition_policy (fsys_info fs) of
        PARENT_ID_HASH_PARTITION parent_hash \<Rightarrow> do {
          CHECK (hash_bucket_num parent_hash \<noteq> 0);
          Some (find_bucket (ucast (ino mod ucast (hash_bucket_num parent_hash)))
                  (hash_distributions parent_hash))
        }
      | _ \<Rightarrow> None)"

definition SendRefreshInode :: "('c, 'v, 'g) World \<Rightarrow> u64 \<Rightarrow> u64 list \<Rightarrow> 'g FileSystem \<Rightarrow> 'g FileSystem" where
  "SendRefreshInode w mds_id inoes fs =
     (case GetMDSMeta mds_id (w_mds_meta_map w) of
        None \<Rightarrow> fs
      | Some mds_meta \<Rightarrow> fs\<lparr>refresh_sent := refresh_sent fs @ [(mds_meta, fsys_id fs, inoes)]\<rparr>)"

fun remember_chain :: "u64 list \<Rightarrow> ParentMemo \<Rightarrow> ParentMemo" where
  "remember_chain (ino # parent # inoes) memo = remember_chain (parent # inoes) (Remeber ino parent memo)"
| "remember_chain inoes memo = memo"

definition UpdateParentMemo :: "u64 list \<Rightarrow> 'g FileSystem \<Rightarrow> 'g FileSystem" where
  "UpdateParentMemo ancestors fs =
     (if IsParentHashPartition fs then fs\<lparr>parent_memo := remember_chain ancestors (parent_memo fs)\<rparr> else fs)"

end
