(* ===== verification/Requests.thy ===== *)
theory Requests
  imports FileSystem
begin

text \<open>
  The requests of \<^verbatim>\<open>class FileSystem\<close> (\<^verbatim>\<open>mdsv2/filesystem/filesystem.cc\<close>), one definition each, and the
  functions with which they get at partitions and inodes: from the cache, or from the store when the
  cache has no entry, an entry older than the client asks for, or is to be bypassed.
\<close>

subsection \<open>Partitions and inodes\<close>

definition GetPartitionFromStore ::
    "('c, 'v, 'g) World \<Rightarrow> u64 \<Rightarrow> 'g FileSystem \<Rightarrow> 'c \<Rightarrow> ((Status + nat) \<times> 'g FileSystem \<times> 'c) option" where
  "GetPartitionFromStore w parent fs c = do {
     (s, e) \<leftarrow> EncodeDentryRange (fsys_id fs) parent;
     (r, c) \<leftarrow> DingodbStorage_Scan (w_sdk w) \<lparr>start_key = s, end_key = e\<rparr> c;
     case r of
       Inl status \<Rightarrow> Some (Inl status, fs, c)
     | Inr [] \<Rightarrow> Some (Inl ENOT_FOUND, fs, c)
     | Inr (parent_kv # kvs) \<Rightarrow> do {
         CHECK (kv_key parent_kv = s);
         attr \<leftarrow> DecodeInodeValue (w_pb w) (kv_value parent_kv);
         let (inode, fs) = new_inode attr fs;
         dentries \<leftarrow> decode_all (DecodeDentryValue (w_pb w)) kvs;
         let (part, fs) = new_partition
               (fold (\<lambda>d. PutChild (Dentry_of_pb d, None)) dentries (new_Partition inode)) fs;
         fs \<leftarrow> put_partition parent part fs;
         fs \<leftarrow> put_inode parent inode fs;
         Some (Inr part, fs, c)
       }
   }"

text \<open>Every failure to fetch is reported as \<^verbatim>\<open>ENOT_FOUND\<close>.\<close>

definition fetch_partition ::
    "('c, 'v, 'g) World \<Rightarrow> u64 \<Rightarrow> 'g FileSystem \<Rightarrow> 'c \<Rightarrow> ((Status + nat) \<times> 'g FileSystem \<times> 'c) option" where
  "fetch_partition w parent fs c = do {
     (r, fs, c) \<leftarrow> GetPartitionFromStore w parent fs c;
     Some (map_sum (\<lambda>_. ENOT_FOUND) (\<lambda>part. part) r, fs, c)
   }"

definition GetPartition_version ::
    "('c, 'v, 'g) World \<Rightarrow> Context \<Rightarrow> u64 \<Rightarrow> u64 \<Rightarrow> 'g FileSystem \<Rightarrow> 'c
      \<Rightarrow> ((Status + nat) \<times> 'g FileSystem \<times> 'c) option" where
  "GetPartition_version w ctx version parent fs c =
     (if is_bypass_cache ctx then fetch_partition w parent fs c
      else do {
        (r, fs) \<leftarrow> GetPartitionFromCache parent fs;
        case r of
          None \<Rightarrow> fetch_partition w parent fs c
        | Some part \<Rightarrow>
            if version > at_version (inode_at fs (ParentInode fs part)) then fetch_partition w parent fs c
            else Some (Inr part, fs, c)
      })"

definition GetPartition ::
    "('c, 'v, 'g) World \<Rightarrow> Context \<Rightarrow> u64 \<Rightarrow> 'g FileSystem \<Rightarrow> 'c
      \<Rightarrow> ((Status + nat) \<times> 'g FileSystem \<times> 'c) option" where
  "GetPartition w ctx parent fs c = GetPartition_version w ctx (inode_version ctx) parent fs c"

definition GetDentryFromStore ::
    "('c, 'v, 'g) World \<Rightarrow> u64 \<Rightarrow> bytes \<Rightarrow> 'g FileSystem \<Rightarrow> 'c \<Rightarrow> ((Status + CachedDentry) \<times> 'c) option" where
  "GetDentryFromStore w parent name fs c = do {
     k \<leftarrow> EncodeDentryKey (fsys_id fs) parent name;
     (r, c) \<leftarrow> DingodbStorage_Get (w_sdk w) k c;
     case r of
       Inl status \<Rightarrow> Some (Inl ENOT_FOUND, c)
     | Inr v \<Rightarrow> do {
         dentry \<leftarrow> DecodeDentryValue (w_pb w) v;
         Some (Inr (Dentry_of_pb dentry, None), c)
       }
   }"

text \<open>
  The inner loop of \<^verbatim>\<open>ListDentryFromStore\<close>: \<open>Inl\<close> is the return in the middle of it, when the limit is
  reached. The outer loop reads the same range again after a full batch.
\<close>

fun list_batch ::
    "('v \<Rightarrow> DentryType option) \<Rightarrow> nat \<Rightarrow> bool \<Rightarrow> 'v KeyValue list \<Rightarrow> CachedDentry list
      \<Rightarrow> (CachedDentry list + CachedDentry list) option" where
  "list_batch dec limit is_only_dir [] acc = Some (Inr acc)"
| "list_batch dec limit is_only_dir (kv # kvs) acc = do {
     dentry \<leftarrow> dec (kv_value kv);
     if is_only_dir \<and> de_type dentry \<noteq> DIRECTORY then list_batch dec limit is_only_dir kvs acc
     else let acc = acc @ [(Dentry_of_pb dentry, None)] in
          if length acc \<ge> limit then Some (Inl acc) else list_batch dec limit is_only_dir kvs acc
   }"

partial_function (option) list_batches ::
    "(unit \<Rightarrow> Status + 'v KeyValue list) \<Rightarrow> nat
      \<Rightarrow> ('v KeyValue list \<Rightarrow> CachedDentry list \<Rightarrow> (CachedDentry list + CachedDentry list) option)
      \<Rightarrow> CachedDentry list \<Rightarrow> (Status + (bool \<times> CachedDentry list)) option" where
  "list_batches scan batch body acc =
     (case scan () of
        Inl status \<Rightarrow> Some (Inl status)
      | Inr kvs \<Rightarrow> do {
          r \<leftarrow> body kvs acc;
          case r of
            Inl acc \<Rightarrow> Some (Inr (True, acc))
          | Inr acc \<Rightarrow> if length kvs \<ge> batch then list_batches scan batch body acc else Some (Inr (False, acc))
        })"

definition ListDentryFromStore ::
    "('c, 'v, 'g) World \<Rightarrow> u64 \<Rightarrow> bytes \<Rightarrow> u32 \<Rightarrow> bool \<Rightarrow> 'g FileSystem \<Rightarrow> 'c
      \<Rightarrow> ((Status + CachedDentry list) \<times> 'c) option" where
  "ListDentryFromStore w parent last_name limit is_only_dir fs c = do {
     (s, e) \<leftarrow> EncodeDentryRange (fsys_id fs) parent;
     s \<leftarrow> (if last_name \<noteq> [] then EncodeDentryKey (fsys_id fs) parent last_name else Some s);
     txn \<leftarrow> DingodbStorage_NewTxn (w_sdk w) c;
     r \<leftarrow> list_batches
        (\<lambda>_. Scan (DingodbTxn (w_sdk w)) \<lparr>start_key = s, end_key = e\<rparr> (of_nat FLAGS_fs_scan_batch_size) txn)
        FLAGS_fs_scan_batch_size
        (list_batch (DecodeDentryValue (w_pb w)) (unat limit) is_only_dir) [];
     case r of
       Inl status \<Rightarrow> Some (Inl status, sdk_txn txn)
     | Inr (full, dentries) \<Rightarrow>
         if full then Some (Inr dentries, sdk_txn txn)
         else let (status, txn) = Commit (DingodbTxn (w_sdk w)) txn
              in Some (if ok status then Inr dentries else Inl status, sdk_txn txn)
   }"

definition GetInodeFromStore ::
    "('c, 'v, 'g) World \<Rightarrow> u64 \<Rightarrow> 'g FileSystem \<Rightarrow> 'c \<Rightarrow> ((Status + nat) \<times> 'g FileSystem \<times> 'c) option" where
  "GetInodeFromStore w ino fs c = do {
     k \<leftarrow> EncodeInodeKey (fsys_id fs) ino;
     (r, c) \<leftarrow> DingodbStorage_Get (w_sdk w) k c;
     case r of
       Inl status \<Rightarrow> Some (Inl ENOT_FOUND, fs, c)
     | Inr v \<Rightarrow> do {
         attr \<leftarrow> DecodeInodeValue (w_pb w) v;
         let (inode, fs) = new_inode attr fs;
         fs \<leftarrow> put_inode ino inode fs;
         Some (Inr inode, fs, c)
       }
   }"

text \<open>\<^verbatim>\<open>GetInode\<close> through an entry of a partition: a fetched inode becomes the one the entry points to.\<close>

definition fetch_child ::
    "('c, 'v, 'g) World \<Rightarrow> CachedDentry \<Rightarrow> nat \<Rightarrow> 'g FileSystem \<Rightarrow> 'c
      \<Rightarrow> ((Status + nat) \<times> 'g FileSystem \<times> 'c) option" where
  "fetch_child w dentry part fs c = do {
     (r, fs, c) \<leftarrow> GetInodeFromStore w (d_ino (fst dentry)) fs c;
     Some (case r of
       Inl status \<Rightarrow> (Inl status, fs, c)
     | Inr inode \<Rightarrow> (Inr inode, at_partition (PutChild (fst dentry, Some inode)) part fs, c))
   }"

definition GetInode_dentry ::
    "('c, 'v, 'g) World \<Rightarrow> Context \<Rightarrow> u64 \<Rightarrow> CachedDentry \<Rightarrow> nat \<Rightarrow> 'g FileSystem \<Rightarrow> 'c
      \<Rightarrow> ((Status + nat) \<times> 'g FileSystem \<times> 'c) option" where
  "GetInode_dentry w ctx version dentry part fs c =
     (if is_bypass_cache ctx then fetch_child w dentry part fs c
      else do {
        (inode, fs) \<leftarrow> (case Dentry_Inode [part] dentry fs of
             Some a \<Rightarrow> Some (Some a, fs)
           | None \<Rightarrow> GetInodeFromCache (d_ino (fst dentry)) fs);
        case inode of
          None \<Rightarrow> fetch_child w dentry part fs c
        | Some a \<Rightarrow>
            if at_version (inode_at fs a) < version then fetch_child w dentry part fs c
            else Some (Inr a, fs, c)
      })"

definition GetInode_version ::
    "('c, 'v, 'g) World \<Rightarrow> Context \<Rightarrow> u64 \<Rightarrow> u64 \<Rightarrow> 'g FileSystem \<Rightarrow> 'c
      \<Rightarrow> ((Status + nat) \<times> 'g FileSystem \<times> 'c) option" where
  "GetInode_version w ctx version ino fs c =
     (if is_bypass_cache ctx then GetInodeFromStore w ino fs c
      else do {
        (inode, fs) \<leftarrow> GetInodeFromCache ino fs;
        case inode of
          None \<Rightarrow> GetInodeFromStore w ino fs c
        | Some a \<Rightarrow>
            if at_version (inode_at fs a) < version then GetInodeFromStore w ino fs c
            else Some (Inr a, fs, c)
      })"

definition GetInode ::
    "('c, 'v, 'g) World \<Rightarrow> Context \<Rightarrow> u64 \<Rightarrow> 'g FileSystem \<Rightarrow> 'c
      \<Rightarrow> ((Status + nat) \<times> 'g FileSystem \<times> 'c) option" where
  "GetInode w ctx ino fs c = GetInode_version w ctx (inode_version ctx) ino fs c"

text \<open>\<^verbatim>\<open>DecodeInodeKey\<close> on every key, whose results are dropped, and the value of each.\<close>

fun decode_inodes :: "'v pb \<Rightarrow> 'v KeyValue list \<Rightarrow> AttrType list option" where
  "decode_inodes pb [] = Some []"
| "decode_inodes pb (kv # kvs) = do {
     _ \<leftarrow> DecodeInodeKey (kv_key kv);
     attr \<leftarrow> DecodeInodeValue pb (kv_value kv);
     attrs \<leftarrow> decode_inodes pb kvs;
     Some (attr # attrs)
   }"

fun inode_keys :: "u32 \<Rightarrow> u64 list \<Rightarrow> bytes list option" where
  "inode_keys fs_id [] = Some []"
| "inode_keys fs_id (ino # inoes) = do {
     k \<leftarrow> EncodeInodeKey fs_id ino;
     ks \<leftarrow> inode_keys fs_id inoes;
     Some (k # ks)
   }"

text \<open>The objects made here are not shared: they are their attributes.\<close>

definition BatchGetInodeFromStore ::
    "('c, 'v, 'g) World \<Rightarrow> u64 list \<Rightarrow> 'g FileSystem \<Rightarrow> 'c \<Rightarrow> ((Status + AttrType list) \<times> 'c) option" where
  "BatchGetInodeFromStore w inoes fs c = do {
     keys \<leftarrow> inode_keys (fsys_id fs) inoes;
     (r, c) \<leftarrow> DingodbStorage_BatchGet (w_sdk w) keys c;
     case r of
       Inl status \<Rightarrow> Some (Inl ENOT_FOUND, c)
     | Inr kvs \<Rightarrow> do {
         attrs \<leftarrow> decode_inodes (w_pb w) kvs;
         Some (Inr attrs, c)
       }
   }"

definition GetDelFileFromStore ::
    "('c, 'v, 'g) World \<Rightarrow> u64 \<Rightarrow> 'g FileSystem \<Rightarrow> 'c \<Rightarrow> ((Status + AttrType) \<times> 'c) option" where
  "GetDelFileFromStore w ino fs c = do {
     (r, c) \<leftarrow> DingodbStorage_Get (w_sdk w) (EncodeDelFileKey (fsys_id fs) ino) c;
     case r of
       Inl status \<Rightarrow> Some (Inl ENOT_FOUND, c)
     | Inr v \<Rightarrow> do { attr \<leftarrow> DecodeDelFileValue (w_pb w) v; Some (Inr attr, c) }
   }"

definition DestoryInode ::
    "('c, 'v, 'g) World \<Rightarrow> u32 \<Rightarrow> u64 \<Rightarrow> 'g FileSystem \<Rightarrow> 'c \<Rightarrow> (Status \<times> 'g FileSystem \<times> 'c) option" where
  "DestoryInode w fs_id ino fs c = do {
     inode_key \<leftarrow> EncodeInodeKey fs_id ino;
     (status, c) \<leftarrow> DingodbStorage_Delete (w_sdk w) inode_key c;
     if \<not> ok status then Some (EBACKEND_STORE, fs, c)
     else do {
       fs \<leftarrow> DeleteInodeFromCache ino fs;
       Some (OK, fs, c)
     }
   }"

subsection \<open>Creating the file system\<close>

definition root_attr :: "('c, 'v, 'g) World \<Rightarrow> u32 \<Rightarrow> AttrType" where
  "root_attr w fs_id = default_attr\<lparr>
     at_fs_id := fs_id, at_ino := kRootIno, at_length := 0, at_uid := 1008, at_gid := 1008,
     at_mode := S_IFDIR OR 0x1FF, at_nlink := kEmptyDirMinLinkNum, at_type := DIRECTORY, at_rdev := 0,
     at_ctime := w_time_ns w, at_mtime := w_time_ns w, at_atime := w_time_ns w\<rparr>"

definition CreateRoot ::
    "('c, 'v, 'g) World \<Rightarrow> 'g FileSystem \<Rightarrow> 'c \<Rightarrow> (Status \<times> 'g FileSystem \<times> 'c) option" where
  "CreateRoot w fs c = do {
     CHECK (fsys_id fs > 0);
     let attr = root_attr w (fsys_id fs);
     let (inode, fs) = new_inode attr fs;
     let dentry = \<lparr>d_name = str ''/'', d_fs_id = fsys_id fs, d_ino = kRootIno, d_parent = kRootParentIno,
                   d_type = DIRECTORY, d_flag = 0\<rparr>;
     (status, result, c) \<leftarrow> run_operation w (CreateRootOperation (w_unset_fs_id w) dentry attr) c;
     if \<not> ok status then Some (EBACKEND_STORE, fs, c)
     else do {
       fs \<leftarrow> put_inode (at_ino attr) inode fs;
       let (part, fs) = new_partition (new_Partition inode) fs;
       fs \<leftarrow> put_partition (d_ino dentry) part fs;
       Some (OK, fs, c)
     }
   }"

definition CreateQuota ::
    "('c, 'v, 'g) World \<Rightarrow> 'g FileSystem \<Rightarrow> 'c \<Rightarrow> (Status \<times> 'c) option" where
  "CreateQuota w fs c = do {
     let quota_entry = default_quota\<lparr>q_max_inodes := - 1, q_max_bytes := - 1, q_used_inodes := 1\<rparr>;
     (status, c) \<leftarrow> SetFsQuota (w_pb w) (w_sdk w) (su_env (w_su w)) quota_entry (quota_manager fs) c;
     Some (if ok status then OK else EBACKEND_STORE, c)
   }"

subsection \<open>Names\<close>

definition entry_out :: "AttrType \<Rightarrow> EntryOut" where
  "entry_out attr = \<lparr>eo_name = [], eo_attr = attr\<rparr>"

definition Lookup ::
    "('c, 'v, 'g) World \<Rightarrow> Context \<Rightarrow> u64 \<Rightarrow> bytes \<Rightarrow> 'g FileSystem \<Rightarrow> 'c
      \<Rightarrow> ((Status + EntryOut) \<times> 'g FileSystem \<times> 'c) option" where
  "Lookup w ctx parent name fs c =
     (if \<not> can_serve fs then Some (Inl ENOT_SERVE, fs, c)
      else do {
        (r, fs, c) \<leftarrow> GetPartition w ctx parent fs c;
        case r of
          Inl status \<Rightarrow> Some (Inl status, fs, c)
        | Inr part \<Rightarrow>
            (case GetChild name (partition_heap fs ! part) of
               None \<Rightarrow> Some (Inl ENOT_FOUND, fs, c)
             | Some dentry \<Rightarrow> do {
                 (r, fs, c) \<leftarrow> GetInode_dentry w ctx 0 dentry part fs c;
                 case r of
                   Inl status \<Rightarrow> Some (Inl status, fs, c)
                 | Inr inode \<Rightarrow>
                     let fs = remember (at_ino (inode_at fs inode)) parent fs
                     in Some (Inr (entry_out (inode_at fs inode)), fs, c)
               })
      })"

text \<open>The attributes and the entry a create request builds.\<close>

definition mknod_attr :: "('c, 'v, 'g) World \<Rightarrow> u32 \<Rightarrow> u64 \<Rightarrow> MkParam \<Rightarrow> AttrType" where
  "mknod_attr w fs_id ino param = default_attr\<lparr>
     at_fs_id := fs_id, at_ino := ino, at_length := 0,
     at_ctime := w_time_ns w, at_mtime := w_time_ns w, at_atime := w_time_ns w,
     at_uid := mk_uid param, at_gid := mk_gid param, at_mode := mk_mode param, at_nlink := 1,
     at_type := FILE, at_rdev := mk_rdev param, at_parents := [mk_parent param]\<rparr>"

definition mkdir_attr :: "('c, 'v, 'g) World \<Rightarrow> u32 \<Rightarrow> u64 \<Rightarrow> MkParam \<Rightarrow> AttrType" where
  "mkdir_attr w fs_id ino param = default_attr\<lparr>
     at_fs_id := fs_id, at_ino := ino, at_length := 4096,
     at_ctime := w_time_ns w, at_mtime := w_time_ns w, at_atime := w_time_ns w,
     at_uid := mk_uid param, at_gid := mk_gid param, at_mode := S_IFDIR OR mk_mode param,
     at_nlink := kEmptyDirMinLinkNum, at_type := DIRECTORY, at_rdev := mk_rdev param,
     at_parents := [mk_parent param]\<rparr>"

definition symlink_attr :: "('c, 'v, 'g) World \<Rightarrow> u32 \<Rightarrow> u64 \<Rightarrow> bytes \<Rightarrow> u64 \<Rightarrow> u32 \<Rightarrow> u32 \<Rightarrow> AttrType" where
  "symlink_attr w fs_id ino symlink parent uid gid = default_attr\<lparr>
     at_fs_id := fs_id, at_ino := ino, at_symlink := symlink, at_length := of_nat (length symlink),
     at_ctime := w_time_ns w, at_mtime := w_time_ns w, at_atime := w_time_ns w,
     at_uid := uid, at_gid := gid, at_mode := S_IFLNK OR 0x1FF, at_nlink := 1, at_type := SYM_LINK,
     at_rdev := 1, at_parents := [parent]\<rparr>"

definition new_dentry :: "u32 \<Rightarrow> bytes \<Rightarrow> u64 \<Rightarrow> u64 \<Rightarrow> FileType \<Rightarrow> u32 \<Rightarrow> Dentry" where
  "new_dentry fs_id name parent ino type flag =
     \<lparr>d_name = name, d_fs_id = fs_id, d_ino = ino, d_parent = parent, d_type = type, d_flag = flag\<rparr>"

definition MkNod ::
    "('c, 'v, 'g) World \<Rightarrow> Context \<Rightarrow> MkParam \<Rightarrow> 'g FileSystem \<Rightarrow> 'c
      \<Rightarrow> ((Status + EntryOut) \<times> 'g FileSystem \<times> 'c) option" where
  "MkNod w ctx param fs c =
     (if \<not> can_serve fs then Some (Inl ENOT_SERVE, fs, c)
      else if mk_name param = [] then Some (Inl EILLEGAL_PARAMTETER, fs, c)
      else if mk_parent param = 0 then Some (Inl EILLEGAL_PARAMTETER, fs, c)
      else do {
        (r, fs, c) \<leftarrow> GetPartition w ctx (mk_parent param) fs c;
        case r of
          Inl status \<Rightarrow> Some (Inl status, fs, c)
        | Inr part \<Rightarrow> do {
            (r, fs) \<leftarrow> GenFileIno w fs;
            case r of
              Inl status \<Rightarrow> Some (Inl status, fs, c)
            | Inr ino \<Rightarrow> do {
                let fs = UpdateParentMemo (get_ancestors ctx) fs;
                b \<leftarrow> check_quota w (mk_parent param) 0 1 fs;
                if \<not> b then Some (Inl EQUOTA_EXCEED, fs, c)
                else do {
                  let attr = mknod_attr w (fsys_id fs) ino param;
                  let (inode, fs) = new_inode attr fs;
                  let dentry = new_dentry (fsys_id fs) (mk_name param) (mk_parent param) ino FILE (mk_flag param);
                  (status, result, c) \<leftarrow> run_operation w (MkNodOperation (w_op_time_ns w) dentry attr) c;
                  if \<not> ok status then Some (Inl EBACKEND_STORE, fs, c)
                  else do {
                    fs \<leftarrow> put_inode ino inode fs;
                    let fs = at_partition (PutChild (dentry, Some inode)) part fs;
                    let fs = update_inode (ParentInode fs part) (or_attr result) fs;
                    let fs = update_fs_usage 0 1 fs;
                    fs \<leftarrow> update_dir_usage (mk_parent param) 0 1 fs;
                    let fs = remember (at_ino attr) (mk_parent param) fs;
                    Some (Inr (entry_out attr), fs, c)
                  }
                }
              }
          }
      })"

definition MkDir ::
    "('c, 'v, 'g) World \<Rightarrow> Context \<Rightarrow> MkParam \<Rightarrow> 'g FileSystem \<Rightarrow> 'c
      \<Rightarrow> ((Status + EntryOut) \<times> 'g FileSystem \<times> 'c) option" where
  "MkDir w ctx param fs c =
     (if \<not> can_serve fs then Some (Inl ENOT_SERVE, fs, c)
      else if mk_name param = [] then Some (Inl EILLEGAL_PARAMTETER, fs, c)
      else if mk_parent param = 0 then Some (Inl EILLEGAL_PARAMTETER, fs, c)
      else do {
        (r, fs, c) \<leftarrow> GetPartition w ctx (mk_parent param) fs c;
        case r of
          Inl status \<Rightarrow> Some (Inl status, fs, c)
        | Inr part \<Rightarrow> do {
            (r, fs) \<leftarrow> GenDirIno w fs;
            case r of
              Inl status \<Rightarrow> Some (Inl status, fs, c)
            | Inr ino \<Rightarrow> do {
                let fs = UpdateParentMemo (get_ancestors ctx) fs;
                b \<leftarrow> check_quota w (mk_parent param) 0 1 fs;
                if \<not> b then Some (Inl EQUOTA_EXCEED, fs, c)
                else do {
                  let attr = mkdir_attr w (fsys_id fs) ino param;
                  let (inode, fs) = new_inode attr fs;
                  let dentry = new_dentry (fsys_id fs) (mk_name param) (mk_parent param) ino DIRECTORY (mk_flag param);
                  (status, result, c) \<leftarrow> run_operation w (MkDirOperation (w_op_time_ns w) dentry attr) c;
                  if \<not> ok status then Some (Inl EBACKEND_STORE, fs, c)
                  else do {
                    fs \<leftarrow> put_inode ino inode fs;
                    let fs = at_partition (PutChild (dentry, Some inode)) part fs;
                    let fs = update_inode (ParentInode fs part) (or_attr result) fs;
                    let (new_part, fs) = new_partition (new_Partition inode) fs;
                    fs \<leftarrow> put_partition ino new_part fs;
                    let fs = update_fs_usage 0 1 fs;
                    fs \<leftarrow> update_dir_usage (mk_parent param) 0 1 fs;
                    let fs = remember (at_ino attr) (mk_parent param) fs;
                    Some (Inr (entry_out attr), fs, c)
                  }
                }
              }
          }
      })"

text \<open>
  The partition of the directory to remove is taken from the cache only: without one, \<^verbatim>\<open>HasChild\<close> is called
  on a null pointer. The message for a directory with entries reads the entry's inode.
\<close>

definition RmDir ::
    "('c, 'v, 'g) World \<Rightarrow> Context \<Rightarrow> u64 \<Rightarrow> bytes \<Rightarrow> 'g FileSystem \<Rightarrow> 'c
      \<Rightarrow> ((Status + unit) \<times> 'g FileSystem \<times> 'c) option" where
  "RmDir w ctx parent name fs c =
     (if \<not> can_serve fs then Some (Inl ENOT_SERVE, fs, c)
      else do {
        (r, fs, c) \<leftarrow> GetPartition w ctx parent fs c;
        case r of
          Inl status \<Rightarrow> Some (Inl status, fs, c)
        | Inr parent_part \<Rightarrow>
            (case GetChild name (partition_heap fs ! parent_part) of
               None \<Rightarrow> Some (Inl ENOT_FOUND, fs, c)
             | Some dentry \<Rightarrow> do {
                 (part, fs) \<leftarrow> GetPartitionFromCache (d_ino (fst dentry)) fs;
                 if (case part of None \<Rightarrow> False
                     | Some p \<Rightarrow> at_nlink (inode_at fs (ParentInode fs p)) > kEmptyDirMinLinkNum)
                 then Some (Inl ENOT_EMPTY, fs, c)
                 else do {
                   p \<leftarrow> part;
                   if HasChild (partition_heap fs ! p) then do {
                     _ \<leftarrow> Dentry_Inode [parent_part, p] dentry fs;
                     Some (Inl ENOT_EMPTY, fs, c)
                   } else do {
                     let fs = UpdateParentMemo (get_ancestors ctx) fs;
                     (status, result, c) \<leftarrow> run_operation w (RmDirOperation (w_op_time_ns w) (fst dentry)) c;
                     if \<not> ok status then Some (Inl EBACKEND_STORE, fs, c)
                     else do {
                       let fs = at_partition (DeleteChild name) parent_part fs;
                       let fs = update_inode (ParentInode fs parent_part) (or_attr result) fs;
                       fs \<leftarrow> delete_partition (d_ino (fst dentry)) fs;
                       let fs = update_fs_usage 0 (- 1) fs;
                       fs \<leftarrow> update_dir_usage parent 0 (- 1) fs;
                       let fs = forget (d_ino (fst dentry)) fs;
                       Some (Inr (), fs, c)
                     }
                   }
                 }
               })
      })"

fun read_entries ::
    "('c, 'v, 'g) World \<Rightarrow> Context \<Rightarrow> bool \<Rightarrow> nat \<Rightarrow> CachedDentry list \<Rightarrow> 'g FileSystem \<Rightarrow> 'c
      \<Rightarrow> ((Status + EntryOut list) \<times> 'g FileSystem \<times> 'c) option" where
  "read_entries w ctx with_attr part [] fs c = Some (Inr [], fs, c)"
| "read_entries w ctx with_attr part (dentry # dentries) fs c = do {
     (r, fs, c) \<leftarrow>
       (if with_attr then do {
          (r, fs, c) \<leftarrow> GetInode_dentry w ctx 0 dentry part fs c;
          Some (map_sum (\<lambda>status. status) (inode_at fs) r, fs, c)
        } else Some (Inr (default_attr\<lparr>at_ino := d_ino (fst dentry)\<rparr>), fs, c));
     case r of
       Inl status \<Rightarrow> Some (Inl status, fs, c)
     | Inr attr \<Rightarrow> do {
         (r, fs, c) \<leftarrow> read_entries w ctx with_attr part dentries fs c;
         Some (map_sum (\<lambda>status. status) ((#) \<lparr>eo_name = d_name (fst dentry), eo_attr = attr\<rparr>) r, fs, c)
       }
   }"

definition ReadDir ::
    "('c, 'v, 'g) World \<Rightarrow> Context \<Rightarrow> u64 \<Rightarrow> bytes \<Rightarrow> u32 \<Rightarrow> bool \<Rightarrow> 'g FileSystem \<Rightarrow> 'c
      \<Rightarrow> ((Status + EntryOut list) \<times> 'g FileSystem \<times> 'c) option" where
  "ReadDir w ctx ino last_name limit with_attr fs c =
     (if \<not> can_serve fs then Some (Inl ENOT_SERVE, fs, c)
      else do {
        (r, fs, c) \<leftarrow> GetPartition w ctx ino fs c;
        case r of
          Inl status \<Rightarrow> Some (Inl status, fs, c)
        | Inr part \<Rightarrow>
            read_entries w ctx with_attr part
              (GetChildren last_name limit False (partition_heap fs ! part)) fs c
      })"

definition Link ::
    "('c, 'v, 'g) World \<Rightarrow> Context \<Rightarrow> u64 \<Rightarrow> u64 \<Rightarrow> bytes \<Rightarrow> 'g FileSystem \<Rightarrow> 'c
      \<Rightarrow> ((Status + EntryOut) \<times> 'g FileSystem \<times> 'c) option" where
  "Link w ctx ino new_parent new_name fs c =
     (if \<not> can_serve fs then Some (Inl ENOT_SERVE, fs, c)
      else do {
        (r, fs, c) \<leftarrow> GetPartition w ctx new_parent fs c;
        case r of
          Inl status \<Rightarrow> Some (Inl status, fs, c)
        | Inr part \<Rightarrow> do {
            (r, fs, c) \<leftarrow> GetInode w ctx ino fs c;
            case r of
              Inl status \<Rightarrow> Some (Inl status, fs, c)
            | Inr inode \<Rightarrow> do {
                let fs = UpdateParentMemo (get_ancestors ctx) fs;
                b \<leftarrow> check_quota w new_parent 0 1 fs;
                if \<not> b then Some (Inl EQUOTA_EXCEED, fs, c)
                else do {
                  let dentry = new_dentry (at_fs_id (inode_at fs inode)) new_name new_parent ino FILE 0;
                  (status, result, c) \<leftarrow> run_operation w (HardLinkOperation (w_op_time_ns w) dentry) c;
                  if \<not> ok status then Some (Inl EBACKEND_STORE, fs, c)
                  else do {
                    let fs = update_inode inode (or_child_attr result) fs;
                    let fs = update_inode (ParentInode fs part) (or_attr result) fs;
                    fs \<leftarrow> put_inode ino inode fs;
                    let fs = at_partition (PutChild (dentry, Some inode)) part fs;
                    fs \<leftarrow> update_dir_usage new_parent 0 1 fs;
                    Some (Inr (entry_out (inode_at fs inode)), fs, c)
                  }
                }
              }
          }
      })"

definition UnLink ::
    "('c, 'v, 'g) World \<Rightarrow> Context \<Rightarrow> u64 \<Rightarrow> bytes \<Rightarrow> 'g FileSystem \<Rightarrow> 'c
      \<Rightarrow> ((Status + unit) \<times> 'g FileSystem \<times> 'c) option" where
  "UnLink w ctx parent name fs c =
     (if \<not> can_serve fs then Some (Inl ENOT_SERVE, fs, c)
      else do {
        (r, fs, c) \<leftarrow> GetPartition w ctx parent fs c;
        case r of
          Inl status \<Rightarrow> Some (Inl status, fs, c)
        | Inr part \<Rightarrow>
            (case GetChild name (partition_heap fs ! part) of
               None \<Rightarrow> Some (Inl ENOT_FOUND, fs, c)
             | Some dentry \<Rightarrow> do {
                 (r, fs, c) \<leftarrow> GetInode_dentry w ctx (inode_version ctx) dentry part fs c;
                 case r of
                   Inl status \<Rightarrow> Some (Inl status, fs, c)
                 | Inr inode \<Rightarrow>
                     if at_type (inode_at fs inode) = DIRECTORY then Some (Inl ENOT_FILE, fs, c)
                     else do {
                       let fs = UpdateParentMemo (get_ancestors ctx) fs;
                       (status, result, c) \<leftarrow> run_operation w (UnlinkOperation (w_op_time_ns w) (fst dentry)) c;
                       if \<not> ok status then Some (Inl EBACKEND_STORE, fs, c)
                       else do {
                         let child_attr = or_child_attr result;
                         let byte_delta = (if at_type child_attr \<noteq> SYM_LINK then at_length child_attr else 0);
                         let fs = (if at_nlink child_attr = 0 then update_fs_usage (- byte_delta) (- 1) fs else fs);
                         fs \<leftarrow> update_dir_usage parent (- byte_delta) (- 1) fs;
                         let fs = at_partition (DeleteChild name) part fs;
                         let fs = update_inode (ParentInode fs part) (or_attr result) fs;
                         let fs = update_inode inode child_attr fs;
                         Some (Inr (), fs, c)
                       }
                     }
               })
      })"

definition Symlink ::
    "('c, 'v, 'g) World \<Rightarrow> Context \<Rightarrow> bytes \<Rightarrow> u64 \<Rightarrow> bytes \<Rightarrow> u32 \<Rightarrow> u32 \<Rightarrow> 'g FileSystem \<Rightarrow> 'c
      \<Rightarrow> ((Status + EntryOut) \<times> 'g FileSystem \<times> 'c) option" where
  "Symlink w ctx symlink new_parent new_name uid gid fs c =
     (if \<not> can_serve fs then Some (Inl ENOT_SERVE, fs, c)
      else if new_parent = 0 then Some (Inl EILLEGAL_PARAMTETER, fs, c)
      else if IsInvalidName new_name then Some (Inl EILLEGAL_PARAMTETER, fs, c)
      else do {
        (r, fs, c) \<leftarrow> GetPartition w ctx new_parent fs c;
        case r of
          Inl status \<Rightarrow> Some (Inl status, fs, c)
        | Inr part \<Rightarrow> do {
            (r, fs) \<leftarrow> GenFileIno w fs;
            case r of
              Inl status \<Rightarrow> Some (Inl status, fs, c)
            | Inr ino \<Rightarrow> do {
                let fs = UpdateParentMemo (get_ancestors ctx) fs;
                b \<leftarrow> check_quota w new_parent 0 1 fs;
                if \<not> b then Some (Inl EQUOTA_EXCEED, fs, c)
                else do {
                  let attr = symlink_attr w (fsys_id fs) ino symlink new_parent uid gid;
                  let (inode, fs) = new_inode attr fs;
                  let dentry = new_dentry (fsys_id fs) new_name new_parent ino SYM_LINK 0;
                  (status, result, c) \<leftarrow> run_operation w (SmyLinkOperation (w_op_time_ns w) dentry attr) c;
                  if \<not> ok status then Some (Inl EBACKEND_STORE, fs, c)
                  else do {
                    fs \<leftarrow> put_inode ino inode fs;
                    let fs = at_partition (PutChild (dentry, Some inode)) part fs;
                    let fs = update_inode (ParentInode fs part) (or_attr result) fs;
                    let fs = update_fs_usage 0 1 fs;
                    fs \<leftarrow> update_dir_usage new_parent 0 1 fs;
                    Some (Inr (entry_out attr), fs, c)
                  }
                }
              }
          }
      })"

end
