(* ===== verification/FileRequests.thy ===== *)
theory FileRequests
  imports Requests
begin

text \<open>
  The other requests of \<^verbatim>\<open>class FileSystem\<close> (\<^verbatim>\<open>mdsv2/filesystem/filesystem.cc\<close>): open files, attributes,
  rename, chunks, reads of entries and inodes, and the requests with which servers keep each other's
  memory up to date.
\<close>

subsection \<open>Open files and attributes\<close>

definition Open ::
    "('c, 'v, 'g) World \<Rightarrow> Context \<Rightarrow> u64 \<Rightarrow> u32 \<Rightarrow> 'g FileSystem \<Rightarrow> 'c
      \<Rightarrow> ((Status + bytes) \<times> 'g FileSystem \<times> 'c) option" where
  "Open w ctx ino flags fs c =
     (if \<not> can_serve fs then Some (Inl ENOT_SERVE, fs, c)
      else do {
        (r, fs, c) \<leftarrow> GetInode w ctx ino fs c;
        case r of
          Inl status \<Rightarrow> Some (Inl status, fs, c)
        | Inr inode \<Rightarrow> do {
            (r, fm, c) \<leftarrow> FileSessionManager_Create (w_pb w) (w_sdk w) (w_uuid w) ino (client_id ctx)
               (file_session_manager fs) c;
            let fs = fs\<lparr>file_session_manager := fm\<rparr>;
            case r of
              Inl status \<Rightarrow> Some (Inl status, fs, c)
            | Inr file_session \<Rightarrow> do {
                let attr = default_attr\<lparr>at_fs_id := fsys_id fs, at_ino := ino, at_atime := w_time_ns w,
                      at_ctime := w_time_ns w, at_mtime := w_time_ns w\<rparr>;
                (status, result, c) \<leftarrow> run_operation w
                   (UpdateAttrOperation ino (kSetAttrAtime OR kSetAttrCtime OR kSetAttrMtime) attr) c;
                if \<not> ok status then Some (Inl status, fs, c)
                else Some (Inr (fs_session_id file_session), update_inode inode (or_attr result) fs, c)
              }
          }
      })"

definition Release ::
    "('c, 'v, 'g) World \<Rightarrow> u64 \<Rightarrow> bytes \<Rightarrow> 'g FileSystem \<Rightarrow> 'c
      \<Rightarrow> ((Status + unit) \<times> 'g FileSystem \<times> 'c) option" where
  "Release w ino session_id fs c =
     (if \<not> can_serve fs then Some (Inl ENOT_SERVE, fs, c)
      else do {
        (status, fm, c) \<leftarrow> FileSessionManager_Delete (w_sdk w) ino session_id (file_session_manager fs) c;
        Some (if ok status then Inr () else Inl status, fs\<lparr>file_session_manager := fm\<rparr>, c)
      })"

text \<open>The requests that get an inode and read its attributes.\<close>

definition read_inode ::
    "('c, 'v, 'g) World \<Rightarrow> Context \<Rightarrow> u64 \<Rightarrow> (AttrType \<Rightarrow> Status + 'r) \<Rightarrow> 'g FileSystem \<Rightarrow> 'c
      \<Rightarrow> ((Status + 'r) \<times> 'g FileSystem \<times> 'c) option" where
  "read_inode w ctx ino f fs c = do {
     (r, fs, c) \<leftarrow> GetInode w ctx ino fs c;
     case r of
       Inl status \<Rightarrow> Some (Inl status, fs, c)
     | Inr inode \<Rightarrow> Some (f (inode_at fs inode), fs, c)
   }"

definition if_served ::
    "('g FileSystem \<Rightarrow> 'c \<Rightarrow> ((Status + 'r) \<times> 'g FileSystem \<times> 'c) option) \<Rightarrow> 'g FileSystem \<Rightarrow> 'c
      \<Rightarrow> ((Status + 'r) \<times> 'g FileSystem \<times> 'c) option" where
  "if_served m fs c = (if \<not> can_serve fs then Some (Inl ENOT_SERVE, fs, c) else m fs c)"

definition ReadLink ::
    "('c, 'v, 'g) World \<Rightarrow> Context \<Rightarrow> u64 \<Rightarrow> 'g FileSystem \<Rightarrow> 'c
      \<Rightarrow> ((Status + bytes) \<times> 'g FileSystem \<times> 'c) option" where
  "ReadLink w ctx ino =
     if_served (read_inode w ctx ino
       (\<lambda>attr. if at_type attr \<noteq> SYM_LINK then Inl EILLEGAL_PARAMTETER else Inr (at_symlink attr)))"

definition GetAttr ::
    "('c, 'v, 'g) World \<Rightarrow> Context \<Rightarrow> u64 \<Rightarrow> 'g FileSystem \<Rightarrow> 'c
      \<Rightarrow> ((Status + EntryOut) \<times> 'g FileSystem \<times> 'c) option" where
  "GetAttr w ctx ino = if_served (read_inode w ctx ino (\<lambda>attr. Inr (entry_out attr)))"

definition GetXAttrs ::
    "('c, 'v, 'g) World \<Rightarrow> Context \<Rightarrow> u64 \<Rightarrow> 'g FileSystem \<Rightarrow> 'c
      \<Rightarrow> ((Status + (bytes, bytes) omap) \<times> 'g FileSystem \<times> 'c) option" where
  "GetXAttrs w ctx ino = if_served (read_inode w ctx ino (\<lambda>attr. Inr (at_xattrs attr)))"

definition GetXAttr ::
    "('c, 'v, 'g) World \<Rightarrow> Context \<Rightarrow> u64 \<Rightarrow> bytes \<Rightarrow> 'g FileSystem \<Rightarrow> 'c
      \<Rightarrow> ((Status + bytes) \<times> 'g FileSystem \<times> 'c) option" where
  "GetXAttr w ctx ino name = if_served (read_inode w ctx ino (\<lambda>attr. Inr (XAttr name attr)))"

definition ReadSlice ::
    "('c, 'v, 'g) World \<Rightarrow> Context \<Rightarrow> u64 \<Rightarrow> u64 \<Rightarrow> 'g FileSystem \<Rightarrow> 'c
      \<Rightarrow> ((Status + Slice list) \<times> 'g FileSystem \<times> 'c) option" where
  "ReadSlice w ctx ino chunk_index =
     if_served (read_inode w ctx ino (\<lambda>attr.
       case Inode_Chunk chunk_index attr of None \<Rightarrow> Inl ENOT_FOUND | Some chunk \<Rightarrow> Inr (ck_slices chunk)))"

definition GetInode_entry ::
    "('c, 'v, 'g) World \<Rightarrow> Context \<Rightarrow> u64 \<Rightarrow> 'g FileSystem \<Rightarrow> 'c
      \<Rightarrow> ((Status + EntryOut) \<times> 'g FileSystem \<times> 'c) option" where
  "GetInode_entry w ctx ino = read_inode w ctx ino (\<lambda>attr. Inr (entry_out attr))"

definition FileSystem_SetAttr ::
    "('c, 'v, 'g) World \<Rightarrow> Context \<Rightarrow> u64 \<Rightarrow> u32 \<Rightarrow> AttrType \<Rightarrow> 'g FileSystem \<Rightarrow> 'c
      \<Rightarrow> ((Status + EntryOut) \<times> 'g FileSystem \<times> 'c) option" where
  "FileSystem_SetAttr w ctx ino to_set new_attr fs c =
     (if \<not> can_serve fs then Some (Inl ENOT_SERVE, fs, c)
      else do {
        (r, fs, c) \<leftarrow> GetInode w ctx ino fs c;
        case r of
          Inl status \<Rightarrow> Some (Inl status, fs, c)
        | Inr inode \<Rightarrow> do {
            (status, result, c) \<leftarrow> run_operation w (UpdateAttrOperation ino to_set new_attr) c;
            if \<not> ok status then Some (Inl EBACKEND_STORE, fs, c)
            else Some (Inr (entry_out (or_attr result)), update_inode inode (or_attr result) fs, c)
          }
      })"

definition SetXAttr ::
    "('c, 'v, 'g) World \<Rightarrow> Context \<Rightarrow> u64 \<Rightarrow> (bytes, bytes) omap \<Rightarrow> 'g FileSystem \<Rightarrow> 'c
      \<Rightarrow> ((Status + unit) \<times> 'g FileSystem \<times> 'c) option" where
  "SetXAttr w ctx ino xattrs fs c =
     (if \<not> can_serve fs then Some (Inl ENOT_SERVE, fs, c)
      else do {
        (r, fs, c) \<leftarrow> GetInode w ctx ino fs c;
        case r of
          Inl status \<Rightarrow> Some (Inl status, fs, c)
        | Inr inode \<Rightarrow> do {
            (status, result, c) \<leftarrow> run_operation w
               (UpdateXAttrOperation (w_op_time_ns w) (fsys_id fs) ino xattrs) c;
            if \<not> ok status then Some (Inl EBACKEND_STORE, fs, c)
            else Some (Inr (), update_inode inode (or_attr result) fs, c)
          }
      })"

subsection \<open>Rename\<close>

text \<open>The cache after a rename, when one server has the whole file system.\<close>

definition rename_old_cache ::
    "('c, 'v, 'g) World \<Rightarrow> Context \<Rightarrow> RenameParam \<Rightarrow> RenameResult \<Rightarrow> 'g FileSystem \<Rightarrow> 'c
      \<Rightarrow> ('g FileSystem \<times> 'c) option" where
  "rename_old_cache w ctx param rr fs c = do {
     (r, fs, c) \<leftarrow> GetPartition w ctx (rp_old_parent param) fs c;
     let fs = (case r of
         Inl _ \<Rightarrow> fs
       | Inr part \<Rightarrow>
           (let fs = at_partition (DeleteChild (rp_old_name param)) part fs
            in update_inode (ParentInode fs part) (rr_old_parent_attr rr) fs));
     (old_inode, fs) \<leftarrow> GetInodeFromCache (at_ino (rr_old_attr rr)) fs;
     Some ((case old_inode of None \<Rightarrow> fs | Some a \<Rightarrow> update_inode a (rr_old_attr rr) fs), c)
   }"

definition rename_new_cache ::
    "('c, 'v, 'g) World \<Rightarrow> Context \<Rightarrow> RenameParam \<Rightarrow> RenameResult \<Rightarrow> 'g FileSystem \<Rightarrow> 'c
      \<Rightarrow> ('g FileSystem \<times> 'c) option" where
  "rename_new_cache w ctx param rr fs c = do {
     (r, fs, c) \<leftarrow> GetPartition w ctx (rp_new_parent param) fs c;
     case r of
       Inl _ \<Rightarrow> Some (fs, c)
     | Inr part \<Rightarrow> do {
         let fs = update_inode (ParentInode fs part) (rr_new_parent_attr rr) fs;
         let fs = (if rr_is_exist_new_dentry rr
                   then at_partition (DeleteChild (rp_new_name param)) part fs else fs);
         (inode, fs) \<leftarrow> GetInodeFromCache (de_ino (rr_old_dentry rr)) fs;
         let dentry = new_dentry (fsys_id fs) (rp_new_name param) (rp_new_parent param)
               (de_ino (rr_old_dentry rr)) (de_type (rr_old_dentry rr)) 0;
         Some (at_partition (PutChild (dentry, inode)) part fs, c)
       }
   }"

definition rename_replaced_cache :: "RenameResult \<Rightarrow> 'g FileSystem \<Rightarrow> 'g FileSystem option" where
  "rename_replaced_cache rr fs =
     (if \<not> rr_is_exist_new_dentry rr then Some fs
      else if de_type (rr_prev_new_dentry rr) = DIRECTORY
      then delete_partition (de_ino (rr_prev_new_dentry rr)) fs
      else if at_nlink (rr_prev_new_attr rr) \<le> 0
      then DeleteInodeFromCache (at_ino (rr_prev_new_attr rr)) fs
      else do {
        (inode, fs) \<leftarrow> GetInodeFromCache (at_ino (rr_prev_new_attr rr)) fs;
        Some (case inode of None \<Rightarrow> fs | Some a \<Rightarrow> update_inode a (rr_prev_new_attr rr) fs)
      })"

definition rename_quota :: "RenameParam \<Rightarrow> RenameResult \<Rightarrow> 'g FileSystem \<Rightarrow> 'g FileSystem option" where
  "rename_quota param rr fs =
     (if \<not> rr_is_exist_new_dentry rr then Some fs
      else let fs = update_fs_usage 0 (- 1) fs;
               byte_delta = (if at_type (rr_old_attr rr) \<noteq> SYM_LINK then at_length (rr_old_attr rr) else 0)
           in update_dir_usage (rp_old_parent param) byte_delta (- 1) fs)"

definition can_rename :: "QuotaManager \<Rightarrow> nat option \<Rightarrow> nat option \<Rightarrow> bool" where
  "can_rename qm old_quota new_quota =
     (case (old_quota, new_quota) of
        (None, None) \<Rightarrow> True
      | (Some a, Some b) \<Rightarrow> qu_ino (quota_heap (dir_quota_map qm) ! a) = qu_ino (quota_heap (dir_quota_map qm) ! b)
      | _ \<Rightarrow> False)"

text \<open>The result: the versions of the two directories.\<close>

definition Rename ::
    "('c, 'v, 'g) World \<Rightarrow> Context \<Rightarrow> RenameParam \<Rightarrow> 'g FileSystem \<Rightarrow> 'c
      \<Rightarrow> ((Status + u64 \<times> u64) \<times> 'g FileSystem \<times> 'c) option" where
  "Rename w ctx param fs c =
     (if length (rp_new_name param) > FLAGS_filesystem_name_max_size then Some (Inl EILLEGAL_PARAMTETER, fs, c)
      else if rp_old_parent param = rp_new_parent param \<and> rp_old_name param = rp_new_name param
      then Some (Inl EILLEGAL_PARAMTETER, fs, c)
      else do {
        let fs = UpdateParentMemo (rp_old_ancestors param) fs;
        let fs = UpdateParentMemo (rp_new_ancestors param) fs;
        old_quota \<leftarrow> GetNearestDirQuota (parent_memo fs) (rp_old_parent param) (quota_manager fs);
        new_quota \<leftarrow> GetNearestDirQuota (parent_memo fs) (rp_new_parent param) (quota_manager fs);
        if \<not> can_rename (quota_manager fs) old_quota new_quota then Some (Inl EQUOTA_ILLEGAL, fs, c)
        else do {
          (status, result, c) \<leftarrow> run_operation w
             (RenameOperation (w_op_time_ns w) (fsys_id fs) (rp_old_parent param) (rp_old_name param)
                (rp_new_parent param) (rp_new_name param)) c;
          let rr = or_rename result;
          if \<not> ok status then Some (Inl status, fs, c)
          else do {
            (fs, c) \<leftarrow>
              (if IsMonoPartition fs then do {
                 (fs, c) \<leftarrow> rename_old_cache w ctx param rr fs c;
                 (fs, c) \<leftarrow> rename_new_cache w ctx param rr fs c;
                 fs \<leftarrow> rename_replaced_cache rr fs;
                 fs \<leftarrow> rename_quota param rr fs;
                 Some (fs, c)
               } else do {
                 old_mds_id \<leftarrow> GetMdsIdByIno (rp_old_parent param) fs;
                 new_mds_id \<leftarrow> GetMdsIdByIno (rp_new_parent param) fs;
                 Some (if old_mds_id = new_mds_id
                       then SendRefreshInode w old_mds_id [rp_old_parent param, rp_new_parent param] fs
                       else SendRefreshInode w new_mds_id [rp_new_parent param]
                              (SendRefreshInode w old_mds_id [rp_old_parent param] fs), c)
               });
            Some (Inr (at_version (rr_old_parent_attr rr), at_version (rr_new_parent_attr rr)), fs, c)
          }
        }
      })"

text \<open>\<^verbatim>\<open>Renamer::Execute\<close> (\<^verbatim>\<open>renamer.h\<close>) hands the rename to a worker and waits for it.\<close>

definition CommitRename ::
    "('c, 'v, 'g) World \<Rightarrow> Context \<Rightarrow> RenameParam \<Rightarrow> 'g FileSystem \<Rightarrow> 'c
      \<Rightarrow> ((Status + u64 \<times> u64) \<times> 'g FileSystem \<times> 'c) option" where
  "CommitRename w ctx param fs c =
     (if \<not> can_serve fs then Some (Inl ENOT_SERVE, fs, c)
      else if \<not> w_renamer_takes w then Some (Inl EINTERNAL, fs, c)
      else Rename w ctx param fs c)"

subsection \<open>Chunks\<close>

definition CalculateDeltaLength :: "u64 \<Rightarrow> Slice list \<Rightarrow> u64" where
  "CalculateDeltaLength len slices = fold grow_length slices len - len"

definition WriteSlice ::
    "('c, 'v, 'g) World \<Rightarrow> Context \<Rightarrow> u64 \<Rightarrow> u64 \<Rightarrow> u64 \<Rightarrow> Slice list \<Rightarrow> 'g FileSystem \<Rightarrow> 'c
      \<Rightarrow> ((Status + unit) \<times> 'g FileSystem \<times> 'c) option" where
  "WriteSlice w ctx parent ino chunk_index slices fs c =
     (if \<not> can_serve fs then Some (Inl ENOT_SERVE, fs, c)
      else do {
        (r, fs, c) \<leftarrow> GetInode w ctx ino fs c;
        case r of
          Inl status \<Rightarrow> Some (Inl status, fs, c)
        | Inr inode \<Rightarrow> do {
            let byte_delta = CalculateDeltaLength (at_length (inode_at fs inode)) slices;
            b \<leftarrow> check_quota w ino byte_delta 0 fs;
            if \<not> b then Some (Inl EQUOTA_EXCEED, fs, c)
            else do {
              (status, result, c) \<leftarrow> run_operation w
                 (UpdateChunkOperation (w_op_time_ns w) (fsys_info fs) ino chunk_index slices) c;
              if \<not> ok status then Some (Inl EBACKEND_STORE, fs, c)
              else do {
                let fs = update_inode inode (or_attr result) fs;
                let fs = update_fs_usage (or_length_delta result) 0 fs;
                fs \<leftarrow> update_dir_usage parent (or_length_delta result) 0 fs;
                Some (Inr (), fs, c)
              }
            }
          }
      })"

text \<open>\<open>now\<close> is the clock when the operation compacts the chunk of an index.\<close>

definition FileSystem_CompactChunk ::
    "('c, 'v, 'g) World \<Rightarrow> Context \<Rightarrow> (u64 \<Rightarrow> u64) \<Rightarrow> u64 \<Rightarrow> u64 \<Rightarrow> 'g FileSystem \<Rightarrow> 'c
      \<Rightarrow> ((Status + TrashSliceList) \<times> 'g FileSystem \<times> 'c) option" where
  "FileSystem_CompactChunk w ctx now ino chunk_index fs c =
     (if \<not> can_serve fs then Some (Inl ENOT_SERVE, fs, c)
      else do {
        (r, fs, c) \<leftarrow> GetInode w ctx ino fs c;
        case r of
          Inl status \<Rightarrow> Some (Inl status, fs, c)
        | Inr inode \<Rightarrow> do {
            (status, result, c) \<leftarrow> run_operation w (CompactChunkOperation now (fsys_info fs) ino chunk_index) c;
            if \<not> ok status then Some (Inl status, fs, c)
            else Some (Inr (or_trash_slice_list result), update_inode inode (or_attr result) fs, c)
          }
      })"

subsection \<open>Entries and inodes\<close>

definition GetDentry ::
    "('c, 'v, 'g) World \<Rightarrow> Context \<Rightarrow> u64 \<Rightarrow> bytes \<Rightarrow> 'g FileSystem \<Rightarrow> 'c
      \<Rightarrow> ((Status + CachedDentry) \<times> 'g FileSystem \<times> 'c) option" where
  "GetDentry w ctx parent name fs c = do {
     (hit, fs) \<leftarrow>
       (if is_bypass_cache ctx then Some (None, fs)
        else do {
          (r, fs) \<leftarrow> GetPartitionFromCache parent fs;
          Some (case r of None \<Rightarrow> None | Some part \<Rightarrow> GetChild name (partition_heap fs ! part), fs)
        });
     case hit of
       Some dentry \<Rightarrow> Some (Inr dentry, fs, c)
     | None \<Rightarrow> do {
         (r, c) \<leftarrow> GetDentryFromStore w parent name fs c;
         Some (r, fs, c)
       }
   }"

definition ListDentry ::
    "('c, 'v, 'g) World \<Rightarrow> Context \<Rightarrow> u64 \<Rightarrow> bytes \<Rightarrow> u32 \<Rightarrow> bool \<Rightarrow> 'g FileSystem \<Rightarrow> 'c
      \<Rightarrow> ((Status + CachedDentry list) \<times> 'g FileSystem \<times> 'c) option" where
  "ListDentry w ctx parent last_name limit is_only_dir fs c = do {
     (hit, fs) \<leftarrow> (if is_bypass_cache ctx then Some (None, fs) else GetPartitionFromCache parent fs);
     case hit of
       Some part \<Rightarrow> Some (Inr (GetChildren last_name limit is_only_dir (partition_heap fs ! part)), fs, c)
     | None \<Rightarrow> do {
         (r, c) \<leftarrow> ListDentryFromStore w parent last_name limit is_only_dir fs c;
         Some (r, fs, c)
       }
   }"

text \<open>The attributes of the inodes that the cache has, or of those in the store.\<close>

fun cached_attrs :: "u64 list \<Rightarrow> 'g FileSystem \<Rightarrow> (AttrType list \<times> 'g FileSystem) option" where
  "cached_attrs [] fs = Some ([], fs)"
| "cached_attrs (ino # inoes) fs = do {
     (inode, fs) \<leftarrow> GetInodeFromCache ino fs;
     (attrs, fs) \<leftarrow> cached_attrs inoes fs;
     Some ((case inode of None \<Rightarrow> [] | Some a \<Rightarrow> [inode_at fs a]) @ attrs, fs)
   }"

definition batch_attrs ::
    "('c, 'v, 'g) World \<Rightarrow> Context \<Rightarrow> u64 list \<Rightarrow> (AttrType \<Rightarrow> 'r) \<Rightarrow> 'g FileSystem \<Rightarrow> 'c
      \<Rightarrow> ((Status + 'r list) \<times> 'g FileSystem \<times> 'c) option" where
  "batch_attrs w ctx inoes f fs c =
     (if \<not> is_bypass_cache ctx then do {
        (attrs, fs) \<leftarrow> cached_attrs inoes fs;
        Some (Inr (map f attrs), fs, c)
      } else do {
        (r, c) \<leftarrow> BatchGetInodeFromStore w inoes fs c;
        Some (map_sum (\<lambda>status. status) (map f) r, fs, c)
      })"

definition BatchGetInode ::
    "('c, 'v, 'g) World \<Rightarrow> Context \<Rightarrow> u64 list \<Rightarrow> 'g FileSystem \<Rightarrow> 'c
      \<Rightarrow> ((Status + EntryOut list) \<times> 'g FileSystem \<times> 'c) option" where
  "BatchGetInode w ctx inoes = batch_attrs w ctx inoes entry_out"

definition BatchGetXAttr ::
    "('c, 'v, 'g) World \<Rightarrow> Context \<Rightarrow> u64 list \<Rightarrow> 'g FileSystem \<Rightarrow> 'c
      \<Rightarrow> ((Status + (bytes, bytes) omap list) \<times> 'g FileSystem \<times> 'c) option" where
  "BatchGetXAttr w ctx inoes = batch_attrs w ctx inoes at_xattrs"

subsection \<open>Keeping the memory up to date\<close>

fun RefreshInode :: "u64 list \<Rightarrow> 'g FileSystem \<Rightarrow> 'g FileSystem option" where
  "RefreshInode [] fs = Some fs"
| "RefreshInode (ino # inoes) fs = do {
     fs \<leftarrow> delete_partition ino fs;
     fs \<leftarrow> DeleteInodeFromCache ino fs;
     RefreshInode inoes fs
   }"

definition RefreshFsInfo :: "FsInfoType \<Rightarrow> 'g FileSystem \<Rightarrow> 'g FileSystem" where
  "RefreshFsInfo info fs =
     (let fs = fs\<lparr>fsys_info := FsInfo_Update info (fsys_info fs)\<rparr>
      in fs\<lparr>can_serve := CanServe (fsys_info fs) (self_mds_id fs)\<rparr>)"

definition RefreshFsInfo_name ::
    "('c, 'v, 'g) World \<Rightarrow> bytes \<Rightarrow> 'g FileSystem \<Rightarrow> 'c \<Rightarrow> (Status \<times> 'g FileSystem \<times> 'c) option" where
  "RefreshFsInfo_name w name fs c = do {
     k \<leftarrow> EncodeFSKey name;
     (r, c) \<leftarrow> DingodbStorage_Get (w_sdk w) k c;
     case r of
       Inl status \<Rightarrow> Some (EBACKEND_STORE, fs, c)
     | Inr v \<Rightarrow> do {
         info \<leftarrow> DecodeFSValue (w_pb w) v;
         Some (OK, RefreshFsInfo info fs, c)
       }
   }"

definition RefreshFsInfo_self ::
    "('c, 'v, 'g) World \<Rightarrow> 'g FileSystem \<Rightarrow> 'c \<Rightarrow> (Status \<times> 'g FileSystem \<times> 'c) option" where
  "RefreshFsInfo_self w fs c = RefreshFsInfo_name w (fi_fs_name (fsys_info fs)) fs c"

definition UpdatePartitionPolicy ::
    "('c, 'v, 'g) World \<Rightarrow> u64 \<Rightarrow> 'g FileSystem \<Rightarrow> 'c \<Rightarrow> (Status \<times> 'g FileSystem \<times> 'c) option" where
  "UpdatePartitionPolicy w mds_id fs c = do {
     k \<leftarrow> EncodeFSKey (fi_fs_name (fsys_info fs));
     txn \<leftarrow> DingodbStorage_NewTxn (w_sdk w) c;
     case Get (DingodbTxn (w_sdk w)) k txn of
       Inl status \<Rightarrow> Some (EBACKEND_STORE, fs, sdk_txn txn)
     | Inr v \<Rightarrow> do {
         info \<leftarrow> DecodeFSValue (w_pb w) v;
         m \<leftarrow> (case fi_partition_policy info of MONOLITHIC_PARTITION m \<Rightarrow> Some m | _ \<Rightarrow> None);
         let info = info\<lparr>fi_partition_policy := MONOLITHIC_PARTITION
               (m\<lparr>mono_epoch := mono_epoch m + 1, mono_mds_id := mds_id\<rparr>),
               fi_last_update_time_ns := w_time_ns w\<rparr>;
         (status, txn) \<leftarrow> Put (DingodbTxn (w_sdk w)) k (EncodeFSValue (w_pb w) info) txn;
         if \<not> ok status then Some (EBACKEND_STORE, fs, sdk_txn txn)
         else do {
           let txn = txn\<lparr>sdk_txn := su_env (w_su w) 0 (sdk_txn txn)\<rparr>;
           let (status, txn) = Commit (DingodbTxn (w_sdk w)) txn;
           if \<not> ok status then Some (EBACKEND_STORE, fs, sdk_txn txn)
           else Some (OK, RefreshFsInfo info fs, sdk_txn txn)
         }
       }
   }"

text \<open>
  The policy by hash is written directly to the store, outside the transaction it was read in. That
  transaction has no writes; its commit is that of an empty transaction.
\<close>

definition UpdatePartitionPolicy_hash ::
    "('c, 'v, 'g) World \<Rightarrow> (u64, u32 list) omap \<Rightarrow> 'g FileSystem \<Rightarrow> 'c
      \<Rightarrow> (Status \<times> 'g FileSystem \<times> 'c) option" where
  "UpdatePartitionPolicy_hash w distributions fs c = do {
     k \<leftarrow> EncodeFSKey (fi_fs_name (fsys_info fs));
     txn \<leftarrow> DingodbStorage_NewTxn (w_sdk w) c;
     case Get (DingodbTxn (w_sdk w)) k txn of
       Inl status \<Rightarrow> Some (EBACKEND_STORE, fs, sdk_txn txn)
     | Inr v \<Rightarrow> do {
         info \<leftarrow> DecodeFSValue (w_pb w) v;
         h \<leftarrow> (case fi_partition_policy info of PARENT_ID_HASH_PARTITION h \<Rightarrow> Some h | _ \<Rightarrow> None);
         let info = info\<lparr>fi_partition_policy := PARENT_ID_HASH_PARTITION
               (h\<lparr>hash_epoch := hash_epoch h + 1, hash_distributions := distributions\<rparr>),
               fi_last_update_time_ns := w_time_ns w\<rparr>;
         let c = su_env (w_su w) 0 (sdk_txn txn);
         (status, c) \<leftarrow> DingodbStorage_Put (w_sdk w) \<lparr>is_if_absent = False\<rparr> k (EncodeFSValue (w_pb w) info) c;
         if \<not> ok status then Some (EBACKEND_STORE, fs, c)
         else do {
           txn \<leftarrow> DingodbStorage_NewTxn (w_sdk w) c;
           let (status, txn) = Commit (DingodbTxn (w_sdk w)) txn;
           if \<not> ok status then Some (EBACKEND_STORE, fs, sdk_txn txn)
           else Some (OK, fs\<lparr>fsys_info := FsInfo_Update info (fsys_info fs)\<rparr>, sdk_txn txn)
         }
       }
   }"

definition GetDelFiles ::
    "('c, 'v, 'g) World \<Rightarrow> 'g FileSystem \<Rightarrow> 'c \<Rightarrow> (Status \<times> AttrType list \<times> 'c) option" where
  "GetDelFiles w fs c = do {
     let (s, e) = GetDelFileTableRange_fs (fsys_id fs);
     txn \<leftarrow> DingodbStorage_NewTxn (w_sdk w) c;
     (status, delfiles) \<leftarrow> scan_batches
        (\<lambda>_. Scan (DingodbTxn (w_sdk w)) \<lparr>start_key = s, end_key = e\<rparr> (of_nat FLAGS_fs_scan_batch_size) txn)
        FLAGS_fs_scan_batch_size (decode_all (DecodeDelFileValue (w_pb w))) [];
     Some (status, delfiles, sdk_txn txn)
   }"

definition GetDelSlices ::
    "('c, 'v, 'g) World \<Rightarrow> 'g FileSystem \<Rightarrow> 'c \<Rightarrow> (Status \<times> TrashSliceList list \<times> 'c) option" where
  "GetDelSlices w fs c = do {
     let (s, e) = GetTrashChunkRange_fs (fsys_id fs);
     txn \<leftarrow> DingodbStorage_NewTxn (w_sdk w) c;
     (status, delslices) \<leftarrow> scan_batches
        (\<lambda>_. Scan (DingodbTxn (w_sdk w)) \<lparr>start_key = s, end_key = e\<rparr> (of_nat FLAGS_fs_scan_batch_size) txn)
        FLAGS_fs_scan_batch_size (decode_all (DecodeTrashChunkValue (w_pb w))) [];
     Some (status, delslices, sdk_txn txn)
   }"

end
