(* ===== verification/Caches.thy ===== *)
theory Caches
  imports FileRequests
begin

text \<open>
  The memory of a file system: what the cached inodes and the cached partitions say about the entries
  \<open>D\<close> of the store. In \<open>caches f D X m\<close> every cached partition has exactly the entries of its directory, except
  for the names in \<open>X\<close>, which the running request has changed in the store and not yet in the memory.
\<close>

subsection \<open>Runs that return\<close>

definition ensures :: "'a option \<Rightarrow> ('a \<Rightarrow> bool) \<Rightarrow> bool" where
  "ensures m Q \<longleftrightarrow> (\<forall>x. m = Some x \<longrightarrow> Q x)"

lemma ensures_Some [simp]: "ensures (Some x) Q \<longleftrightarrow> Q x"
  by (simp add: ensures_def)

lemma ensures_None [simp]: "ensures None Q"
  by (simp add: ensures_def)

lemma ensures_map [simp]: "ensures (map_option h m) Q \<longleftrightarrow> ensures m (\<lambda>x. Q (h x))"
  by (cases m) simp_all

lemma ensuresD: "ensures m Q \<Longrightarrow> m = Some x \<Longrightarrow> Q x"
  by (simp add: ensures_def)

lemma ensures_mono: "ensures m P \<Longrightarrow> (\<And>x. P x \<Longrightarrow> Q x) \<Longrightarrow> ensures m Q"
  by (simp add: ensures_def)

lemma ensures_bindI: "ensures m P \<Longrightarrow> (\<And>x. P x \<Longrightarrow> ensures (g x) Q) \<Longrightarrow> ensures (m \<bind> g) Q"
  by (cases m) simp_all

lemma ensures_if: "(b \<Longrightarrow> ensures m Q) \<Longrightarrow> (\<not> b \<Longrightarrow> ensures m' Q) \<Longrightarrow> ensures (if b then m else m') Q"
  by simp

lemma returns_ensures: "returns m Q \<Longrightarrow> ensures m Q"
  by (auto simp: returns_def)

subsection \<open>The memory\<close>

record memory =
  mem_inodes :: "AttrType list"
  mem_parts :: "Partition list"
  mem_ic :: InodeCache
  mem_pc :: PartitionCache

definition mem :: "'g FileSystem \<Rightarrow> memory" where
  "mem fs = \<lparr>mem_inodes = inode_heap fs, mem_parts = partition_heap fs, mem_ic = inode_cache fs,
             mem_pc = partition_cache fs\<rparr>"

definition ids :: "u32 \<Rightarrow> u64 \<Rightarrow> AttrType \<Rightarrow> bool" where
  "ids f ino attr \<longleftrightarrow> at_fs_id attr = f \<and> at_ino attr = ino"

definition attr_at :: "u32 \<Rightarrow> memory \<Rightarrow> u64 \<Rightarrow> nat \<Rightarrow> bool" where
  "attr_at f m ino a \<longleftrightarrow> a < length (mem_inodes m) \<and> ids f ino (mem_inodes m ! a)"

definition child_ok :: "u32 \<Rightarrow> memory \<Rightarrow> CachedDentry \<Rightarrow> bool" where
  "child_ok f m cd \<longleftrightarrow> (\<forall>a. snd cd = Some a \<longrightarrow> attr_at f m (d_ino (fst cd)) a)"

definition cached_dir ::
    "u32 \<Rightarrow> (u64 \<times> bytes \<rightharpoonup> DentryType) \<Rightarrow> (u64 \<times> bytes) set \<Rightarrow> memory \<Rightarrow> u64 \<Rightarrow> nat \<Rightarrow> bool" where
  "cached_dir f D X m ino p \<longleftrightarrow>
     p < length (mem_parts m) \<and> attr_at f m ino (parent_inode (mem_parts m ! p)) \<and>
     om_ok (children (mem_parts m ! p)) \<and>
     (\<forall>n cd. om_find (children (mem_parts m ! p)) n = Some cd \<longrightarrow> child_ok f m cd) \<and>
     (\<forall>n. (ino, n) \<notin> X \<longrightarrow>
        map_option (\<lambda>cd. CopyTo (fst cd)) (om_find (children (mem_parts m ! p)) n) = D (ino, n))"

abbreviation ic_view :: "memory \<Rightarrow> u64 \<rightharpoonup> nat" where
  "ic_view m \<equiv> map_of (entries (mem_ic m))"

abbreviation pc_view :: "memory \<Rightarrow> u64 \<rightharpoonup> nat" where
  "pc_view m \<equiv> map_of (entries (mem_pc m))"

definition caches ::
    "u32 \<Rightarrow> (u64 \<times> bytes \<rightharpoonup> DentryType) \<Rightarrow> (u64 \<times> bytes) set \<Rightarrow> memory \<Rightarrow> bool" where
  "caches f D X m \<longleftrightarrow>
     lru_ok (mem_ic m) \<and> lru_ok (mem_pc m) \<and>
     (\<forall>ino a. ic_view m ino = Some a \<longrightarrow> attr_at f m ino a) \<and>
     (\<forall>ino p. pc_view m ino = Some p \<longrightarrow> cached_dir f D X m ino p)"

lemma cachesD:
  assumes "caches f D X m"
  shows "lru_ok (mem_ic m)" "lru_ok (mem_pc m)" "ic_view m ino = Some a \<Longrightarrow> attr_at f m ino a"
    "pc_view m ino = Some p \<Longrightarrow> cached_dir f D X m ino p"
  using assms by (simp_all add: caches_def)

lemma cached_dirD:
  assumes "cached_dir f D X m ino p"
  shows "p < length (mem_parts m)" "attr_at f m ino (parent_inode (mem_parts m ! p))"
    "om_ok (children (mem_parts m ! p))"
    "om_find (children (mem_parts m ! p)) n = Some cd \<Longrightarrow> child_ok f m cd"
    "(ino, n) \<notin> X \<Longrightarrow> map_option (\<lambda>cd. CopyTo (fst cd)) (om_find (children (mem_parts m ! p)) n) = D (ino, n)"
  using assms unfolding cached_dir_def by blast+

text \<open>A pointer to an inode or to a partition belongs to one inode.\<close>

lemma attr_at_unique: "attr_at f m i a \<Longrightarrow> attr_at f m j a \<Longrightarrow> i = j"
  by (simp add: attr_at_def ids_def)

lemma cached_dir_unique: "cached_dir f D X m i p \<Longrightarrow> cached_dir f D' X' m j p \<Longrightarrow> i = j"
  using attr_at_unique cached_dirD(2) by blast

subsection \<open>Changes of the memory\<close>

text \<open>A change that leaves the inodes where they are, up to their attributes, and adds no partition.\<close>

definition mem_le :: "u32 \<Rightarrow> memory \<Rightarrow> memory \<Rightarrow> bool" where
  "mem_le f m m' \<longleftrightarrow> (\<forall>ino a. attr_at f m ino a \<longrightarrow> attr_at f m' ino a)"

lemma mem_le_refl [simp]: "mem_le f m m"
  by (simp add: mem_le_def)

lemma mem_le_trans: "mem_le f m m' \<Longrightarrow> mem_le f m' m'' \<Longrightarrow> mem_le f m m''"
  by (simp add: mem_le_def)

lemma mem_leD: "mem_le f m m' \<Longrightarrow> attr_at f m ino a \<Longrightarrow> attr_at f m' ino a"
  by (simp add: mem_le_def)

lemma mem_le_child: "mem_le f m m' \<Longrightarrow> child_ok f m cd \<Longrightarrow> child_ok f m' cd"
  by (auto simp: child_ok_def mem_le_def)

lemma cached_dir_le:
  assumes "cached_dir f D X m ino p" and "mem_le f m m'" and "p < length (mem_parts m')"
    and "mem_parts m' ! p = mem_parts m ! p"
  shows "cached_dir f D X m' ino p"
  using assms(1,3) mem_leD [OF assms(2)] mem_le_child [OF assms(2)]
  unfolding cached_dir_def assms(4) by blast

lemma caches_le:
  assumes "caches f D X m" and "mem_le f m m'" and "mem_parts m' = mem_parts m"
    and "mem_ic m' = mem_ic m" and "mem_pc m' = mem_pc m"
  shows "caches f D X m'"
  using assms(1) cached_dir_le [OF _ assms(2)] mem_leD [OF assms(2)] cached_dirD(1)
  unfolding caches_def assms(3-5) by metis

text \<open>The store changes under the memory.\<close>

lemma caches_store:
  assumes "caches f D X m" and "\<And>k. k \<notin> Y \<Longrightarrow> D' k = D k" and "X \<subseteq> Y"
  shows "caches f D' Y m"
proof -
  have "cached_dir f D' Y m ino p" if "cached_dir f D X m ino p" for ino p
  proof -
    have "map_option (\<lambda>cd. CopyTo (fst cd)) (om_find (children (mem_parts m ! p)) n) = D' (ino, n)"
      if "(ino, n) \<notin> Y" for n
      using cached_dirD(5) [OF \<open>cached_dir f D X m ino p\<close>, of n] assms(2,3) that by auto
    then show ?thesis using that unfolding cached_dir_def by blast
  qed
  then show ?thesis using assms(1) unfolding caches_def by blast
qed

lemma caches_uncached:
  assumes "caches f D X m" and "\<And>ino n. (ino, n) \<in> X \<Longrightarrow> (ino, n) \<notin> Y \<Longrightarrow> pc_view m ino = None"
  shows "caches f D Y m"
proof -
  have "cached_dir f D Y m ino p" if "pc_view m ino = Some p" for ino p
  proof -
    have "(ino, n) \<notin> X" if "(ino, n) \<notin> Y" for n
      using assms(2) [of ino n] that \<open>pc_view m ino = Some p\<close> by auto
    then show ?thesis using cachesD(4) [OF assms(1) that] unfolding cached_dir_def by blast
  qed
  then show ?thesis using assms(1) unfolding caches_def by blast
qed

lemma caches_new_inode:
  assumes "caches f D X m"
  shows "caches f D X (m\<lparr>mem_inodes := mem_inodes m @ [attr]\<rparr>)"
    and "mem_le f m (m\<lparr>mem_inodes := mem_inodes m @ [attr]\<rparr>)"
    and "ids f ino attr \<Longrightarrow> attr_at f (m\<lparr>mem_inodes := mem_inodes m @ [attr]\<rparr>) ino (length (mem_inodes m))"
proof -
  show le: "mem_le f m (m\<lparr>mem_inodes := mem_inodes m @ [attr]\<rparr>)"
    by (auto simp: mem_le_def attr_at_def nth_append)
  show "caches f D X (m\<lparr>mem_inodes := mem_inodes m @ [attr]\<rparr>)"
    by (rule caches_le [OF assms le]) simp_all
  show "ids f ino attr \<Longrightarrow> attr_at f (m\<lparr>mem_inodes := mem_inodes m @ [attr]\<rparr>) ino (length (mem_inodes m))"
    by (simp add: attr_at_def)
qed

lemma caches_update_inode:
  assumes "caches f D X m" and "attr_at f m ino a" and "ids f ino attr"
  defines "m' \<equiv> m\<lparr>mem_inodes := (mem_inodes m)[a := snd (UpdateIf attr (mem_inodes m ! a))]\<rparr>"
  shows "caches f D X m'" and "mem_le f m m'"
proof -
  have u: "ids f ino (snd (UpdateIf attr (mem_inodes m ! a)))"
    using assms(2,3) by (simp add: UpdateIf_def attr_at_def)
  have "attr_at f m' j b" if "attr_at f m j b" for j b
    using that u attr_at_unique [OF assms(2), of j] by (cases "a = b") (auto simp: m'_def attr_at_def)
  then show le: "mem_le f m m'" by (simp add: mem_le_def)
  show "caches f D X m'" by (rule caches_le [OF assms(1) le]) (simp_all add: m'_def)
qed

lemma caches_put_inode:
  assumes "caches f D X m" and "attr_at f m ino a"
  shows "returns (LRUCache_Put ino a (mem_ic m)) (\<lambda>c. caches f D X (m\<lparr>mem_ic := c\<rparr>))"
proof (rule returns_mono [OF lru.put_view [OF cachesD(1) [OF assms(1)]]])
  fix c
  assume c: "lru_ok c \<and> map_of (entries c) \<subseteq>\<^sub>m (ic_view m)(ino \<mapsto> a) \<and> map_of (entries c) ino = Some a"
  have "attr_at f m j b" if "map_of (entries c) j = Some b" for j b
  proof -
    have "((ic_view m)(ino \<mapsto> a)) j = Some b" using c that by (auto simp: map_le_def dom_def)
    then show ?thesis using cachesD(3) [OF assms(1), of j b] assms(2) by (auto split: if_splits)
  qed
  then show "caches f D X (m\<lparr>mem_ic := c\<rparr>)"
    using assms(1) c by (simp add: caches_def cached_dir_def attr_at_def child_ok_def)
qed

lemma caches_get_inode:
  assumes "caches f D X m"
  shows "returns (LRUCache_Get ino (mem_ic m)) (\<lambda>(r, c). caches f D X (m\<lparr>mem_ic := c\<rparr>)
    \<and> r = ic_view m ino \<and> map_of (entries c) = ic_view m)"
  by (rule returns_mono [OF lru.get_view [OF cachesD(1) [OF assms]]])
    (use assms in \<open>auto simp: caches_def cached_dir_def attr_at_def child_ok_def\<close>)

lemma caches_remove_inode:
  assumes "caches f D X m"
  shows "returns (LRUCache_Remove ino (mem_ic m)) (\<lambda>c. caches f D X (m\<lparr>mem_ic := c\<rparr>))"
  by (rule returns_mono [OF lru.remove_view [OF cachesD(1) [OF assms]]])
    (use assms in \<open>auto simp: caches_def cached_dir_def attr_at_def child_ok_def split: if_splits\<close>)

lemma caches_get_partition:
  assumes "caches f D X m"
  shows "returns (LRUCache_Get ino (mem_pc m)) (\<lambda>(r, c). caches f D X (m\<lparr>mem_pc := c\<rparr>)
    \<and> r = pc_view m ino \<and> map_of (entries c) = pc_view m)"
  by (rule returns_mono [OF lru.get_view [OF cachesD(2) [OF assms]]])
    (use assms in \<open>auto simp: caches_def cached_dir_def attr_at_def child_ok_def\<close>)

lemma caches_remove_partition:
  assumes "caches f D X m"
  shows "returns (LRUCache_Remove ino (mem_pc m)) (\<lambda>c. caches f D X (m\<lparr>mem_pc := c\<rparr>)
    \<and> map_of (entries c) = (pc_view m)(ino := None))"
  by (rule returns_mono [OF lru.remove_view [OF cachesD(2) [OF assms]]])
    (use assms in \<open>auto simp: caches_def cached_dir_def attr_at_def child_ok_def split: if_splits\<close>)

lemma caches_new_partition:
  assumes "caches f D X m"
  shows "caches f D X (m\<lparr>mem_parts := mem_parts m @ [p]\<rparr>)"
proof -
  have "cached_dir f D X (m\<lparr>mem_parts := mem_parts m @ [p]\<rparr>) ino q" if "cached_dir f D X m ino q" for ino q
    by (rule cached_dir_le [OF that])
      (use cached_dirD(1) [OF that] in \<open>auto simp: mem_le_def attr_at_def nth_append\<close>)
  then show ?thesis using assms by (auto simp: caches_def attr_at_def)
qed

lemma caches_put_partition:
  assumes "caches f D X m" and "cached_dir f D X m ino p"
  shows "returns (LRUCache_Put ino p (mem_pc m)) (\<lambda>c. caches f D X (m\<lparr>mem_pc := c\<rparr>)
    \<and> map_of (entries c) ino = Some p)"
proof (rule returns_mono [OF lru.put_view [OF cachesD(2) [OF assms(1)]]])
  fix c
  assume c: "lru_ok c \<and> map_of (entries c) \<subseteq>\<^sub>m (pc_view m)(ino \<mapsto> p) \<and> map_of (entries c) ino = Some p"
  have "cached_dir f D X m j q" if "map_of (entries c) j = Some q" for j q
  proof -
    have "((pc_view m)(ino \<mapsto> p)) j = Some q" using c that by (auto simp: map_le_def dom_def)
    then show ?thesis using cachesD(4) [OF assms(1), of j q] assms(2) by (auto split: if_splits)
  qed
  then show "caches f D X (m\<lparr>mem_pc := c\<rparr>) \<and> map_of (entries c) ino = Some p"
    using assms(1) c by (simp add: caches_def cached_dir_def attr_at_def child_ok_def)
qed

text \<open>A change of the children of a cached partition.\<close>

lemma caches_at_partition:
  assumes m: "caches f D Y m" and p: "pc_view m ino = Some p"
    and g: "parent_inode (g (mem_parts m ! p)) = parent_inode (mem_parts m ! p)"
      "om_ok (children (g (mem_parts m ! p)))"
      "\<And>n cd. om_find (children (g (mem_parts m ! p))) n = Some cd \<Longrightarrow> child_ok f m cd"
      "\<And>n. (ino, n) \<notin> X \<Longrightarrow>
        map_option (\<lambda>cd. CopyTo (fst cd)) (om_find (children (g (mem_parts m ! p))) n) = D (ino, n)"
    and Y: "\<And>j n. (j, n) \<notin> X \<Longrightarrow> (j, n) \<in> Y \<Longrightarrow> j = ino"
  defines "m' \<equiv> m\<lparr>mem_parts := (mem_parts m)[p := g (mem_parts m ! p)]\<rparr>"
  shows "caches f D X m'"
proof -
  note dir = cachesD(4) [OF m p]
  have at: "attr_at f m' = attr_at f m" "child_ok f m' = child_ok f m"
    by (simp_all add: m'_def attr_at_def child_ok_def fun_eq_iff)
  have "cached_dir f D X m' j q" if q: "pc_view m j = Some q" for j q
  proof (cases "q = p")
    case True
    then have "j = ino" using cached_dir_unique [OF cachesD(4) [OF m q]] dir by blast
    then show ?thesis
      using True g cached_dirD(1,2) [OF dir] unfolding cached_dir_def at by (simp add: m'_def)
  next
    case False
    note dq = cachesD(4) [OF m q]
    have "j \<noteq> ino" using False p q by auto
    then have "(j, n) \<notin> Y" if "(j, n) \<notin> X" for n using Y that by blast
    moreover have "mem_parts m' ! q = mem_parts m ! q" "length (mem_parts m') = length (mem_parts m)"
      using False by (simp_all add: m'_def)
    ultimately show ?thesis using dq unfolding cached_dir_def at by simp
  qed
  then show ?thesis using m unfolding caches_def at by (simp add: m'_def)
qed

lemma caches_put_child:
  assumes m: "caches f D (insert (ino, n) X) m" and p: "pc_view m ino = Some p"
    and d: "d_name (fst cd) = n" "D (ino, n) = Some (CopyTo (fst cd))" "child_ok f m cd"
  shows "caches f D X (m\<lparr>mem_parts := (mem_parts m)[p := PutChild cd (mem_parts m ! p)]\<rparr>)"
proof (rule caches_at_partition [OF m p])
  note dir = cachesD(4) [OF m p]
  show "map_option (\<lambda>cd. CopyTo (fst cd)) (om_find (children (PutChild cd (mem_parts m ! p))) n') = D (ino, n')"
    if "(ino, n') \<notin> X" for n'
    using cached_dirD(5) [OF dir, of n'] that d(1,2) by (simp add: PutChild_def om_simps)
  show "child_ok f m cd'" if "om_find (children (PutChild cd (mem_parts m ! p))) n' = Some cd'" for n' cd'
    using that cached_dirD(4) [OF dir, of n' cd'] d(3) by (auto simp: PutChild_def om_simps split: if_splits)
qed (use cached_dirD(3) [OF cachesD(4) [OF m p]] in \<open>auto simp: PutChild_def\<close>)

lemma caches_delete_child:
  assumes m: "caches f D (insert (ino, n) X) m" and p: "pc_view m ino = Some p" and d: "D (ino, n) = None"
  shows "caches f D X (m\<lparr>mem_parts := (mem_parts m)[p := DeleteChild n (mem_parts m ! p)]\<rparr>)"
proof (rule caches_at_partition [OF m p])
  note dir = cachesD(4) [OF m p] and ok = cached_dirD(3) [OF cachesD(4) [OF m p]]
  show "map_option (\<lambda>cd. CopyTo (fst cd)) (om_find (children (DeleteChild n (mem_parts m ! p))) n') = D (ino, n')"
    if "(ino, n') \<notin> X" for n'
    using cached_dirD(5) [OF dir, of n'] that d by (simp add: DeleteChild_def om_find_erase [OF ok])
  show "child_ok f m cd'" if "om_find (children (DeleteChild n (mem_parts m ! p))) n' = Some cd'" for n' cd'
    using that cached_dirD(4) [OF dir, of n' cd'] by (auto simp: DeleteChild_def om_find_erase [OF ok] split: if_splits)
qed (use cached_dirD(3) [OF cachesD(4) [OF m p]] in \<open>auto simp: DeleteChild_def\<close>)

text \<open>An empty memory.\<close>

lemma caches_new: "caches f D {} (mem (new_FileSystem mds_id info g))"
  by (simp add: caches_def mem_def new_FileSystem_def new_InodeCache_def new_PartitionCache_def lru_ok_new)
    (simp add: new_LRUCache_def entries_def)

end
