(* ===== verification/Effects.thy ===== *)
theory Effects
  imports Caches ProcProps
begin

text \<open>
  What the requests of a server that has the store to itself do to the store: reads leave it as it is,
  a write outside an operation changes one key, and an operation that answers OK takes the file system to
  the state of its specification and answers with attributes of the inodes it is about.
\<close>

subsection \<open>Direct accesses\<close>

context si_contract
begin

lemma direct_txn:
  assumes "si_client S c"
  obtains c1 where "NewSdkTxn sdk c = Some c1" "in_txn S (si_db S c) c1" "si_view S c1 = si_db S c"
  using new_law [OF assms] by (auto simp: NewSdkTxn_def in_txn_def)

lemma direct_commit:
  assumes t: "in_txn S d c" and r: "commit_direct sdk c = (st, c')"
  shows "si_client S c'" and "st = OK \<Longrightarrow> si_db S c' = si_view S c"
    and "si_db S c' = d \<or> si_db S c' = si_view S c"
proof -
  have o: "si_open S c" "si_client S c" "si_db S c = d" "\<forall>k. k \<notin> si_writes S c \<longrightarrow> si_view S c k = d k"
    using t by (simp_all add: in_txn_def)
  obtain p c1 where p: "sdk_PreCommit sdk c = (p, c1)" by (cases "sdk_PreCommit sdk c")
  obtain q c2 where q: "sdk_Commit sdk c1 = (q, c2)" by (cases "sdk_Commit sdk c1")
  note pl = precommit_law [OF o(1,2) p]
  have c1: "si_client S c1" "si_db S c1 = d" using pl o(3) by (simp_all add: same_txn_def)
  have ov: "overwritten S c1 = si_view S c" if "sdk_ok p"
    using pl that o(3,4) c1(2) by (auto simp: overwritten_def fun_eq_iff)
  have cl: "si_client S c2 \<and> (si_db S c2 = si_view S c \<or> \<not> sdk_ok q \<and> si_db S c2 = d)" if "sdk_ok p"
    using commit_law [OF _ c1(1) q] pl that ov [OF that] c1(2) by auto
  show "si_client S c'" "st = OK \<Longrightarrow> si_db S c' = si_view S c" "si_db S c' = d \<or> si_db S c' = si_view S c"
    using r p q c1 cl by (auto simp: commit_direct_def split: if_splits)
qed

lemma storage_read:
  assumes c: "si_client S c" and r: "\<And>c1. in_txn S (si_db S c) c1 \<Longrightarrow> si_view S c1 = si_db S c \<Longrightarrow> Q (read c1)"
    and e: "\<And>st. Q (Inl st)"
  shows "returns (do {
      c \<leftarrow> NewSdkTxn sdk c;
      Some (case read c of
        Inl status \<Rightarrow> (Inl (err status), c)
      | Inr v \<Rightarrow> (let (status, c) = commit_direct sdk c in (if ok status then Inr (h v) else Inl status, c)))})
    (\<lambda>(r, c'). si_client S c' \<and> si_db S c' = si_db S c \<and> (\<forall>x. r = Inr x \<longrightarrow> (\<exists>v. x = h v \<and> Q (Inr v))))"
proof -
  obtain c1 where c1: "NewSdkTxn sdk c = Some c1" "in_txn S (si_db S c) c1" "si_view S c1 = si_db S c"
    using direct_txn [OF c] .
  obtain st c2 where c2: "commit_direct sdk c1 = (st, c2)" by (cases "commit_direct sdk c1")
  have cl: "si_client S c1" "si_db S c1 = si_db S c" using c1(2) by (simp_all add: in_txn_def)
  note d = direct_commit [OF c1(2) c2]
  have "Q (read c1)" using r c1(2,3) by blast
  then show ?thesis using c1 cl d c2 by (cases "read c1") auto
qed

lemma storage_get:
  assumes "si_client S c"
  shows "returns (DingodbStorage_Get sdk k c) (\<lambda>(r, c'). si_client S c' \<and> si_db S c' = si_db S c
    \<and> (\<forall>v. r = Inr v \<longrightarrow> si_db S c k = Some v))"
proof (rule returns_mono [OF storage_read [OF assms, where Q = "\<lambda>r. \<forall>v. r = Inr v \<longrightarrow> si_db S c k = Some v"
    and read = "sdk_Get sdk k" and h = "\<lambda>v. v" and err = read_error, folded DingodbStorage_Get_def]])
  fix c1 assume "in_txn S (si_db S c) c1" "si_view S c1 = si_db S c"
  then show "\<forall>v. sdk_Get sdk k c1 = Inr v \<longrightarrow> si_db S c k = Some v"
    using open_txn.sdk_get_some [of c1 k] open_txn.sdk_get_none [of c1 k]
    by (cases "si_db S c k") (auto simp: in_txn_def)
qed auto

lemma storage_scan:
  assumes "si_client S c"
  shows "returns (DingodbStorage_Scan sdk \<lparr>start_key = lo, end_key = hi\<rparr> c) (\<lambda>(r, c'). si_client S c'
    \<and> si_db S c' = si_db S c \<and> (\<forall>kvs. r = Inr kvs \<longrightarrow>
      kvs = KvPairsToKeyValues (take (unat FLAGS_dingodb_scan_batch_size) (range_list (si_db S c) lo hi))))"
proof -
  let ?l = "take (unat FLAGS_dingodb_scan_batch_size) (range_list (si_db S c) lo hi)"
  have "returns (do {
      c \<leftarrow> NewSdkTxn sdk c;
      Some (case sdk_Scan sdk lo hi FLAGS_dingodb_scan_batch_size c of
        Inl status \<Rightarrow> (Inl EBACKEND_STORE, c)
      | Inr v \<Rightarrow> (let (status, c) = commit_direct sdk c in
          (if ok status then Inr (KvPairsToKeyValues v) else Inl status, c)))})
    (\<lambda>(r, c'). si_client S c' \<and> si_db S c' = si_db S c \<and>
      (\<forall>x. r = Inr x \<longrightarrow> (\<exists>v. x = KvPairsToKeyValues v \<and> (\<forall>w. Inr v = (Inr w :: SdkStatus + _) \<longrightarrow> w = ?l))))"
    by (rule storage_read [OF assms, where Q = "\<lambda>r. \<forall>w. r = Inr w \<longrightarrow> w = ?l"])
      (use open_txn.sdk_scan in \<open>auto simp: in_txn_def\<close>)
  then show ?thesis unfolding DingodbStorage_Scan_def by (auto simp: returns_def)
qed

lemma storage_put:
  assumes c: "si_client S c" and r: "DingodbStorage_Put sdk \<lparr>is_if_absent = False\<rparr> k v c = Some (st, c')"
  shows "si_client S c' \<and> (st = OK \<longrightarrow> si_db S c' = (si_db S c)(k \<mapsto> v))
    \<and> (si_db S c' = si_db S c \<or> si_db S c' = (si_db S c)(k \<mapsto> v))"
proof -
  obtain c1 where c1: "NewSdkTxn sdk c = Some c1" "in_txn S (si_db S c) c1" "si_view S c1 = si_db S c"
    using direct_txn [OF c] .
  have o: "si_open S c1" "si_client S c1" using c1(2) by (simp_all add: in_txn_def)
  obtain st2 c2 where c2: "sdk_Put sdk k v c1 = (st2, c2)" "sdk_ok st2" "si_open S c2"
      "si_view S c2 = (si_view S c1)(k \<mapsto> v)"
    using open_txn.sdk_put [OF o(1)] by blast
  have t: "in_txn S (si_db S c) c2"
    using in_txn_write [OF c1(2) _ _ c2(3,4)] put_keeps [OF o c2(1)] by blast
  have "commit_direct sdk c2 = (st, c')"
    using r c1(1) c2(1,2) by (simp add: DingodbStorage_Put_def sdk_put_opt_def)
  from direct_commit [OF t this] show ?thesis by (simp add: c2(4) c1(3))
qed

lemma storage_delete:
  assumes c: "si_client S c" and r: "DingodbStorage_Delete sdk k c = Some (st, c')"
  shows "si_client S c' \<and> (st = OK \<longrightarrow> si_db S c' = (si_db S c)(k := None))
    \<and> (si_db S c' = si_db S c \<or> si_db S c' = (si_db S c)(k := None))"
proof -
  obtain c1 where c1: "NewSdkTxn sdk c = Some c1" "in_txn S (si_db S c) c1" "si_view S c1 = si_db S c"
    using direct_txn [OF c] .
  have o: "si_open S c1" "si_client S c1" using c1(2) by (simp_all add: in_txn_def)
  obtain st2 c2 where c2: "sdk_Delete sdk k c1 = (st2, c2)" "sdk_ok st2" "si_open S c2"
      "si_view S c2 = (si_view S c1)(k := None)"
    using open_txn.sdk_delete [OF o(1)] by blast
  have t: "in_txn S (si_db S c) c2"
    using in_txn_write [OF c1(2) _ _ c2(3,4)] delete_keeps [OF o c2(1)] by blast
  have "commit_direct sdk c2 = (st, c')"
    using r c1(1) c2(1,2) by (simp add: DingodbStorage_Delete_def)
  from direct_commit [OF t this] show ?thesis by (simp add: c2(4) c1(3))
qed

end

subsection \<open>Keys beside the file system\<close>

definition side_key :: "bytes \<Rightarrow> bool" where
  "side_key k \<longleftrightarrow> (\<exists>g i sid. k = EncodeFileSessionKey g i sid) \<or> (\<exists>g i j t. k = EncodeTrashChunkKey g i j t)"

lemma side_keys [simp]: "side_key (EncodeFileSessionKey g i sid)" "side_key (EncodeTrashChunkKey g i j t)"
  unfolding side_key_def by blast+

lemma side_key_neq:
  assumes "side_key k"
  shows "k \<noteq> inode_key f i" "k \<noteq> dentry_key f p n" "k \<noteq> EncodeDelFileKey f i"
  using assms by (auto simp: side_key_def EncodeFileSessionKey_def EncodeTrashChunkKey_def EncodeDelFileKey_def
      inode_key_def dentry_key_def)

lemma represents_side_key:
  assumes rep: "represents pb f v s" and k: "side_key k"
  shows "represents pb f (v(k := x)) s"
proof -
  have "\<exists>rm rc mk. encode_meta_key rm rc mk = Some k"
    using k encode_meta_key.simps(11,12) unfolding side_key_def by metis
  then have "store_wf (v(k := x))"
    using rep by (auto simp: represents_def rep_def store_wf_def dom_def split: if_splits)
  then show ?thesis
    using rep side_key_neq [OF k, symmetric] by (simp add: represents_def rep_def)
qed

subsection \<open>Operations in a transaction of their own\<close>

text \<open>The inodes that the attributes in an answer belong to.\<close>

fun result_ids :: "u32 \<Rightarrow> ns \<Rightarrow> Operation \<Rightarrow> OpResult \<Rightarrow> bool" where
  "result_ids f s (HardLinkOperation _ d) res \<longleftrightarrow>
     ids f (d_parent d) (or_attr res) \<and> ids f (d_ino d) (or_child_attr res)"
| "result_ids f s (UnlinkOperation _ d) res \<longleftrightarrow>
     ids f (d_parent d) (or_attr res) \<and> ids f (d_ino d) (or_child_attr res)"
| "result_ids f s (RmDirOperation _ d) res \<longleftrightarrow> ids f (d_parent d) (or_attr res)"
| "result_ids f s (RenameOperation _ _ op on np nn) res \<longleftrightarrow>
     (let rr = or_rename res in
      ids f op (rr_old_parent_attr rr) \<and> ids f np (rr_new_parent_attr rr) \<and>
      dents s (op, on) = Some (rr_old_dentry rr) \<and> ids f (de_ino (rr_old_dentry rr)) (rr_old_attr rr) \<and>
      (if rr_is_exist_new_dentry rr
       then dents s (np, nn) = Some (rr_prev_new_dentry rr) \<and> ids f (de_ino (rr_prev_new_dentry rr)) (rr_prev_new_attr rr)
       else dents s (np, nn) = None))"
| "result_ids f s _ res \<longleftrightarrow> True"

lemma ids_same: "same_inode a b \<Longrightarrow> ids f i a \<longleftrightarrow> ids f i b"
  by (simp add: ids_def same_inode_def)

lemma ids_simps [simp]:
  "ids f i (touch t a) \<longleftrightarrow> ids f i a" "ids f i (bump a) \<longleftrightarrow> ids f i a"
  "ids f i (a\<lparr>at_nlink := x\<rparr>) \<longleftrightarrow> ids f i a" "ids f i (AddParentIno a q) \<longleftrightarrow> ids f i a"
  "ids f i (unlinked t a) \<longleftrightarrow> ids f i a" "ids f i (renamed t op np a) \<longleftrightarrow> ids f i a"
  "ids f i (replaced t e a) \<longleftrightarrow> ids f i a" "ids f i (old_parent_after t b ex d a) \<longleftrightarrow> ids f i a"
  "ids f i (new_parent_after t ex d a) \<longleftrightarrow> ids f i a"
  by (auto simp: ids_def touch_def bump_def AddParentIno_def unlinked_def renamed_def DelParentIno_def
      replaced_def old_parent_after_def new_parent_after_def)

lemma ns_ok_ids: "ns_ok f s \<Longrightarrow> inodes s i = Some a \<Longrightarrow> ids f i a"
  by (simp add: ns_ok_def fs_ok_def inode_ok_def ids_def)

lemma store_result_returns:
  "returns (store_result put res m) Q \<longleftrightarrow>
    returns m (\<lambda>(r, t). case r of Inl st \<Rightarrow> Q (st, res, t) | Inr x \<Rightarrow> Q (OK, put x res, t))"
  by (cases m) (auto simp: store_result_def split: sum.splits)

lemma rename_answer_ids:
  assumes ok: "ns_ok f s" and pre: "rename_pre s op on np nn d oa opa npa eo"
    and a: "rename_answer t f op np nn d oa opa npa eo rr"
  shows "result_ids f s (RenameOperation t f op on np nn) (res\<lparr>or_rename := rr\<rparr>)"
proof -
  have i: "ids f op opa" "ids f np npa" "ids f (de_ino d) oa" "op = np \<Longrightarrow> npa = opa"
    using pre ns_ok_ids [OF ok] by (auto simp: rename_pre_def)
  have r: "ids f (de_ino e) ea" if "eo = Some (e, ea)" for e ea
    using pre that ns_ok_ids [OF ok, of "de_ino e"] by (simp add: rename_pre_def)
  show ?thesis
  proof (cases eo)
    case None
    then show ?thesis
      using a i pre by (auto simp: rename_answer_def Let_def rename_pre_def)
  next
    case (Some x)
    then obtain e ea where eo: "eo = Some (e, ea)" by (cases x) auto
    then show ?thesis
      using a i pre r [OF eo] by (auto simp: rename_answer_def Let_def rename_pre_def)
  qed
qed

context kv_scan_txn
begin

lemma RunResult_refines:
  assumes "inv t" and "pb_ok pb" and "f > 0" and "represents pb f (view t) s" and ok: "ns_ok f s"
    and "alone_step f s x s'"
  shows "returns (RunResult pb T x res t) (\<lambda>(st, res', t'). inv t' \<and> st = OK \<and> represents pb f (view t') s'
    \<and> result_ids f s x res')"
  using assms(6)
proof cases
  case (link d a pa time)
  note g = link_guardD [OF link(3)]
  show ?thesis
    using hard_link_refines [OF assms(1-4) g(1-3), of time] g(4,5) link(1,2) ns_ok_ids [OF ok g(4)] ns_ok_ids [OF ok g(5)]
    by (auto simp: store_result_returns put_link_def spec_hard_link_def elim!: returns_mono)
next
  case (unlink d a pa time)
  note g = unlink_guardD [OF unlink(3) ok]
  show ?thesis
    using unlink_refines [OF assms(1-4) g(1-3), of time] g(4,5) unlink(1,2) ns_ok_ids [OF ok g(4)] ns_ok_ids [OF ok g(5)]
    by (auto simp: store_result_returns put_link_def elim!: returns_mono)
next
  case (rmdir d pa time)
  have d: "d_fs_id d = f" "d_name d \<noteq> []" "inodes s (d_ino d) \<noteq> None" and pa: "inodes s (d_parent d) = Some pa"
    using rmdir(3) ns_ok_names(1,5) [OF ok, of "d_parent d" "d_name d"] by (auto simp: rmdir_guard_def)
  show ?thesis
    using rmdir_refines [OF assms(1-4) d(1) rmdir(4) d(2) rmdir(5) d(3), of time] rmdir(1-3) ns_ok_ids [OF ok pa]
    by (auto simp: store_result_returns rmdir_guard_def elim!: returns_mono)
next
  case (rename op on np nn d oa opa npa eo time)
  have pre: "rename_pre s op on np nn d oa opa npa eo"
    and ne: "\<not> (\<exists>e ea. eo = Some (e, ea) \<and> de_type e = DIRECTORY \<and> \<not> dir_empty s (de_ino e))"
    using rename(3) by (auto simp: rename_guard_def)
  show ?thesis
    using rename_refines [OF assms(1-4) pre, of time] rename(1,2) rename_answer_ids [OF ok pre]
    unfolding if_not_P [OF ne]
    by (auto simp: store_result_returns simp del: result_ids.simps elim!: returns_mono)
qed

end

context si_contract
begin

lemma run_alone_effect:
  assumes pb: "pb_ok pb" "f > 0" and c: "si_client S c" and rep: "represents pb f (si_db S c) s"
    and ok: "ns_ok f s" and x: "alone_step f s x s'"
    and r: "RunAlone_result pb sdk (\<lambda>_ c. c) x c = Some (st, res, c')"
  shows "si_client S c' \<and> (st = OK \<longrightarrow> represents pb f (si_db S c') s' \<and> result_ids f s x res)"
proof -
  let ?Post = "\<lambda>(_ :: bytes \<rightharpoonup> 'v) st res v. st = OK \<and> represents pb f v s' \<and> result_ids f s x res"
  have run: "in_txn S d (sdk_txn t') \<and> ?Post d st res' (si_view S (sdk_txn t'))"
    if "d = si_db S c" "in_txn S d (sdk_txn t)" "si_view S (sdk_txn t) = d"
      "RunResult pb (DingodbTxn sdk) x res t = Some (st, res', t')" for d t res st res' t'
    using kv_scan_txn.RunResult_refines [OF in_txn_kv that(2) pb _ ok x, of res] rep that
    by (auto simp: returns_def)
  have "si_client S c' \<and> (\<exists>d v d1. d = si_db S c \<and> d1 = si_db S c \<and> result_outcome ?Post d v d1 st res (si_db S c'))"
    by (rule result_loop_post [where I = "\<lambda>d. d = si_db S c" and Post = ?Post, OF r c refl isolated_idle _ run]) auto
  then show ?thesis by (auto simp: result_outcome_def split: if_splits)
qed

end

subsection \<open>Operations through the queue\<close>

text \<open>A server whose requests find nobody else at the store and nothing in the queue.\<close>

definition unshared :: "'c Surroundings \<Rightarrow> bool" where
  "unshared su \<longleftrightarrow> su_env su = (\<lambda>_ c. c) \<and> su_before su = [] \<and> su_after su = []"

text \<open>The batch of one operation.\<close>

definition single :: "Operation \<Rightarrow> BatchOperation" where
  "single x =
     \<lparr>bo_fs_id = GetFsId x, bo_ino = GetIno x,
      setattr_operations = (if IsCreateType x then [] else [x]),
      create_operations = (if IsCreateType x then [x] else [])\<rparr>"

lemma single_simps [simp]:
  "bo_fs_id (single x) = GetFsId x" "bo_ino (single x) = GetIno x"
  "setattr_operations (single x) @ create_operations (single x) = [x]"
  by (simp_all add: single_def)

lemma spec_batch_single:
  "spec_batch (single x) s =
    (let s1 = spec_in_batch (GetIno x) x s in s1\<lparr>inodes := (inodes s1)(GetIno x \<mapsto> bump (the (inodes s1 (GetIno x))))\<rparr>)"
  by (simp only: spec_batch_def single_simps fold_simps Let_def)

lemma RunOperation_single:
  assumes su: "unshared su" and x: "IsBatchRun x"
    and r: "RunOperation pb sdk su x c = Some (st, res, c')" and st: "\<not> su_stop su"
  obtains r results where "ExecuteBatchOperation pb sdk (\<lambda>_ c. c) (single x) c = Some (r # results, c')"
    "st = res_status r" "or_attr res = res_attr r"
proof -
  have g: "Grouping [x] = Some [(Key (GetFsId x) (GetIno x), single x)]"
    using x op_types [of x]
    by (auto simp: Grouping_def om_find_def add_operation_def single_def)
  have b: "batch_place [] x (single x) = 0"
    by (auto simp: batch_place_def single_def)
  have "RunOperation pb sdk su x c = do {
      (results, c) \<leftarrow> ExecuteBatchOperation pb sdk (\<lambda>_ c. c) (single x) c;
      CHECK (0 < length results);
      Some (res_status (results ! 0), default_result\<lparr>or_attr := res_attr (results ! 0),
        or_length_delta := res_length_delta (results ! 0)\<rparr>, c)}"
    using su x st g by (simp add: RunOperation_def unshared_def b om_find_def Let_def cong: if_cong)
  with r obtain results where
    e: "ExecuteBatchOperation pb sdk (\<lambda>_ c. c) (single x) c = Some (results, c')" "results \<noteq> []"
      "st = res_status (results ! 0)" "or_attr res = res_attr (results ! 0)"
    by (cases "ExecuteBatchOperation pb sdk (\<lambda>_ c. c) (single x) c") (auto split: if_splits)
  then show ?thesis using that by (cases results) simp_all
qed

context si_contract
begin

lemma run_batch_effect:
  assumes pb: "pb_ok pb" "f > 0" and c: "si_client S c" and rep: "represents pb f (si_db S c) s"
    and ok: "ns_ok f s" and su: "unshared su" and x: "IsBatchRun x" "GetFsId x = f" "op_wf (GetIno x) x"
    and pa: "inodes s (GetIno x) = Some pa" and r: "RunOperation pb sdk su x c = Some (st, res, c')"
  shows "si_client S c' \<and> (st = OK \<longrightarrow> represents pb f (si_db S c') (spec_batch (single x) s)
    \<and> inodes (spec_batch (single x) s) (GetIno x) = Some (or_attr res))"
proof (cases "su_stop su")
  case True
  then show ?thesis using r x(1) c by (simp add: RunOperation_def)
next
  case False
  obtain r0 results where e: "ExecuteBatchOperation pb sdk (\<lambda>_ c. c) (single x) c = Some (r0 # results, c')"
    "st = res_status r0" "or_attr res = res_attr r0"
    using RunOperation_single [OF su x(1) r False] .
  have i: "at_fs_id pa = f" "at_ino pa = GetIno x" using ns_ok_ids [OF ok pa] by (simp_all add: ids_def)
  have w: "batch_wf (single x)"
    unfolding batch_wf_def single_simps using x(3) by simp
  have "returns (ExecuteBatchOperation pb sdk (\<lambda>_ c. c) (single x) c) (\<lambda>(results, c').
      si_client S c' \<and> batch_done pb (single x) s (si_db S c) results (si_db S c'))"
    by (rule execute_idle) (use pb c rep x(2) pa i w in simp_all)
  then show ?thesis
    using e x(2) by (auto simp: returns_def batch_done_def split: if_splits)
qed

lemma run_batch_missing:
  assumes "f > 0" and c: "si_client S c" and k: "si_db S c (inode_key f (GetIno x)) = None"
    and su: "unshared su" and x: "IsBatchRun x" "GetFsId x = f"
    and r: "RunOperation pb sdk su x c = Some (st, res, c')"
  shows "si_client S c' \<and> si_db S c' = si_db S c \<and> st \<noteq> OK"
proof (cases "su_stop su")
  case True
  then show ?thesis using r x(1) c by (simp add: RunOperation_def)
next
  case False
  obtain r0 results where e: "ExecuteBatchOperation pb sdk (\<lambda>_ c. c) (single x) c = Some (r0 # results, c')"
    "st = res_status r0" "or_attr res = res_attr r0"
    using RunOperation_single [OF su x(1) r False] .
  obtain t where t: "DingodbStorage_NewTxn sdk c = Some t" "in_txn S (si_db S c) (sdk_txn t)"
      "si_view S (sdk_txn t) = si_db S c"
    using new_txn [OF c] by blast
  have g: "Get (DingodbTxn sdk) (inode_key f (GetIno x)) t = Inl ENOT_FOUND"
    using kv_txn.get_law [OF in_txn_kv1 t(2)] k by (simp add: t(3))
  have "si_client S (sdk_txn t)" "si_db S (sdk_txn t) = si_db S c"
    using t(2) by (simp_all add: in_txn_def)
  then show ?thesis
    using e(1,2) assms(1) x(2) g t(1)
    by (auto simp: ExecuteBatchOperation_def EncodeInodeKey_eq txn_loop.simps [of _ _ 0] batch_attempt_def
        SetError_def)
qed

end

subsection \<open>Compaction\<close>

context kv_txn
begin

lemma tx_put_side:
  assumes "inv t" and "represents pb f (view t) s" and "side_key k" and "tx_put T k v t = Some t'"
  shows "inv t' \<and> represents pb f (view t') s"
  using assms put_law [OF assms(1), of k v] represents_side_key [OF assms(2,3)] by (auto simp: tx_put_def)

lemma CompactChunk_keeps:
  assumes "inv t" and "represents pb f (view t) s"
    and "CompactChunk pb T now info ino len chunk t = Some (ts, chunk', t')"
  shows "inv t' \<and> represents pb f (view t') s"
  using assms tx_put_side [OF assms(1,2) side_keys(2)]
  by (auto simp: CompactChunk_def bind_eq_Some_conv split: if_splits)

lemma CompactChunks_keeps:
  assumes "inv t" and "represents pb f (view t) s"
    and "CompactChunks pb T now info ino len chunks t = Some (ts, chunks', t')"
  shows "inv t' \<and> represents pb f (view t') s"
  using assms
proof (induction chunks arbitrary: t ts chunks')
  case (Cons ck chunks)
  obtain i chunk where ck: "ck = (i, chunk)" by (cases ck)
  from Cons.prems(3) obtain tl1 c1 t1 tl2 cs2 where
    1: "CompactChunk pb T (now i) info ino len chunk t = Some (tl1, c1, t1)" and
    2: "CompactChunks pb T now info ino len chunks t1 = Some (tl2, cs2, t')"
    by (auto simp: ck bind_eq_Some_conv)
  show ?case
    using Cons.IH [OF _ _ 2] CompactChunk_keeps [OF Cons.prems(1,2) 1] by blast
qed simp

lemma compact_refines:
  assumes t: "inv t" and pb: "pb_ok pb" and f: "f > 0" "fi_fs_id info = f" and rep: "represents pb f (view t) s"
    and r: "CompactChunkOperation_Run pb T now info ino index t = Some (r, t')"
  shows "inv t' \<and> r \<noteq> Inl OK \<and> (\<forall>ts attr. r = Inr (ts, attr) \<longrightarrow> (\<exists>a. inodes s ino = Some a \<and> same_inode attr a \<and>
    at_nlink attr = at_nlink a \<and> represents pb f (view t') (s\<lparr>inodes := (inodes s)(ino \<mapsto> attr)\<rparr>)))"
proof (cases "inodes s ino")
  case None
  then show ?thesis
    using r t f get_law [OF t] represents_inodeD [OF rep]
    by (auto simp: CompactChunkOperation_Run_def EncodeInodeKey_eq)
next
  case (Some a)
  have g: "Get T (inode_key f ino) t = Inr (EncodeInodeValue pb a)"
    using get_law [OF t] represents_inodeD [OF rep] Some by simp
  from r obtain ts chunks t1 where
    1: "(if index = 0 then CompactChunks pb T now info ino (at_length a) (at_chunks a) t
         else (do { chunk \<leftarrow> om_find (at_chunks a) index;
                 (ts, chunk, t) \<leftarrow> CompactChunk pb T (now index) info ino (at_length a) chunk t;
                 Some (ts, om_insert index chunk (at_chunks a), t)})) = Some (ts, chunks, t1)" and
    2: "tx_put T (inode_key f ino) (EncodeInodeValue pb (bump (a\<lparr>at_chunks := chunks\<rparr>))) t1 = Some t'"
      "r = Inr (ts, bump (a\<lparr>at_chunks := chunks\<rparr>))"
    using f by (auto simp: CompactChunkOperation_Run_def EncodeInodeKey_eq g pb_ok_simps(1) [OF pb] bump_def
        Let_def bind_eq_Some_conv split: if_splits)
  have k: "inv t1" "represents pb f (view t1) s"
    using 1 CompactChunks_keeps [OF t rep] CompactChunk_keeps [OF t rep]
    by (auto simp: bind_eq_Some_conv split: if_splits)
  have "inv t' \<and> view t' = (view t1)(inode_key f ino \<mapsto> EncodeInodeValue pb (bump (a\<lparr>at_chunks := chunks\<rparr>)))"
    using put_law [OF k(1), of "inode_key f ino" "EncodeInodeValue pb (bump (a\<lparr>at_chunks := chunks\<rparr>))"] 2(1)
    by (auto simp: tx_put_def)
  moreover have "represents pb f ((view t1)(inode_key f ino \<mapsto> EncodeInodeValue pb (bump (a\<lparr>at_chunks := chunks\<rparr>))))
      (s\<lparr>inodes := (inodes s)(ino \<mapsto> bump (a\<lparr>at_chunks := chunks\<rparr>))\<rparr>)"
    using rep_put_inode [OF k(2) [unfolded represents_def] f(1)] by (simp add: represents_def)
  ultimately show ?thesis
    using 2(2) Some by (auto simp: same_inode_def bump_def)
qed

end

context si_contract
begin

lemma run_compact_effect:
  assumes pb: "pb_ok pb" "f > 0" and c: "si_client S c" and rep: "represents pb f (si_db S c) s"
    and info: "fi_fs_id info = f"
    and r: "RunAlone_result pb sdk (\<lambda>_ c. c) (CompactChunkOperation now info ino index) c = Some (st, res, c')"
  shows "si_client S c' \<and> (st = OK \<longrightarrow> (\<exists>a. inodes s ino = Some a \<and> same_inode (or_attr res) a
    \<and> at_nlink (or_attr res) = at_nlink a \<and> represents pb f (si_db S c') (s\<lparr>inodes := (inodes s)(ino \<mapsto> or_attr res)\<rparr>)))"
proof -
  let ?x = "CompactChunkOperation now info ino index"
  let ?Post = "\<lambda>(_ :: bytes \<rightharpoonup> 'v) st res v. st = OK \<longrightarrow> (\<exists>a. inodes s ino = Some a \<and> same_inode (or_attr res) a
    \<and> at_nlink (or_attr res) = at_nlink a \<and> represents pb f v (s\<lparr>inodes := (inodes s)(ino \<mapsto> or_attr res)\<rparr>))"
  have run: "in_txn S d (sdk_txn t') \<and> ?Post d st res' (si_view S (sdk_txn t'))"
    if d: "d = si_db S c" "in_txn S d (sdk_txn t)" "si_view S (sdk_txn t) = d"
      and r: "RunResult pb (DingodbTxn sdk) ?x res t = Some (st, res', t')" for d t res st res' t'
  proof -
    obtain r1 where r1: "CompactChunkOperation_Run pb (DingodbTxn sdk) now info ino index t = Some (r1, t')"
      "(st, res') = (case r1 of Inl st \<Rightarrow> (st, res) | Inr x \<Rightarrow> (OK, put_compact x res))"
      using r by (cases "CompactChunkOperation_Run pb (DingodbTxn sdk) now info ino index t")
        (force simp: store_result_def split: sum.splits)+
    then show ?thesis
      using kv_txn.compact_refines [OF in_txn_kv1 d(2) pb info _ r1(1), of s] rep d
      by (auto simp: put_compact_def split: sum.splits)
  qed
  have "si_client S c' \<and> (\<exists>d v d1. d = si_db S c \<and> d1 = si_db S c \<and> result_outcome ?Post d v d1 st res (si_db S c'))"
    by (rule result_loop_post [where I = "\<lambda>d. d = si_db S c" and Post = ?Post, OF r c refl isolated_idle _ run]) auto
  then show ?thesis by (auto simp: result_outcome_def split: if_splits)
qed

end

end
