(* ===== verification/Spec2Isabelle.thy ===== *)
theory Spec2Isabelle
  imports FsProps Gc ProcProps DistLock Effects
begin

text \<open>
  Verification of the DingoFS metadata service (\<^verbatim>\<open>src/src/mdsv2\<close>).

  The metadata service keeps every inode, directory entry, quota, session and trash record of
  its filesystems in a transactional key-value store and serves POSIX-like operations on them.

  \<^item> \<^verbatim>\<open>Prelude\<close>: bytes, strings, \<^verbatim>\<open>CHECK\<close>, big-endian values, ordered maps.
  \<^item> \<^verbatim>\<open>Serial\<close>: \<^verbatim>\<open>common/serial_helper.cc\<close>, the fixed-width integers of keys.
  \<^item> \<^verbatim>\<open>Codec\<close>: \<^verbatim>\<open>common/codec.cc\<close>, the key layout and the scan ranges.
  \<^item> \<^verbatim>\<open>Storage\<close>: the key-value store and its transactions.
  \<^item> \<^verbatim>\<open>Meta\<close>, \<^verbatim>\<open>NamespaceOps\<close>, \<^verbatim>\<open>Namespace\<close>, \<^verbatim>\<open>Links\<close>, \<^verbatim>\<open>NsProps\<close>: the namespace operations.
\<close>

end
